(* ===== verification/Iris_Prelude.thy ===== *)
theory Iris_Prelude
  imports Main "HOL-Library.Char_ord" "HOL-Library.List_Lexorder" "HOL-Library.Sublist"
    "HOL-Library.Multiset"
begin

text \<open>
  Shared ground of the development: the names of the types the components use, the result
  type of fallible Go functions, the collections of facts the component proofs draw on, and
  generic lemmas on bytes, lists and results.

  A Go \<open>string\<close> or \<open>[]byte\<close> is a list of bytes; a byte is a \<open>char\<close>, the 8-bit
  character type of HOL, ordered by its value (\<open>HOL-Library.Char_ord\<close>); strings are compared
  bytewise and lexicographically (\<open>HOL-Library.List_Lexorder\<close>), as Go compares them.
\<close>

type_synonym bytes = string
type_synonym ('e, 'a) result = "'e + 'a"

named_theorems byte_class \<comment> \<open>membership facts of the byte classes\<close>
named_theorems go_simps \<comment> \<open>evaluation rules of the standard library routines\<close>

abbreviation byte_val :: "char \<Rightarrow> nat" where
  "byte_val c \<equiv> of_char c"

text \<open>The sequencing of fallible calls: the first error is returned as it is.\<close>

fun and_then :: "('e, 'a) result \<Rightarrow> ('a \<Rightarrow> ('e, 'b) result) \<Rightarrow> ('e, 'b) result" where
  "and_then (Inl e) f = Inl e"
| "and_then (Inr a) f = f a"

lemma and_then_Inr [simp]: "and_then r f = Inr b \<longleftrightarrow> (\<exists>a. r = Inr a \<and> f a = Inr b)"
  by (cases r) auto

lemma and_then_Inl: "and_then r f = Inl e \<longleftrightarrow> r = Inl e \<or> (\<exists>a. r = Inr a \<and> f a = Inl e)"
  by (cases r) auto

text \<open>Instants (since the epoch) and durations are nanoseconds, as in \<open>time\<close>.\<close>

type_synonym instant = int
type_synonym duration = int

definition Millisecond :: duration where "Millisecond = 1000000"
definition Second :: duration where "Second = 1000000000"
definition Minute :: duration where "Minute = 60000000000"

subsection \<open>Bytes\<close>

text \<open>Evaluating an equation between a byte computed from a number and a byte literal.\<close>

lemma char_of_nat_eq [go_simps]: "char_of (n :: nat) = c \<longleftrightarrow> n mod 256 = byte_val c"
  by (simp add: char_of_eq_iff take_bit_eq_mod)

text \<open>Equations with byte literals as equations of byte values, for linear arithmetic.\<close>

lemma byte_lit [byte_class]:
  "c = Char b0 b1 b2 b3 b4 b5 b6 b7 \<longleftrightarrow> byte_val c = byte_val (Char b0 b1 b2 b3 b4 b5 b6 b7)"
  "Char b0 b1 b2 b3 b4 b5 b6 b7 = c \<longleftrightarrow> byte_val c = byte_val (Char b0 b1 b2 b3 b4 b5 b6 b7)"
  by (simp only: of_char_eq_iff) (metis of_char_eq_iff)

subsection \<open>Lists\<close>

lemma list_all_mono: "list_all P xs \<Longrightarrow> (\<And>x. P x \<Longrightarrow> Q x) \<Longrightarrow> list_all Q xs"
  by (auto simp: list_all_iff)

lemma takeWhile_all_iff: "takeWhile P xs = xs \<longleftrightarrow> list_all P xs"
  by (auto simp: takeWhile_eq_all_conv list_all_iff)

lemma sorted_adjacent_distinct:
  fixes xs :: "'a :: linorder list"
  assumes "sorted xs"
  shows "distinct xs \<longleftrightarrow> (\<forall>i. Suc i < length xs \<longrightarrow> xs ! Suc i \<noteq> xs ! i)"
  using assms
proof (induction xs rule: induct_list012)
  case (3 x y zs)
  have IH: "distinct (y # zs) \<longleftrightarrow> (\<forall>i. Suc i < length (y # zs) \<longrightarrow> (y # zs) ! Suc i \<noteq> (y # zs) ! i)"
    using 3 by simp
  have "distinct (x # y # zs) \<longleftrightarrow> x \<noteq> y \<and> distinct (y # zs)"
    using 3(3) by (auto simp: antisym)
  also have "\<dots> \<longleftrightarrow> (\<forall>i. Suc i < length (x # y # zs) \<longrightarrow> (x # y # zs) ! Suc i \<noteq> (x # y # zs) ! i)"
    unfolding IH by (auto simp: nth_Cons split: nat.splits)
  finally show ?case .
qed auto

end
