(* ===== verification/Go_Strings.thy ===== *)
theory Go_Strings
  imports Iris_Prelude
begin

text \<open>
  The routines of Go's standard library that the program calls on strings: \<open>strings.Cut\<close>,
  \<open>Split\<close>, \<open>Join\<close>, \<open>TrimSpace\<close>, \<open>ToLower\<close>, \<open>ToUpper\<close>, \<open>EqualFold\<close>; \<open>unicode/utf8\<close>
  decoding and encoding; \<open>strconv.ParseInt\<close>, \<open>ParseUint\<close> and \<open>FormatInt\<close>; lower-case
  \<open>encoding/hex\<close>. They follow the library's documented behaviour on arbitrary byte strings,
  valid UTF-8 or not. The one thing left open is the Unicode case table above U+007F: the case
  conversions take it as an argument of type \<open>ucase\<close>.
\<close>

section \<open>Byte classes\<close>

definition is_digit :: "char \<Rightarrow> bool" where
  "is_digit c \<longleftrightarrow> CHR ''0'' \<le> c \<and> c \<le> CHR ''9''"

definition is_lower :: "char \<Rightarrow> bool" where
  "is_lower c \<longleftrightarrow> CHR ''a'' \<le> c \<and> c \<le> CHR ''z''"

definition is_upper :: "char \<Rightarrow> bool" where
  "is_upper c \<longleftrightarrow> CHR ''A'' \<le> c \<and> c \<le> CHR ''Z''"

definition is_alnum :: "char \<Rightarrow> bool" where
  "is_alnum c \<longleftrightarrow> is_lower c \<or> is_upper c \<or> is_digit c"

definition is_ascii :: "char \<Rightarrow> bool" where
  "is_ascii c \<longleftrightarrow> byte_val c < 128"

section \<open>Cutting, splitting and joining\<close>

text \<open>\<open>strings.Cut(s, sep)\<close> for a one-byte separator: what is before, what is after, found.\<close>

fun cut_at :: "char \<Rightarrow> string \<Rightarrow> string \<times> string \<times> bool" where
  "cut_at c [] = ([], [], False)"
| "cut_at c (x # xs) =
     (if x = c then ([], xs, True)
      else case cut_at c xs of (a, b, f) \<Rightarrow> (x # a, b, f))"

text \<open>\<open>strings.Split(s, sep)\<close> for a one-byte separator; the pieces of \<open>SplitSeq\<close>.\<close>

fun split_on :: "char \<Rightarrow> string \<Rightarrow> string list" where
  "split_on c [] = [[]]"
| "split_on c (x # xs) =
     (if x = c then [] # split_on c xs
      else case split_on c xs of [] \<Rightarrow> [[x]] | y # ys \<Rightarrow> (x # y) # ys)"

fun join :: "string \<Rightarrow> string list \<Rightarrow> string" where
  "join sep [] = []"
| "join sep [x] = x"
| "join sep (x # y # ys) = x @ sep @ join sep (y # ys)"

text \<open>\<open>strings.Count(s, c)\<close> and \<open>strings.IndexByte(s, c)\<close>, the latter \<open>None\<close> for -1.\<close>

definition count_byte :: "char \<Rightarrow> string \<Rightarrow> nat" where
  "count_byte c s = length (filter (\<lambda>x. x = c) s)"

fun index_byte :: "char \<Rightarrow> string \<Rightarrow> nat option" where
  "index_byte c [] = None"
| "index_byte c (x # xs) = (if x = c then Some 0 else map_option Suc (index_byte c xs))"

section \<open>UTF-8\<close>

definition rune_error :: nat where
  "rune_error = 65533"

definition cont_lo :: "nat \<Rightarrow> nat" where
  "cont_lo b = (if b = 0xE0 then 0xA0 else if b = 0xF0 then 0x90 else 0x80)"

definition cont_hi :: "nat \<Rightarrow> nat" where
  "cont_hi b = (if b = 0xED then 0x9F else if b = 0xF4 then 0x8F else 0xBF)"

definition is_cont :: "char \<Rightarrow> bool" where
  "is_cont c \<longleftrightarrow> 0x80 \<le> byte_val c \<and> byte_val c \<le> 0xBF"

text \<open>
  \<open>utf8.DecodeRuneInString\<close>: the first code point and its width in bytes. An ill-formed
  sequence (a stray continuation byte, an overlong form, a surrogate, a truncated sequence) is
  \<open>RuneError\<close> with width 1; the empty string has width 0.
\<close>

definition decode_rune :: "string \<Rightarrow> nat \<times> nat" where
  "decode_rune s = (case s of
     [] \<Rightarrow> (rune_error, 0)
   | c0 # cs \<Rightarrow>
     (let b0 = byte_val c0; bad = (rune_error, 1) in
      if b0 < 0x80 then (b0, 1)
      else if b0 < 0xC2 \<or> 0xF4 < b0 then bad
      else case cs of [] \<Rightarrow> bad | c1 # cs1 \<Rightarrow>
       (if byte_val c1 < cont_lo b0 \<or> cont_hi b0 < byte_val c1 then bad
        else if b0 < 0xE0 then ((b0 mod 32) * 64 + byte_val c1 mod 64, 2)
        else case cs1 of [] \<Rightarrow> bad | c2 # cs2 \<Rightarrow>
         (if \<not> is_cont c2 then bad
          else if b0 < 0xF0 then
            ((b0 mod 16) * 4096 + (byte_val c1 mod 64) * 64 + byte_val c2 mod 64, 3)
          else case cs2 of [] \<Rightarrow> bad | c3 # _ \<Rightarrow>
           (if \<not> is_cont c3 then bad
            else ((b0 mod 8) * 262144 + (byte_val c1 mod 64) * 4096
                    + (byte_val c2 mod 64) * 64 + byte_val c3 mod 64, 4))))))"

lemma decode_rune_width:
  assumes "s \<noteq> []"
  shows "1 \<le> snd (decode_rune s) \<and> snd (decode_rune s) \<le> length s"
  using assms
  by (auto simp: decode_rune_def Let_def split: list.splits)

text \<open>The code points a \<open>for range\<close> loop over the string visits, with their widths.\<close>

function runes :: "string \<Rightarrow> (nat \<times> nat) list" where
  "runes s = (if s = [] then [] else decode_rune s # runes (drop (snd (decode_rune s)) s))"
  by pat_completeness auto
termination
  using decode_rune_width by (relation "measure length") force+

declare runes.simps [simp del]

definition valid_string :: "string \<Rightarrow> bool" where
  "valid_string s \<longleftrightarrow> list_all (\<lambda>rw. rw \<noteq> (rune_error, 1)) (runes s)"

definition rune_count :: "string \<Rightarrow> nat" where
  "rune_count s = length (runes s)"

text \<open>\<open>utf8.AppendRune\<close>: surrogates and values above U+10FFFF are written as U+FFFD.\<close>

definition encode_rune :: "nat \<Rightarrow> string" where
  "encode_rune r =
     (let r = (if r > 0x10FFFF \<or> 0xD800 \<le> r \<and> r \<le> 0xDFFF then rune_error else r) in
      if r < 0x80 then [char_of r]
      else if r < 0x800 then [char_of (0xC0 + r div 64), char_of (0x80 + r mod 64)]
      else if r < 0x10000 then
        [char_of (0xE0 + r div 4096), char_of (0x80 + r div 64 mod 64), char_of (0x80 + r mod 64)]
      else
        [char_of (0xF0 + r div 262144), char_of (0x80 + r div 4096 mod 64),
         char_of (0x80 + r div 64 mod 64), char_of (0x80 + r mod 64)])"

section \<open>White space\<close>

text \<open>The code points of \<open>unicode.IsSpace\<close>.\<close>

definition space_runes :: "nat list" where
  "space_runes =
     [0x09, 0x0A, 0x0B, 0x0C, 0x0D, 0x20, 0x85, 0xA0, 0x1680,
      0x2000, 0x2001, 0x2002, 0x2003, 0x2004, 0x2005, 0x2006, 0x2007, 0x2008, 0x2009, 0x200A,
      0x2028, 0x2029, 0x202F, 0x205F, 0x3000]"

definition is_space_rune :: "nat \<Rightarrow> bool" where
  "is_space_rune r \<longleftrightarrow> r \<in> set space_runes"

definition space_encodings :: "string list" where
  "space_encodings = map encode_rune space_runes"

text \<open>Drop listed prefixes as long as one of them is there.\<close>

function strip_prefixes :: "string list \<Rightarrow> string \<Rightarrow> string" where
  "strip_prefixes es s =
     (case find (\<lambda>e. e \<noteq> [] \<and> prefix e s) es of
        None \<Rightarrow> s
      | Some e \<Rightarrow> strip_prefixes es (drop (length e) s))"
  by pat_completeness auto
termination
  by (relation "measure (\<lambda>(es, s). length s)")
    (auto simp: find_Some_iff prefix_def)

declare strip_prefixes.simps [simp del]

text \<open>
  \<open>strings.TrimSpace\<close>. A white-space code point stands at the front (at the end) of a string
  exactly when its UTF-8 encoding is a prefix (a suffix) of it, so trimming drops encodings from
  both ends, the left one first.
\<close>

definition trim_left :: "string \<Rightarrow> string" where
  "trim_left s = strip_prefixes space_encodings s"

definition trim_right :: "string \<Rightarrow> string" where
  "trim_right s = rev (strip_prefixes (map rev space_encodings) (rev s))"

definition trim_space :: "string \<Rightarrow> string" where
  "trim_space s = trim_right (trim_left s)"

section \<open>Letter case\<close>

text \<open>The case table above U+007F; below it the conversions are ASCII's.\<close>

record ucase =
  lower_rune :: "nat \<Rightarrow> nat"
  upper_rune :: "nat \<Rightarrow> nat"

text \<open>A case table that leaves everything above ASCII alone.\<close>

definition ascii_case :: ucase where
  "ascii_case = \<lparr>lower_rune = id, upper_rune = id\<rparr>"

definition ascii_lower :: "char \<Rightarrow> char" where
  "ascii_lower c = (if is_upper c then char_of (byte_val c + 32) else c)"

definition ascii_upper :: "char \<Rightarrow> char" where
  "ascii_upper c = (if is_lower c then char_of (byte_val c - 32) else c)"

text \<open>
  \<open>strings.ToLower\<close>: bytewise on an ASCII string; otherwise \<open>strings.Map\<close> with
  \<open>unicode.ToLower\<close>, which re-encodes every code point and so replaces each ill-formed byte by
  the three bytes of U+FFFD.
\<close>

definition to_lower :: "ucase \<Rightarrow> string \<Rightarrow> string" where
  "to_lower uc s =
     (if list_all is_ascii s then map ascii_lower s
      else concat (map (\<lambda>(r, w).
        if r < 128 then [ascii_lower (char_of r)]
        else if r = rune_error then encode_rune rune_error
        else encode_rune (lower_rune uc r)) (runes s)))"

definition to_upper :: "ucase \<Rightarrow> string \<Rightarrow> string" where
  "to_upper uc s =
     (if list_all is_ascii s then map ascii_upper s
      else concat (map (\<lambda>(r, w).
        if r < 128 then [ascii_upper (char_of r)]
        else if r = rune_error then encode_rune rune_error
        else encode_rune (upper_rune uc r)) (runes s)))"

text \<open>
  \<open>strings.EqualFold(s, t)\<close> for an ASCII \<open>t\<close>. Beside the two cases of a letter, simple folding
  identifies U+212A with \<open>k\<close> and U+017F with \<open>s\<close>; no other code point folds into ASCII.
\<close>

definition fold_rune :: "nat \<Rightarrow> nat" where
  "fold_rune r =
     (if r < 128 then byte_val (ascii_lower (char_of r))
      else if r = 0x212A then byte_val CHR ''k''
      else if r = 0x17F then byte_val CHR ''s''
      else r)"

definition equal_fold_ascii :: "string \<Rightarrow> string \<Rightarrow> bool" where
  "equal_fold_ascii s t \<longleftrightarrow>
     map (fold_rune \<circ> fst) (runes s) = map (\<lambda>c. byte_val (ascii_lower c)) t"

section \<open>Numbers\<close>

definition digit_val :: "char \<Rightarrow> nat" where
  "digit_val c = byte_val c - 48"

definition digits_val :: "string \<Rightarrow> nat" where
  "digits_val s = foldl (\<lambda>n c. 10 * n + digit_val c) 0 s"

text \<open>\<open>strconv.ParseUint(s, 10, bits)\<close>: only digits, at least one, and within range.\<close>

definition parse_uint :: "nat \<Rightarrow> string \<Rightarrow> nat option" where
  "parse_uint bits s =
     (if s \<noteq> [] \<and> list_all is_digit s \<and> digits_val s < 2 ^ bits then Some (digits_val s) else None)"

text \<open>\<open>strconv.ParseInt(s, 10, 64)\<close>: an optional sign, then digits, within the range of int64.\<close>

definition max_int64 :: int where
  "max_int64 = 2 ^ 63 - 1"

definition min_int64 :: int where
  "min_int64 = - (2 ^ 63)"

definition parse_int64 :: "string \<Rightarrow> int option" where
  "parse_int64 s =
     (let (neg, ds) = (case s of
          c # cs \<Rightarrow> if c = CHR ''-'' then (True, cs) else if c = CHR ''+'' then (False, cs) else (False, s)
        | [] \<Rightarrow> (False, [])) in
      if ds = [] \<or> \<not> list_all is_digit ds then None
      else let n = int (digits_val ds) in
        if neg then (if n \<le> 2 ^ 63 then Some (- n) else None)
        else (if n < 2 ^ 63 then Some n else None))"

fun format_nat :: "nat \<Rightarrow> string" where
  "format_nat n = (if n < 10 then [char_of (48 + n)] else format_nat (n div 10) @ [char_of (48 + n mod 10)])"

declare format_nat.simps [simp del]

definition format_int :: "int \<Rightarrow> string" where
  "format_int i = (if i < 0 then CHR ''-'' # format_nat (nat (- i)) else format_nat (nat i))"

section \<open>Hexadecimal\<close>

definition hex_digit :: "nat \<Rightarrow> char" where
  "hex_digit n = (if n < 10 then char_of (48 + n) else char_of (87 + n))"

text \<open>\<open>hex.EncodeToString\<close>: two lower-case digits per byte.\<close>

definition hex_encode :: "bytes \<Rightarrow> string" where
  "hex_encode bs = concat (map (\<lambda>c. [hex_digit (byte_val c div 16), hex_digit (byte_val c mod 16)]) bs)"

definition is_lower_hex :: "char \<Rightarrow> bool" where
  "is_lower_hex c \<longleftrightarrow> is_digit c \<or> CHR ''a'' \<le> c \<and> c \<le> CHR ''f''"

section \<open>Laws of cutting, splitting and joining\<close>

lemma cut_no [go_simps]: "c \<notin> set s \<Longrightarrow> cut_at c s = (s, [], False)"
  by (induction s) auto

lemma cut_yes [go_simps]: "c \<notin> set a \<Longrightarrow> cut_at c (a @ c # b) = (a, b, True)"
  by (induction a) auto

lemma cut_cases:
  obtains "c \<notin> set s" "cut_at c s = (s, [], False)"
  | a b where "s = a @ c # b" "c \<notin> set a" "cut_at c s = (a, b, True)"
proof (cases "c \<in> set s")
  case True
  then obtain a b where "s = a @ c # b" and "c \<notin> set a"
    by (meson split_list_first)
  then show ?thesis using that(2) cut_yes by blast
next
  case False
  then show ?thesis using that(1) cut_no by blast
qed

lemma cut_found: "cut_at c s = (a, b, True) \<longleftrightarrow> s = a @ c # b \<and> c \<notin> set a"
proof
  assume "cut_at c s = (a, b, True)"
  then show "s = a @ c # b \<and> c \<notin> set a" by (cases rule: cut_cases [of c s]) auto
qed (auto simp: cut_yes)

lemma cut_absent: "cut_at c s = (a, b, False) \<longleftrightarrow> a = s \<and> b = [] \<and> c \<notin> set s"
  by (cases rule: cut_cases [of c s]) auto

lemma split_on_not_Nil [simp]: "split_on c s \<noteq> []"
  by (cases s) (auto split: list.splits)

lemma split_on_pieces: "p \<in> set (split_on c s) \<Longrightarrow> c \<notin> set p"
  by (induction s arbitrary: p) (auto split: list.splits if_splits)

lemma split_on_no [go_simps]: "c \<notin> set s \<Longrightarrow> split_on c s = [s]"
  by (induction s) (auto split: list.splits)

lemma split_on_append [go_simps]:
  "c \<notin> set a \<Longrightarrow> split_on c (a @ c # b) = a # split_on c b"
  by (induction a) (auto split: list.splits)

lemma split_join:
  assumes "xs \<noteq> []" and "\<And>x. x \<in> set xs \<Longrightarrow> c \<notin> set x"
  shows "split_on c (join [c] xs) = xs"
  using assms
proof (induction xs rule: induct_list012)
  case (3 x y zs)
  then show ?case using split_on_append [of c x "join [c] (y # zs)"] by simp
qed (auto simp: split_on_no)

lemma join_split: "join [c] (split_on c s) = s"
proof (induction s)
  case (Cons x xs)
  show ?case
  proof (cases "split_on c xs")
    case (Cons y ys)
    with Cons.IH show ?thesis by (cases ys) auto
  qed simp
qed simp

lemma join_Cons: "ys \<noteq> [] \<Longrightarrow> join sep (x # ys) = x @ sep @ join sep ys"
  by (cases ys) auto

lemma set_join: "set (join [c] xs) \<subseteq> insert c (\<Union> (set ` set xs))"
  by (induction xs rule: induct_list012) auto

lemma join_inj:
  assumes "join [c] xs = join [c] ys" and "xs \<noteq> []" and "ys \<noteq> []"
    and "\<And>x. x \<in> set xs \<Longrightarrow> c \<notin> set x" and "\<And>y. y \<in> set ys \<Longrightarrow> c \<notin> set y"
  shows "xs = ys"
  using assms split_join by metis

section \<open>Laws of UTF-8 on ASCII strings\<close>

lemma runes_Nil [simp]: "runes [] = []"
  by (simp add: runes.simps)

lemma decode_rune_ascii: "is_ascii c \<Longrightarrow> decode_rune (c # cs) = (byte_val c, 1)"
  by (simp add: decode_rune_def is_ascii_def)

lemma runes_ascii_Cons: "is_ascii c \<Longrightarrow> runes (c # cs) = (byte_val c, 1) # runes cs"
  by (simp add: runes.simps [of "c # cs"] decode_rune_ascii)

lemma runes_ascii: "list_all is_ascii s \<Longrightarrow> runes s = map (\<lambda>c. (byte_val c, 1)) s"
  by (induction s) (auto simp: runes_ascii_Cons)

lemma valid_string_ascii: "list_all is_ascii s \<Longrightarrow> valid_string s"
  by (auto simp: valid_string_def runes_ascii list_all_iff is_ascii_def rune_error_def)

lemma rune_count_ascii: "list_all is_ascii s \<Longrightarrow> rune_count s = length s"
  by (simp add: rune_count_def runes_ascii)

lemma rune_count_le: "rune_count s \<le> length s"
proof (induction s rule: runes.induct)
  case (1 s)
  show ?case
  proof (cases "s = []")
    case False
    with 1 have "rune_count (drop (snd (decode_rune s)) s) \<le> length s - snd (decode_rune s)"
      by simp
    then have "Suc (rune_count (drop (snd (decode_rune s)) s)) \<le> length s"
      using decode_rune_width [OF False] by linarith
    with False show ?thesis by (simp add: rune_count_def runes.simps [of s])
  qed (simp add: rune_count_def)
qed

section \<open>Laws of trimming\<close>

lemma find_prefix_None:
  "find (\<lambda>e. e \<noteq> [] \<and> prefix e s) es = None \<longleftrightarrow> (\<forall>e \<in> set es. e \<noteq> [] \<longrightarrow> \<not> prefix e s)"
  by (auto simp: find_None_iff)

lemma strip_prefixes_stop:
  "\<forall>e \<in> set es. e \<noteq> [] \<longrightarrow> \<not> prefix e s \<Longrightarrow> strip_prefixes es s = s"
  by (subst strip_prefixes.simps) (simp add: find_prefix_None [THEN iffD2])

lemma strip_prefixes_clean:
  "e \<in> set es \<Longrightarrow> e \<noteq> [] \<Longrightarrow> \<not> prefix e (strip_prefixes es s)"
proof (induction es s arbitrary: e rule: strip_prefixes.induct)
  case (1 es s)
  show ?case
  proof (cases "find (\<lambda>e. e \<noteq> [] \<and> prefix e s) es")
    case None
    then have "strip_prefixes es s = s" by (simp add: strip_prefixes.simps [of es s])
    with None "1.prems" show ?thesis by (simp add: find_prefix_None)
  next
    case (Some e')
    then show ?thesis
      using "1.IH" [OF Some] "1.prems" by (simp add: strip_prefixes.simps [of es s])
  qed
qed

lemma strip_prefixes_suffix: "suffix (strip_prefixes es s) s"
proof (induction es s rule: strip_prefixes.induct)
  case (1 es s)
  show ?case
  proof (cases "find (\<lambda>e. e \<noteq> [] \<and> prefix e s) es")
    case (Some e')
    have "suffix (strip_prefixes es (drop (length e') s)) (drop (length e') s)"
      by (rule "1.IH" [OF Some])
    also have "suffix (drop (length e') s) s" by (rule suffix_drop)
    finally show ?thesis using Some by (simp add: strip_prefixes.simps [of es s])
  qed (simp add: strip_prefixes.simps [of es s])
qed

lemma trim_left_clean: "e \<in> set space_encodings \<Longrightarrow> e \<noteq> [] \<Longrightarrow> \<not> prefix e (trim_left s)"
  unfolding trim_left_def by (rule strip_prefixes_clean)

lemma trim_right_prefix: "prefix (trim_right s) s"
  using strip_prefixes_suffix [of "map rev space_encodings" "rev s"]
  by (simp add: trim_right_def suffix_to_prefix)

lemma trim_right_clean:
  assumes "e \<in> set space_encodings" and "e \<noteq> []"
  shows "\<not> suffix e (trim_right s)"
  using strip_prefixes_clean [of "rev e" "map rev space_encodings" "rev s"] assms
  by (auto simp: trim_right_def suffix_to_prefix)

lemma trim_space_clean:
  assumes "e \<in> set space_encodings" and "e \<noteq> []"
  shows "\<not> prefix e (trim_space s)" and "\<not> suffix e (trim_space s)"
  using assms trim_left_clean trim_right_clean trim_right_prefix prefix_order.order_trans
  unfolding trim_space_def by metis+

text \<open>A string with no white space at either end is left alone, so trimming is idempotent.\<close>

lemma trim_space_stop:
  assumes "\<And>e. e \<in> set space_encodings \<Longrightarrow> e \<noteq> [] \<Longrightarrow> \<not> prefix e s \<and> \<not> suffix e s"
  shows "trim_space s = s"
proof -
  have "trim_left s = s"
    using assms unfolding trim_left_def by (intro strip_prefixes_stop) auto
  moreover have "strip_prefixes (map rev space_encodings) (rev s) = rev s"
    using assms by (intro strip_prefixes_stop) (auto simp: suffix_to_prefix)
  ultimately show ?thesis by (simp add: trim_space_def trim_right_def)
qed

lemma trim_space_idem [simp]: "trim_space (trim_space s) = trim_space s"
  using trim_space_clean by (intro trim_space_stop) blast

lemma trim_space_sublist: "sublist (trim_space s) s"
  unfolding trim_space_def
  using trim_right_prefix [of "trim_left s"] strip_prefixes_suffix [of space_encodings s]
  by (metis prefix_imp_sublist sublist_order.order_trans suffix_imp_sublist trim_left_def)

lemma set_trim_space: "set (trim_space s) \<subseteq> set s"
  using trim_space_sublist set_mono_sublist by blast

lemma length_trim_space: "length (trim_space s) \<le> length s"
  using trim_space_sublist sublist_length_le by blast

definition is_visible :: "char \<Rightarrow> bool" where
  "is_visible c \<longleftrightarrow> 0x21 \<le> byte_val c \<and> byte_val c \<le> 0x7E"

lemma space_encodings_ends:
  "list_all (\<lambda>e. e \<noteq> [] \<and> \<not> is_visible (hd e) \<and> \<not> is_visible (last e)) space_encodings"
  by (simp add: space_encodings_def space_runes_def encode_rune_def is_visible_def)

lemma trim_space_visible:
  assumes "s = [] \<or> is_visible (hd s) \<and> is_visible (last s)"
  shows "trim_space s = s"
proof (rule trim_space_stop)
  fix e assume "e \<in> set space_encodings" and "e \<noteq> []"
  with space_encodings_ends have "\<not> is_visible (hd e)" and "\<not> is_visible (last e)"
    by (auto simp: list_all_iff)
  with assms \<open>e \<noteq> []\<close> show "\<not> prefix e s \<and> \<not> suffix e s"
    by (auto simp: prefix_def suffix_def)
qed

lemma trim_space_all_visible: "list_all is_visible s \<Longrightarrow> trim_space s = s"
  by (rule trim_space_visible) (cases s; auto simp: list_all_iff)

lemma trim_space_Nil [simp]: "trim_space [] = []"
  by (rule trim_space_visible) simp

section \<open>Laws of letter case\<close>

text \<open>Byte classes as intervals of byte values, for linear arithmetic.\<close>

lemma byte_eq_val: "c = d \<longleftrightarrow> byte_val c = byte_val d"
  by simp

lemma is_digit_val [byte_class]: "is_digit c \<longleftrightarrow> 48 \<le> byte_val c \<and> byte_val c \<le> 57"
  by (simp add: is_digit_def less_eq_char_def)

lemma is_lower_val [byte_class]: "is_lower c \<longleftrightarrow> 97 \<le> byte_val c \<and> byte_val c \<le> 122"
  by (simp add: is_lower_def less_eq_char_def)

lemma is_upper_val [byte_class]: "is_upper c \<longleftrightarrow> 65 \<le> byte_val c \<and> byte_val c \<le> 90"
  by (simp add: is_upper_def less_eq_char_def)

lemma is_lower_hex_val [byte_class]:
  "is_lower_hex c \<longleftrightarrow> 48 \<le> byte_val c \<and> byte_val c \<le> 57 \<or> 97 \<le> byte_val c \<and> byte_val c \<le> 102"
  by (simp add: is_lower_hex_def is_digit_val less_eq_char_def)

lemmas [byte_class] = is_alnum_def is_ascii_def is_visible_def

lemma byte_val_ascii_lower:
  "byte_val (ascii_lower c) = (if is_upper c then byte_val c + 32 else byte_val c)"
  by (simp add: ascii_lower_def byte_class)

lemma byte_val_ascii_upper:
  "byte_val (ascii_upper c) = (if is_lower c then byte_val c - 32 else byte_val c)"
  by (auto simp: ascii_upper_def byte_class)

lemma ascii_lower_ascii: "is_ascii c \<Longrightarrow> is_ascii (ascii_lower c)"
  by (simp add: byte_class byte_val_ascii_lower)

lemma ascii_lower_idem [simp]: "ascii_lower (ascii_lower c) = ascii_lower c"
  by (subst byte_eq_val) (simp add: byte_class byte_val_ascii_lower)

lemma ascii_upper_idem [simp]: "ascii_upper (ascii_upper c) = ascii_upper c"
  by (subst byte_eq_val) (auto simp: byte_class byte_val_ascii_upper)

lemma to_lower_ascii: "list_all is_ascii s \<Longrightarrow> to_lower uc s = map ascii_lower s"
  by (simp add: to_lower_def)

lemma to_upper_ascii: "list_all is_ascii s \<Longrightarrow> to_upper uc s = map ascii_upper s"
  by (simp add: to_upper_def)

lemma to_lower_ascii_idem: "list_all is_ascii s \<Longrightarrow> to_lower uc (to_lower uc s) = to_lower uc s"
  by (simp add: to_lower_ascii list_all_iff ascii_lower_ascii)

lemma is_lower_hex_lower: "is_lower_hex c \<Longrightarrow> ascii_lower c = c \<and> is_ascii c \<and> is_visible c \<and> c \<noteq> CHR 0x0A"
  by (subst byte_eq_val) (auto simp: byte_class byte_val_ascii_lower)

lemma to_lower_hex: "list_all is_lower_hex s \<Longrightarrow> to_lower uc s = s"
  using is_lower_hex_lower by (simp add: to_lower_ascii list_all_iff map_idI)

section \<open>Laws of numbers\<close>

lemma digits_val_snoc [simp]: "digits_val (s @ [c]) = 10 * digits_val s + digit_val c"
  by (simp add: digits_val_def)

lemma digits_val_Nil [simp]: "digits_val [] = 0"
  by (simp add: digits_val_def)

lemma digit_char: "n < 10 \<Longrightarrow> is_digit (char_of (48 + n)) \<and> digit_val (char_of (48 + n)) = n"
  by (auto simp: is_digit_def digit_val_def less_eq_char_def)

lemma format_nat_digits: "list_all is_digit (format_nat n) \<and> format_nat n \<noteq> []"
proof (induction n rule: format_nat.induct)
  case (1 n)
  then show ?case
    using digit_char [of n] digit_char [of "n mod 10"]
    by (cases "n < 10") (simp_all add: format_nat.simps [of n])
qed

lemma digits_val_format [simp]: "digits_val (format_nat n) = n"
proof (induction n rule: format_nat.induct)
  case (1 n)
  show ?case
  proof (cases "n < 10")
    case True
    then show ?thesis using digit_char [of n] by (simp add: format_nat.simps [of n] digits_val_def)
  next
    case False
    then have "digits_val (format_nat n) = n div 10 * 10 + n mod 10"
      using 1 digit_char [of "n mod 10"]
      by (simp add: format_nat.simps [of n])
    then show ?thesis by simp
  qed
qed

lemma parse_uint_format: "n < 2 ^ b \<Longrightarrow> parse_uint b (format_nat n) = Some n"
  using format_nat_digits [of n] by (simp add: parse_uint_def)

lemma parse_uint_bound: "parse_uint b s = Some n \<Longrightarrow> n < 2 ^ b"
  by (auto simp: parse_uint_def split: if_splits)

lemma digit_not_sign: "is_digit c \<Longrightarrow> c \<noteq> CHR ''-'' \<and> c \<noteq> CHR ''+''"
  by (auto simp: is_digit_def less_eq_char_def)

lemma is_digit_visible: "is_digit c \<Longrightarrow> is_visible c \<and> is_ascii c"
  by (auto simp: is_digit_def less_eq_char_def is_visible_def is_ascii_def)

lemma parse_int64_digits:
  assumes "list_all is_digit s" and "s \<noteq> []"
  shows "parse_int64 s = (if digits_val s < 2 ^ 63 then Some (int (digits_val s)) else None)"
  using assms digit_not_sign
  by (cases s) (auto simp: parse_int64_def Let_def)

lemma parse_format_int64:
  assumes "min_int64 \<le> i" and "i \<le> max_int64"
  shows "parse_int64 (format_int i) = Some i"
proof (cases "i < 0")
  case True
  with assms have "int (nat (- i)) \<le> 2 ^ 63" by (simp add: min_int64_def)
  with True show ?thesis
    using format_nat_digits [of "nat (- i)"] by (simp add: format_int_def parse_int64_def)
next
  case False
  with assms have "nat i < 2 ^ 63" by (simp add: max_int64_def)
  with False show ?thesis
    using format_nat_digits [of "nat i"] by (simp add: format_int_def parse_int64_digits)
qed

lemma parse_int64_bounds: "parse_int64 s = Some i \<Longrightarrow> min_int64 \<le> i \<and> i \<le> max_int64"
  by (auto simp: parse_int64_def Let_def min_int64_def max_int64_def
      split: list.splits if_splits prod.splits)

section \<open>Laws of hexadecimal\<close>

lemma hex_digit_lower: "n < 16 \<Longrightarrow> is_lower_hex (hex_digit n)"
  by (simp add: hex_digit_def byte_class)

lemma byte_div_16 [simp]: "byte_val c div 16 < 16"
  by (simp add: less_mult_imp_div_less)

lemma hex_encode_digits: "list_all is_lower_hex (hex_encode bs)"
  by (auto simp: hex_encode_def list_all_iff hex_digit_lower)

lemma length_hex_encode [simp]: "length (hex_encode bs) = 2 * length bs"
  by (induction bs) (auto simp: hex_encode_def)

definition unhex :: "char \<Rightarrow> nat" where
  "unhex c = (if is_digit c then byte_val c - 48 else byte_val c - 87)"

lemma unhex_digit: "n < 16 \<Longrightarrow> unhex (hex_digit n) = n"
  by (simp add: unhex_def hex_digit_def byte_class)

lemma unhex_byte:
  "char_of (unhex (hex_digit (byte_val c div 16)) * 16 + unhex (hex_digit (byte_val c mod 16))) = c"
  by (simp add: unhex_digit)

lemma hex_encode_inj: "hex_encode xs = hex_encode ys \<longleftrightarrow> xs = ys"
proof (induction xs arbitrary: ys)
  case Nil
  then show ?case by (cases ys) (auto simp: hex_encode_def)
next
  case (Cons x xs)
  then show ?case
    using unhex_byte by (cases ys) (auto simp: hex_encode_def, metis)
qed

lemma equal_fold_refl: "list_all is_ascii s \<Longrightarrow> equal_fold_ascii s s"
  by (auto simp: equal_fold_ascii_def runes_ascii fold_rune_def list_all_iff is_ascii_def)

lemma to_lower_Nil [simp]: "to_lower uc [] = []"
  by (simp add: to_lower_def)

section \<open>Code points below 128\<close>

lemma mod_in_window: "m dvd c \<Longrightarrow> c \<le> b \<Longrightarrow> b < c + m \<Longrightarrow> b mod m = b - c" for b :: nat
  by (auto elim!: dvdE simp: le_iff_add)

lemma two_byte_high: "194 \<le> (b0 :: nat) \<Longrightarrow> b0 < 224 \<Longrightarrow> 128 \<le> (b0 mod 32) * 64 + x"
  using mod_in_window [of 32 192 b0] by simp

lemma cont_high:
  "160 \<le> (b :: nat) \<Longrightarrow> b \<le> 191 \<Longrightarrow> 128 \<le> b mod 64 * 64 + x" "144 \<le> (b :: nat) \<Longrightarrow> b \<le> 191 \<Longrightarrow> 128 \<le> b mod 64 * 4096 + x"
  using mod_in_window [of 64 128 b] by simp_all

lemma lead_high:
  "224 \<le> (b :: nat) \<Longrightarrow> b < 240 \<Longrightarrow> b \<noteq> 224 \<Longrightarrow> 128 \<le> b mod 16 * 4096 + x"
  "240 \<le> (b :: nat) \<Longrightarrow> b \<le> 244 \<Longrightarrow> b \<noteq> 240 \<Longrightarrow> 128 \<le> b mod 8 * 262144 + x"
  using mod_in_window [of 16 224 b] mod_in_window [of 8 240 b] by simp_all

lemma decode_rune_high: "\<not> is_ascii c \<Longrightarrow> 128 \<le> fst (decode_rune (c # cs))"
  by (auto simp: decode_rune_def Let_def is_ascii_def rune_error_def cont_lo_def cont_hi_def not_less add.assoc
      intro!: two_byte_high cont_high lead_high split: list.splits if_splits)

lemma low_runes_ascii: "list_all (\<lambda>rw. fst rw < 128) (runes s) \<Longrightarrow> list_all is_ascii s"
proof (induction s)
  case (Cons c s)
  have "is_ascii c"
  proof (rule ccontr)
    assume "\<not> is_ascii c"
    from decode_rune_high [OF this, of s] Cons.prems show False by (simp add: runes.simps [of "c # s"])
  qed
  with Cons show ?case by (simp add: runes_ascii_Cons)
qed simp

text \<open>A check of runes that only ASCII passes is a check of bytes.\<close>

lemma ascii_runes_iff:
  assumes "\<And>r. P r \<Longrightarrow> r < 128"
  shows "list_all (\<lambda>rw. P (fst rw)) (runes s) \<longleftrightarrow> list_all (\<lambda>c. P (byte_val c)) s"
proof
  assume all: "list_all (\<lambda>rw. P (fst rw)) (runes s)"
  then have "list_all (\<lambda>rw. fst rw < 128) (runes s)" by (rule list_all_mono) (use assms in auto)
  then have "list_all is_ascii s" by (rule low_runes_ascii)
  with all show "list_all (\<lambda>c. P (byte_val c)) s" by (simp add: runes_ascii list_all_iff)
next
  assume all: "list_all (\<lambda>c. P (byte_val c)) s"
  then have "list_all is_ascii s" by (rule list_all_mono) (use assms in \<open>auto simp: is_ascii_def\<close>)
  with all show "list_all (\<lambda>rw. P (fst rw)) (runes s)" by (simp add: runes_ascii list_all_iff)
qed

text \<open>Printing inverts reading of digits without a leading zero.\<close>

lemma digits_val_positive: "list_all is_digit ds \<Longrightarrow> ds \<noteq> [] \<Longrightarrow> hd ds \<noteq> CHR ''0'' \<Longrightarrow> 0 < digits_val ds"
proof (induction ds rule: rev_induct)
  case (snoc d ds)
  show ?case
  proof (cases "ds = []")
    case True
    with snoc.prems show ?thesis by (auto simp: is_digit_val digit_val_def digits_val_def byte_eq_val)
  next
    case False
    with snoc show ?thesis by simp
  qed
qed simp

lemma digit_val_char: "is_digit d \<Longrightarrow> char_of (48 + digit_val d) = d \<and> digit_val d < 10"
  by (auto simp: is_digit_val digit_val_def)

lemma format_digits_val: "list_all is_digit ds \<Longrightarrow> ds \<noteq> [] \<Longrightarrow> hd ds \<noteq> CHR ''0'' \<Longrightarrow> format_nat (digits_val ds) = ds"
proof (induction ds rule: rev_induct)
  case (snoc d ds)
  note d = digit_val_char [of d]
  show ?case
  proof (cases "ds = []")
    case True
    with snoc.prems d show ?thesis by (simp add: format_nat.simps digits_val_def)
  next
    case False
    with snoc have ih: "format_nat (digits_val ds) = ds" and pos: "0 < digits_val ds" using digits_val_positive [of ds] by simp_all
    have "(10 * digits_val ds + digit_val d) div 10 = digits_val ds" "(10 * digits_val ds + digit_val d) mod 10 = digit_val d"
      using d snoc.prems by simp_all
    with ih pos d snoc.prems show ?thesis by (simp add: format_nat.simps [of "10 * digits_val ds + digit_val d"])
  qed
qed simp

end
