(* ===== verification/Canonical_Query.thy ===== *)
theory Canonical_Query
  imports Go_Strings "HOL-Library.Product_Lexorder" "HOL-Library.Option_ord"
begin

unbundle bit_operations_syntax

text \<open>
  The canonical form of a request target (\<open>internal/irishmac/canonical.go\<close>): strict percent
  decoding, re-encoding, ordering of the query pairs, the rejection of repeated keys, the
  five-line request transcript and the normal form of message identifiers. The lemmas show that
  encoding and strict decoding are inverse, that the canonical target is a fixed point of
  canonicalisation, that it does not depend on the order of the query pairs, and that the
  adjacent comparison after sorting finds exactly the repeated decoded keys.
\<close>

section \<open>Percent encoding\<close>

definition isHexByte :: "char \<Rightarrow> bool" where
  "isHexByte b \<longleftrightarrow>
     CHR ''0'' \<le> b \<and> b \<le> CHR ''9'' \<or> CHR ''a'' \<le> b \<and> b \<le> CHR ''f'' \<or> CHR ''A'' \<le> b \<and> b \<le> CHR ''F''"

definition fromHexNibble :: "char \<Rightarrow> nat" where
  "fromHexNibble b =
     (if CHR ''0'' \<le> b \<and> b \<le> CHR ''9'' then byte_val b - byte_val CHR ''0''
      else if CHR ''a'' \<le> b \<and> b \<le> CHR ''f'' then byte_val b - byte_val CHR ''a'' + 10
      else byte_val b - byte_val CHR ''A'' + 10)"

definition fromHexPair :: "char \<Rightarrow> char \<Rightarrow> char" where
  "fromHexPair high low = char_of (push_bit 4 (fromHexNibble high) OR fromHexNibble low)"

text \<open>The loop of \<open>decodeQueryComponentStrict\<close> over the remaining bytes.\<close>

fun decode_percent :: "string \<Rightarrow> string option" where
  "decode_percent [] = Some []"
| "decode_percent (c # cs) =
     (if c \<noteq> CHR ''%'' then map_option (Cons c) (decode_percent cs)
      else case cs of
        h # l # r \<Rightarrow>
          if \<not> isHexByte h \<or> \<not> isHexByte l then None
          else map_option (Cons (fromHexPair h l)) (decode_percent r)
      | _ \<Rightarrow> None)"

definition decodeQueryComponentStrict :: "string \<Rightarrow> string option" where
  "decodeQueryComponentStrict value =
     (case decode_percent value of
        None \<Rightarrow> None
      | Some decoded \<Rightarrow> if \<not> valid_string decoded then None else Some decoded)"

text \<open>The two upper-case digits of \<open>fmt.Fprintf("%%%02X", b)\<close>.\<close>

definition upper_hex_digit :: "nat \<Rightarrow> char" where
  "upper_hex_digit n = (if n < 10 then char_of (48 + n) else char_of (55 + n))"

definition is_unreserved :: "char \<Rightarrow> bool" where
  "is_unreserved b \<longleftrightarrow>
     is_upper b \<or> is_lower b \<or> is_digit b \<or>
     b = CHR ''-'' \<or> b = CHR ''.'' \<or> b = CHR ''_'' \<or> b = CHR ''~''"

definition encode_byte :: "char \<Rightarrow> string" where
  "encode_byte b =
     (if is_unreserved b then [b]
      else [CHR ''%'', upper_hex_digit (byte_val b div 16), upper_hex_digit (byte_val b mod 16)])"

definition EncodeQueryComponent :: "string \<Rightarrow> string" where
  "EncodeQueryComponent value = concat (map encode_byte value)"

section \<open>Canonical targets\<close>

text \<open>A \<open>canonicalQueryPair\<close>: the encoded key and the encoded value, if an \<open>=\<close> was there.\<close>

type_synonym canonicalQueryPair = "string \<times> string option"

definition cmp_string :: "string \<Rightarrow> string \<Rightarrow> int" where
  "cmp_string a b = (if a < b then - 1 else if b < a then 1 else 0)"

fun compareOptionalCanonicalQueryValue :: "string option \<Rightarrow> string option \<Rightarrow> int" where
  "compareOptionalCanonicalQueryValue None None = 0"
| "compareOptionalCanonicalQueryValue None (Some _) = - 1"
| "compareOptionalCanonicalQueryValue (Some _) None = 1"
| "compareOptionalCanonicalQueryValue (Some left) (Some right) =
     (if left < right then - 1 else if right < left then 1 else 0)"

text \<open>The comparison handed to \<open>slices.SortFunc\<close>; \<open>cmp.Or\<close> is the first non-zero value.\<close>

definition comparePairs :: "canonicalQueryPair \<Rightarrow> canonicalQueryPair \<Rightarrow> int" where
  "comparePairs left right =
     (let k = cmp_string (fst left) (fst right)
      in if k \<noteq> 0 then k else compareOptionalCanonicalQueryValue (snd left) (snd right))"

text \<open>\<open>slices.SortFunc\<close> as an insertion sort driven by the comparison.\<close>

fun insert_func :: "('a \<Rightarrow> 'a \<Rightarrow> int) \<Rightarrow> 'a \<Rightarrow> 'a list \<Rightarrow> 'a list" where
  "insert_func f x [] = [x]"
| "insert_func f x (y # ys) = (if f x y \<le> 0 then x # y # ys else y # insert_func f x ys)"

definition sort_func :: "('a \<Rightarrow> 'a \<Rightarrow> int) \<Rightarrow> 'a list \<Rightarrow> 'a list" where
  "sort_func f xs = foldr (insert_func f) xs []"

definition parse_pair :: "string \<Rightarrow> canonicalQueryPair option" where
  "parse_pair rawPair =
     (case cut_at CHR ''='' rawPair of (rawKey, rawValue, hasValue) \<Rightarrow>
        case decodeQueryComponentStrict rawKey of
          None \<Rightarrow> None
        | Some key \<Rightarrow>
            if hasValue then
              (case decodeQueryComponentStrict rawValue of
                 None \<Rightarrow> None
               | Some v \<Rightarrow> Some (EncodeQueryComponent key, Some (EncodeQueryComponent v)))
            else Some (EncodeQueryComponent key, None))"

fun parse_pairs :: "string list \<Rightarrow> canonicalQueryPair list option" where
  "parse_pairs [] = Some []"
| "parse_pairs (rawPair # rest) =
     (if rawPair = [] then parse_pairs rest
      else case parse_pair rawPair of
        None \<Rightarrow> None
      | Some pair \<Rightarrow> map_option (Cons pair) (parse_pairs rest))"

definition parseCanonicalQuery :: "string \<Rightarrow> canonicalQueryPair list option" where
  "parseCanonicalQuery rawQuery = parse_pairs (split_on CHR ''&'' rawQuery)"

datatype target_error = MalformedQuery | ErrDuplicateQueryKey

fun adjacent_duplicate :: "canonicalQueryPair list \<Rightarrow> bool" where
  "adjacent_duplicate (p # q # rest) = (fst q = fst p \<or> adjacent_duplicate (q # rest))"
| "adjacent_duplicate _ = False"

fun render_pair :: "canonicalQueryPair \<Rightarrow> string" where
  "render_pair (key, None) = key"
| "render_pair (key, Some v) = key @ CHR ''='' # v"

definition canonicalTarget :: "string \<Rightarrow> bool \<Rightarrow> (target_error, string) result" where
  "canonicalTarget target rejectDuplicateKeys =
     (case cut_at CHR ''?'' target of (path, rawQuery, hasQuery) \<Rightarrow>
        if \<not> hasQuery \<or> rawQuery = [] then Inr path
        else case parseCanonicalQuery rawQuery of
          None \<Rightarrow> Inl MalformedQuery
        | Some pairs \<Rightarrow>
            if pairs = [] then Inr path
            else let sorted_pairs = sort_func comparePairs pairs in
              if rejectDuplicateKeys \<and> adjacent_duplicate sorted_pairs then Inl ErrDuplicateQueryKey
              else Inr (path @ CHR ''?'' # join ''&'' (map render_pair sorted_pairs)))"

definition CanonicalTarget :: "string \<Rightarrow> (target_error, string) result" where
  "CanonicalTarget target = canonicalTarget target False"

definition CanonicalRequestTarget :: "string \<Rightarrow> (target_error, string) result" where
  "CanonicalRequestTarget target = canonicalTarget target True"

definition CanonicalRequest :: "ucase \<Rightarrow> string \<Rightarrow> string \<Rightarrow> string \<Rightarrow> string \<Rightarrow> string \<Rightarrow> string" where
  "CanonicalRequest uc method target timestamp nonce bodySHA256 =
     join [CHR 0x0A] [to_upper uc method, target, timestamp, nonce, bodySHA256]"

section \<open>Message identifiers\<close>

definition MaxMessageIDBytes :: nat where
  "MaxMessageIDBytes = 256"

definition validMessageIDByte :: "char \<Rightarrow> bool" where
  "validMessageIDByte c \<longleftrightarrow>
     is_lower c \<or> is_upper c \<or> is_digit c \<or> c \<in> set ''-_.:/''"

text \<open>The pair \<open>(messageID, ok)\<close> of the source.\<close>

definition NormalizeMessageID :: "string \<Rightarrow> string \<times> bool" where
  "NormalizeMessageID raw =
     (let messageID = trim_space raw in
      if messageID = [] then ([], True)
      else if MaxMessageIDBytes < length messageID then ([], False)
      else if \<not> list_all validMessageIDByte messageID then ([], False)
      else (messageID, True))"

section \<open>Encoding and strict decoding are inverse\<close>

lemma push_bit_or_nibble: "r < 16 \<Longrightarrow> push_bit 4 q OR r = 16 * q + (r :: nat)"
proof -
  assume "r < 16"
  then have r: "take_bit 4 r = r" by (simp add: take_bit_nat_eq_self)
  have "push_bit 4 q AND take_bit 4 r = 0"
    by (auto simp: bit_eq_iff bit_simps)
  then show ?thesis
    using disjunctive_add_eq_or [of "push_bit 4 q" r] by (simp add: r push_bit_eq_mult)
qed

lemma upper_hex_digit_props:
  assumes "n < 16"
  shows "isHexByte (upper_hex_digit n)" and "fromHexNibble (upper_hex_digit n) = n"
  using assms
  by (auto simp: isHexByte_def fromHexNibble_def upper_hex_digit_def less_eq_char_def)

lemma fromHexPair_encode:
  "fromHexPair (upper_hex_digit (byte_val b div 16)) (upper_hex_digit (byte_val b mod 16)) = b"
  by (simp add: fromHexPair_def upper_hex_digit_props push_bit_or_nibble)

lemma is_unreserved_val:
  "is_unreserved b \<longleftrightarrow> is_alnum b \<or> byte_val b \<in> {45, 46, 95, 126}"
  by (auto simp: is_unreserved_def byte_class less_eq_char_def)

lemma decode_encode_byte: "decode_percent (encode_byte b @ s) = map_option (Cons b) (decode_percent s)"
  by (auto simp: encode_byte_def upper_hex_digit_props fromHexPair_encode is_unreserved_def is_upper_def is_lower_def is_digit_def less_eq_char_def)

lemma decode_encode_append:
  "decode_percent (EncodeQueryComponent v @ s) = map_option (append v) (decode_percent s)"
  by (induction v)
    (auto simp: EncodeQueryComponent_def decode_encode_byte option.map_comp o_def option.map_ident)

lemma decode_percent_encode: "decode_percent (EncodeQueryComponent v) = Some v"
  using decode_encode_append [of v "[]"] by simp

lemma decode_strict_encode:
  "valid_string v \<Longrightarrow> decodeQueryComponentStrict (EncodeQueryComponent v) = Some v"
  by (simp add: decodeQueryComponentStrict_def decode_percent_encode)

lemma EncodeQueryComponent_inj: "EncodeQueryComponent v = EncodeQueryComponent w \<longleftrightarrow> v = w"
  using decode_percent_encode by (metis option.inject)

lemma EncodeQueryComponent_Nil [simp]: "EncodeQueryComponent v = [] \<longleftrightarrow> v = []"
  by (cases v) (auto simp: EncodeQueryComponent_def encode_byte_def)

lemma upper_hex_digit_unreserved: "n < 16 \<Longrightarrow> is_unreserved (upper_hex_digit n)"
  by (auto simp: is_unreserved_val upper_hex_digit_def byte_class)

lemma encode_byte_chars:
  "c \<in> set (encode_byte b) \<Longrightarrow> is_unreserved c \<or> c = CHR ''%''"
  using upper_hex_digit_unreserved [of "byte_val b div 16"] upper_hex_digit_unreserved [of "byte_val b mod 16"]
  by (auto simp: encode_byte_def split: if_splits)

lemma EncodeQueryComponent_chars:
  "c \<in> set (EncodeQueryComponent v) \<Longrightarrow> is_unreserved c \<or> c = CHR ''%''"
  by (auto simp: EncodeQueryComponent_def dest: encode_byte_chars)

lemma EncodeQueryComponent_separators:
  "CHR ''='' \<notin> set (EncodeQueryComponent v)" "CHR ''&'' \<notin> set (EncodeQueryComponent v)"
  "CHR ''?'' \<notin> set (EncodeQueryComponent v)" "CHR 0x0A \<notin> set (EncodeQueryComponent v)"
  by (auto dest!: EncodeQueryComponent_chars simp: is_unreserved_val byte_class)

lemma decode_strict_valid: "decodeQueryComponentStrict s = Some v \<Longrightarrow> valid_string v"
  by (auto simp: decodeQueryComponentStrict_def split: option.splits if_splits)

lemma decode_percent_nonempty: "decode_percent s = Some [] \<Longrightarrow> s = []"
  by (cases s) (auto split: list.splits if_splits)

lemma decode_strict_nonempty: "decodeQueryComponentStrict s = Some [] \<Longrightarrow> s = []"
  by (auto simp: decodeQueryComponentStrict_def split: option.splits if_splits
      dest: decode_percent_nonempty)

section \<open>Pairs in canonical form\<close>

definition canonical_pair :: "canonicalQueryPair \<Rightarrow> bool" where
  "canonical_pair p \<longleftrightarrow>
     (\<exists>k. valid_string k \<and> fst p = EncodeQueryComponent k) \<and>
     (case snd p of
        None \<Rightarrow> fst p \<noteq> []
      | Some w \<Rightarrow> \<exists>v. valid_string v \<and> w = EncodeQueryComponent v)"

lemma parse_pair_canonical:
  assumes "parse_pair r = Some p" and "r \<noteq> []"
  shows "canonical_pair p"
proof (cases rule: cut_cases [of "CHR ''=''" r])
  case 1
  with assms show ?thesis
    by (auto simp: parse_pair_def canonical_pair_def
        split: option.splits dest: decode_strict_valid decode_strict_nonempty)
next
  case (2 a b)
  with assms show ?thesis
    by (auto simp: parse_pair_def canonical_pair_def split: option.splits dest: decode_strict_valid)
qed

lemma parse_render_pair:
  assumes "canonical_pair p"
  shows "parse_pair (render_pair p) = Some p"
  using assms
  by (cases p rule: render_pair.cases)
    (auto simp: canonical_pair_def parse_pair_def go_simps EncodeQueryComponent_separators
      decode_strict_encode)

lemma render_pair_chars:
  assumes "canonical_pair p"
  shows "render_pair p \<noteq> []" and "CHR ''&'' \<notin> set (render_pair p)" and "CHR 0x0A \<notin> set (render_pair p)"
  using assms
  by (cases p rule: render_pair.cases;
      auto simp: canonical_pair_def EncodeQueryComponent_separators)+

text \<open>Parsing the pieces succeeds exactly when every non-empty piece parses, in order.\<close>

lemma parse_pairs_eq:
  "parse_pairs rs =
     (if \<forall>r \<in> set rs. r \<noteq> [] \<longrightarrow> parse_pair r \<noteq> None
      then Some (map (the \<circ> parse_pair) (filter (\<lambda>r. r \<noteq> []) rs)) else None)"
  by (induction rs) (auto split: option.splits)

lemma parse_pairs_canonical:
  "parse_pairs rs = Some ps \<Longrightarrow> p \<in> set ps \<Longrightarrow> canonical_pair p"
  by (fastforce simp: parse_pairs_eq split: if_splits intro: parse_pair_canonical)

lemma parse_render_pairs:
  assumes "\<And>p. p \<in> set ps \<Longrightarrow> canonical_pair p"
  shows "parse_pairs (map render_pair ps) = Some ps"
  using assms by (induction ps) (auto simp: render_pair_chars parse_render_pair)

lemma parse_rendered_query:
  assumes "\<And>p. p \<in> set ps \<Longrightarrow> canonical_pair p" and "ps \<noteq> []"
  shows "parseCanonicalQuery (join ''&'' (map render_pair ps)) = Some ps"
proof -
  have "split_on CHR ''&'' (join ''&'' (map render_pair ps)) = map render_pair ps"
    using assms by (intro split_join) (auto simp: render_pair_chars)
  then show ?thesis using assms parse_render_pairs [of ps] by (simp add: parseCanonicalQuery_def)
qed

section \<open>Ordering of the pairs\<close>

lemma comparePairs_le: "comparePairs x y \<le> 0 \<longleftrightarrow> x \<le> y"
  by (cases x; cases y; cases "snd x"; cases "snd y")
    (auto simp: comparePairs_def cmp_string_def Let_def less_eq_prod_def less_prod_def)

lemma insert_func_insort: "insert_func comparePairs x ys = insort x ys"
  by (induction ys) (auto simp: comparePairs_le)

lemma sort_func_sort: "sort_func comparePairs xs = sort xs"
  unfolding sort_func_def by (induction xs) (auto simp: insert_func_insort)

lemma sort_mset_cong: "mset xs = mset ys \<Longrightarrow> sort xs = sort (ys :: 'a :: linorder list)"
  by (metis sorted_list_of_multiset_mset)

lemma sorted_map_fst: "sorted ps \<Longrightarrow> sorted (map fst (ps :: canonicalQueryPair list))"
  by (induction ps) (auto simp: less_eq_prod_def)

lemma adjacent_duplicate_nth:
  "adjacent_duplicate ps \<longleftrightarrow> (\<exists>i. Suc i < length ps \<and> fst (ps ! Suc i) = fst (ps ! i))"
proof (induction ps rule: adjacent_duplicate.induct)
  case (1 p q rest)
  have split: "(\<exists>i. P i) \<longleftrightarrow> P 0 \<or> (\<exists>i. P (Suc i))" for P
    by (metis nat.exhaust)
  show ?case
    by (subst split) (simp add: 1)
qed auto

lemma adjacent_duplicate_sort:
  "adjacent_duplicate (sort ps) \<longleftrightarrow> \<not> distinct (map fst (ps :: canonicalQueryPair list))"
proof -
  have "distinct (map fst (sort ps)) \<longleftrightarrow> \<not> adjacent_duplicate (sort ps)"
    using sorted_adjacent_distinct [OF sorted_map_fst [OF sorted_sort], of ps]
    by (auto simp: adjacent_duplicate_nth simp del: distinct_map)
  moreover have "mset (map fst (sort ps)) = mset (map fst ps)" by simp
  ultimately show ?thesis by (metis mset_eq_imp_distinct_iff)
qed

section \<open>Properties of canonical targets\<close>

text \<open>The check for an empty raw query is subsumed by the check for an empty list of pairs.\<close>

lemma canonicalTarget_query:
  assumes "CHR ''?'' \<notin> set path"
  shows "canonicalTarget (path @ CHR ''?'' # q) dup =
    (case parseCanonicalQuery q of
       None \<Rightarrow> Inl MalformedQuery
     | Some ps \<Rightarrow>
         if ps = [] then Inr path
         else if dup \<and> \<not> distinct (map fst ps) then Inl ErrDuplicateQueryKey
         else Inr (path @ CHR ''?'' # join ''&'' (map render_pair (sort ps))))"
  using assms
  by (cases "q = []")
    (auto simp: canonicalTarget_def cut_yes sort_func_sort adjacent_duplicate_sort Let_def
      parseCanonicalQuery_def split: option.splits)

lemma canonicalTarget_path: "CHR ''?'' \<notin> set t \<Longrightarrow> canonicalTarget t dup = Inr t"
  by (simp add: canonicalTarget_def cut_no)

lemma sort_eq_Nil [simp]: "sort xs = [] \<longleftrightarrow> xs = []"
  by (metis set_empty set_sort)

lemma canonicalTarget_fixed:
  assumes "canonicalTarget t dup = Inr c"
  shows "canonicalTarget c dup = Inr c"
proof (cases rule: cut_cases [of "CHR ''?''" t])
  case 1
  with assms show ?thesis by (simp add: canonicalTarget_path)
next
  case (2 path q)
  from assms 2 consider ps where "parseCanonicalQuery q = Some ps" "ps \<noteq> []" "dup \<longrightarrow> distinct (map fst ps)"
      "c = path @ CHR ''?'' # join ''&'' (map render_pair (sort ps))"
    | "c = path"
    by (auto simp: canonicalTarget_query split: option.splits if_splits)
  then show ?thesis
  proof cases
    case 1
    then have "parseCanonicalQuery (join ''&'' (map render_pair (sort ps))) = Some (sort ps)"
      by (intro parse_rendered_query) (auto simp: parseCanonicalQuery_def dest: parse_pairs_canonical)
    moreover have "distinct (map fst (sort ps)) \<longleftrightarrow> distinct (map fst ps)"
      by (rule mset_eq_imp_distinct_iff) simp
    ultimately show ?thesis
      using 1 2 by (auto simp: canonicalTarget_query sorted_sort_id simp del: distinct_map)
  next
    assume "c = path"
    with 2 show ?thesis by (simp add: canonicalTarget_path)
  qed
qed

text \<open>The decoded keys of a raw query, in order of occurrence, if they all decode.\<close>

definition decoded_keys :: "string \<Rightarrow> string list option" where
  "decoded_keys q =
     those (map (\<lambda>r. decodeQueryComponentStrict (fst (cut_at CHR ''='' r)))
       (filter (\<lambda>r. r \<noteq> []) (split_on CHR ''&'' q)))"

lemma parse_pair_key:
  assumes "parse_pair r = Some p"
  shows "\<exists>k. decodeQueryComponentStrict (fst (cut_at CHR ''='' r)) = Some k \<and> fst p = EncodeQueryComponent k"
  using assms by (auto simp: parse_pair_def split: prod.splits option.splits if_splits)

lemma parse_pairs_keys:
  assumes "parse_pairs rs = Some ps"
  shows "\<exists>ks. those (map (\<lambda>r. decodeQueryComponentStrict (fst (cut_at CHR ''='' r))) (filter (\<lambda>r. r \<noteq> []) rs)) = Some ks
    \<and> map fst ps = map EncodeQueryComponent ks"
  using assms
proof (induction rs arbitrary: ps)
  case (Cons r rs)
  show ?case
  proof (cases "r = []")
    case False
    with Cons.prems obtain p ps' where p: "parse_pair r = Some p" "parse_pairs rs = Some ps'" "ps = p # ps'"
      by (auto split: option.splits)
    from Cons.IH [OF p(2)] parse_pair_key [OF p(1)] False p(3) show ?thesis by auto
  qed (use Cons in simp)
qed simp

lemma distinct_encoded: "distinct (map EncodeQueryComponent ks) \<longleftrightarrow> distinct ks"
  by (simp add: distinct_map inj_on_def EncodeQueryComponent_inj)

lemma NormalizeMessageID_accepts:
  "NormalizeMessageID raw = (m, True) \<longleftrightarrow>
     m = trim_space raw \<and> length m \<le> MaxMessageIDBytes \<and> list_all validMessageIDByte m"
  by (auto simp: NormalizeMessageID_def Let_def)

lemma validMessageIDByte_visible: "validMessageIDByte c \<Longrightarrow> is_visible c \<and> c \<noteq> CHR 0x0A"
  by (auto simp: validMessageIDByte_def byte_class less_eq_char_def)

lemma NormalizeMessageID_fixed:
  assumes "NormalizeMessageID raw = (m, True)"
  shows "NormalizeMessageID m = (m, True)"
  using assms by (auto simp: NormalizeMessageID_accepts)

section \<open>Claims\<close>


text \<open>C11: A canonical target is a fixed point: canonicalising the target the SDK put on the wire
  gives the same target again, for the signing and for the verifying variant, so signer and
  verifier sign the same line even when one of them starts from the canonical form.\<close>

theorem canonical_target_idempotent:
  assumes "canonicalTarget t dup = Inr c"
  shows "canonicalTarget c dup = Inr c"
  using assms by (rule canonicalTarget_fixed)

theorem canonical_target_idempotent_witness:
  "canonicalTarget ''/a?b=%7e&a=1'' True = Inr ''/a?a=1&b=~'' \<and>
   canonicalTarget ''/a?a=1&b=~'' True = Inr ''/a?a=1&b=~''"
proof -
  have h: "canonicalTarget ''/a?b=%7e&a=1'' True = Inr ''/a?a=1&b=~''"
    by (simp add: canonicalTarget_def parseCanonicalQuery_def parse_pair_def
        decodeQueryComponentStrict_def isHexByte_def fromHexPair_def fromHexNibble_def
        EncodeQueryComponent_def encode_byte_def is_unreserved_def is_lower_def is_upper_def is_digit_def sort_func_def comparePairs_def
        cmp_string_def valid_string_ascii is_ascii_def less_eq_char_def less_char_def char_of_nat_eq push_bit_or_nibble Let_def)
  show ?thesis using h canonical_target_idempotent [OF h] by simp
qed

text \<open>C12: The canonical target does not depend on the order in which the query pairs are written:
  two targets with the same path whose raw pairs are permutations of each other have the same
  canonical form or fail with the same error.\<close>

theorem canonical_target_order_independent:
  assumes "mset xs = mset ys" and "CHR ''?'' \<notin> set path"
    and "\<And>x. x \<in> set xs \<Longrightarrow> CHR ''&'' \<notin> set x"
  shows "canonicalTarget (path @ CHR ''?'' # join ''&'' xs) dup =
    canonicalTarget (path @ CHR ''?'' # join ''&'' ys) dup"
proof (cases "xs = []")
  case True
  with assms(1) show ?thesis by simp
next
  case False
  let ?ps = "\<lambda>zs. map (the \<circ> parse_pair) (filter (\<lambda>r. r \<noteq> []) zs)"
  have same: "set xs = set ys" and "ys \<noteq> []"
    using assms(1) False by (auto dest: mset_eq_setD)
  have "split_on CHR ''&'' (join ''&'' xs) = xs"
    using False assms(3) by (rule split_join)
  moreover have "split_on CHR ''&'' (join ''&'' ys) = ys"
    using \<open>ys \<noteq> []\<close> assms(3) [unfolded same] by (rule split_join)
  ultimately have parse: "parseCanonicalQuery (join ''&'' xs) = parse_pairs xs" "parseCanonicalQuery (join ''&'' ys) = parse_pairs ys"
    by (simp_all add: parseCanonicalQuery_def)
  have ms: "mset (?ps xs) = mset (?ps ys)"
    unfolding mset_map mset_filter assms(1) ..
  then have "sort (?ps xs) = sort (?ps ys)" by (rule sort_mset_cong)
  moreover have "distinct (map fst (?ps xs)) \<longleftrightarrow> distinct (map fst (?ps ys))"
    by (rule mset_eq_imp_distinct_iff) (simp only: mset_map [of fst] ms)
  moreover have "?ps xs = [] \<longleftrightarrow> ?ps ys = []"
    using arg_cong [OF ms, of size] by (simp only: size_mset length_0_conv flip: length_0_conv)
  ultimately show ?thesis
    using assms(2) same by (auto simp: canonicalTarget_query parse parse_pairs_eq simp del: distinct_map)
qed

theorem canonical_target_order_independent_witness:
  "canonicalTarget (''/p'' @ CHR ''?'' # join ''&'' [''b=2'', ''a=1'', ''b'']) False =
   canonicalTarget (''/p'' @ CHR ''?'' # join ''&'' [''a=1'', ''b'', ''b=2'']) False"
  by (rule canonical_target_order_independent) auto

text \<open>C13: \<open>CanonicalRequestTarget\<close> refuses a target exactly when a decoded query key occurs twice,
  and otherwise agrees with \<open>CanonicalTarget\<close>: comparing adjacent encoded keys after sorting
  decides the repetition of decoded keys, as the comment in the source argues.\<close>

theorem duplicate_query_key_exact:
  assumes "CanonicalTarget (path @ CHR ''?'' # q) = Inr c" and "CHR ''?'' \<notin> set path"
  shows "\<exists>keys. decoded_keys q = Some keys \<and>
    CanonicalRequestTarget (path @ CHR ''?'' # q) =
      (if distinct keys then Inr c else Inl ErrDuplicateQueryKey)"
proof -
  from assms obtain ps where ps: "parse_pairs (split_on CHR ''&'' q) = Some ps"
    by (auto simp: CanonicalTarget_def canonicalTarget_query parseCanonicalQuery_def split: option.splits)
  from parse_pairs_keys [OF ps] obtain ks
    where ks: "decoded_keys q = Some ks" "map fst ps = map EncodeQueryComponent ks"
    by (auto simp: decoded_keys_def)
  then have "distinct (map fst ps) \<longleftrightarrow> distinct ks" by (simp add: distinct_encoded)
  with assms ps ks show ?thesis
    by (auto simp: CanonicalTarget_def CanonicalRequestTarget_def canonicalTarget_query
        parseCanonicalQuery_def simp del: distinct_map split: option.splits if_splits)
qed

theorem duplicate_query_key_exact_witness:
  "\<exists>keys. decoded_keys ''a=1&%61=2'' = Some keys \<and>
    CanonicalRequestTarget (''/p'' @ CHR ''?'' # ''a=1&%61=2'') =
      (if distinct keys then Inr ''/p?a=1&a=2'' else Inl ErrDuplicateQueryKey)"
  by (rule duplicate_query_key_exact)
    (simp_all add: CanonicalTarget_def canonicalTarget_def parseCanonicalQuery_def parse_pair_def
        decodeQueryComponentStrict_def isHexByte_def fromHexPair_def fromHexNibble_def
        EncodeQueryComponent_def encode_byte_def is_unreserved_def is_lower_def is_upper_def is_digit_def sort_func_def comparePairs_def
        cmp_string_def valid_string_ascii is_ascii_def less_eq_char_def less_char_def char_of_nat_eq push_bit_or_nibble Let_def)

text \<open>\<open>NormalizeMessageID\<close> accepts exactly the values whose trimmed form has at most 256 bytes,
  all of them letters, digits or one of the five listed marks; what it returns then is that trimmed
  form and is accepted unchanged, so header and body identifiers normalise to the same value.\<close>

theorem normalize_message_id_exact:
  "NormalizeMessageID raw =
     (if length (trim_space raw) \<le> 256 \<and> list_all validMessageIDByte (trim_space raw)
      then (trim_space raw, True) else ([], False)) \<and>
   NormalizeMessageID (fst (NormalizeMessageID raw)) = (fst (NormalizeMessageID raw), True)"
  by (auto simp: NormalizeMessageID_def MaxMessageIDBytes_def Let_def)

end
