(* ===== verification/Webhook_Message.thy ===== *)
theory Webhook_Message
  imports Canonical_Query
begin

text \<open>
  Webhook payloads and messages (\<open>webhook/types.go\<close>, \<open>thread.go\<close>, \<open>context.go\<close>,
  \<open>context_fields.go\<close> and the decoding half of \<open>webhook/handler_validation.go\<close>). The JSON
  decoder is an argument: it maps a body to the decoded struct or to an error. The lemmas show
  what every message that leaves the decoder satisfies, that normalisation is idempotent, and
  which bodies are refused with which error.
\<close>

section \<open>Data\<close>

record WebhookMention =
  wm_UserID :: string
  wm_Nickname :: string
  wm_At :: "int list"
  wm_Len :: int

record WebhookRequest =
  wr_Route :: string
  wr_MessageID :: string
  wr_SourceLogID :: int
  wr_SourceCreatedAtMS :: int
  wr_RawSourceLogID :: "int option"
  wr_SourceGenerationID :: "int option"
  wr_SourceAccountID :: string
  wr_Text :: string
  wr_Room :: string
  wr_Sender :: string
  wr_UserID :: string
  wr_ChatLogID :: string
  wr_RoomType :: string
  wr_RoomLinkID :: string
  wr_ThreadID :: string
  wr_ThreadScope :: "int option"
  wr_Type :: string
  wr_IsMine :: "bool option"
  wr_Origin :: string
  wr_Attachment :: string
  wr_Mentions :: "WebhookMention list"
  wr_EventPayload :: bytes

record MessageJSON =
  mj_UserID :: string
  mj_Type :: string
  mj_Route :: string
  mj_MessageID :: string
  mj_ChatLogID :: string
  mj_RoomType :: string
  mj_RoomLinkID :: string
  mj_SourceLogID :: "int option"
  mj_SourceCreatedAtMS :: int
  mj_RawSourceLogID :: "int option"
  mj_SourceGenerationID :: "int option"
  mj_SourceAccountID :: string
  mj_ThreadID :: "string option"
  mj_ThreadScope :: "int option"
  mj_IsMine :: "bool option"
  mj_Origin :: string
  mj_Attachment :: string
  mj_Mentions :: "WebhookMention list"
  mj_EventPayload :: bytes

record Message =
  m_Msg :: string
  m_Room :: string
  m_Sender :: "string option"
  m_JSON :: "MessageJSON option"

definition maxEventPayloadBytes :: nat where
  "maxEventPayloadBytes = 262144"

section \<open>Normalisation\<close>

fun normalize_mention :: "WebhookMention \<Rightarrow> WebhookMention" where
  "normalize_mention m = m\<lparr>wm_UserID := trim_space (wm_UserID m), wm_Nickname := trim_space (wm_Nickname m)\<rparr>"

definition cloneWebhookMentions :: "WebhookMention list \<Rightarrow> WebhookMention list" where
  "cloneWebhookMentions mentions = map normalize_mention mentions"

definition empty_request :: WebhookRequest where
  "empty_request =
     \<lparr>wr_Route = [], wr_MessageID = [], wr_SourceLogID = 0, wr_SourceCreatedAtMS = 0,
      wr_RawSourceLogID = None, wr_SourceGenerationID = None, wr_SourceAccountID = [], wr_Text = [],
      wr_Room = [], wr_Sender = [], wr_UserID = [], wr_ChatLogID = [], wr_RoomType = [],
      wr_RoomLinkID = [], wr_ThreadID = [], wr_ThreadScope = None, wr_Type = [], wr_IsMine = None,
      wr_Origin = [], wr_Attachment = [], wr_Mentions = [], wr_EventPayload = []\<rparr>"

fun normalizeWebhookRequest :: "WebhookRequest option \<Rightarrow> WebhookRequest" where
  "normalizeWebhookRequest None = empty_request"
| "normalizeWebhookRequest (Some req) = req\<lparr>
     wr_Route := trim_space (wr_Route req),
     wr_MessageID := trim_space (wr_MessageID req),
     wr_SourceAccountID := trim_space (wr_SourceAccountID req),
     wr_Sender := trim_space (wr_Sender req),
     wr_ChatLogID := trim_space (wr_ChatLogID req),
     wr_RoomType := trim_space (wr_RoomType req),
     wr_RoomLinkID := trim_space (wr_RoomLinkID req),
     wr_ThreadID := trim_space (wr_ThreadID req),
     wr_Type := trim_space (wr_Type req),
     wr_Origin := trim_space (wr_Origin req),
     wr_Mentions := cloneWebhookMentions (wr_Mentions req)\<rparr>"

fun resolveThreadID :: "WebhookRequest option \<Rightarrow> string" where
  "resolveThreadID None = []"
| "resolveThreadID (Some req) = trim_space (wr_ThreadID req)"

section \<open>Validation\<close>

definition validRequiredMax :: "string \<Rightarrow> nat \<Rightarrow> bool" where
  "validRequiredMax v limit \<longleftrightarrow> \<not> rune_count v > limit \<and> trim_space v \<noteq> []"

definition validOptionalMax :: "string \<Rightarrow> nat \<Rightarrow> bool" where
  "validOptionalMax v limit \<longleftrightarrow> rune_count v \<le> limit"

definition validOptionalMessageID :: "string \<Rightarrow> bool" where
  "validOptionalMessageID v \<longleftrightarrow> snd (NormalizeMessageID v)"

definition validWebhookText :: "WebhookRequest \<Rightarrow> bool" where
  "validWebhookText req \<longleftrightarrow>
     (if 16000 < rune_count (wr_Text req) then False
      else if trim_space (wr_Text req) \<noteq> [] then True
      else trim_space (wr_Type req) \<noteq> [])"

definition validWebhookMentions :: "WebhookMention list \<Rightarrow> bool" where
  "validWebhookMentions mentions \<longleftrightarrow> list_all (\<lambda>m. trim_space (wm_UserID m) \<noteq> []) mentions"

definition validWebhookRequest :: "WebhookRequest \<Rightarrow> bool" where
  "validWebhookRequest req \<longleftrightarrow>
     validWebhookText req \<and>
     validRequiredMax (wr_Room req) 256 \<and>
     validRequiredMax (wr_UserID req) 256 \<and>
     validOptionalMax (wr_Sender req) 256 \<and>
     validOptionalMax (wr_Route req) 256 \<and>
     validOptionalMessageID (wr_MessageID req) \<and>
     validOptionalMax (wr_SourceAccountID req) 256 \<and>
     validOptionalMax (wr_ChatLogID req) 256 \<and>
     validOptionalMax (wr_RoomType req) 256 \<and>
     validOptionalMax (wr_RoomLinkID req) 256 \<and>
     validOptionalMax (wr_ThreadID req) 256 \<and>
     validOptionalMax (wr_Type req) 256 \<and>
     validOptionalMax (wr_Origin req) 64 \<and>
     (wr_Attachment req = [] \<or> rune_count (wr_Attachment req) \<le> 65536) \<and>
     length (wr_EventPayload req) \<le> maxEventPayloadBytes \<and>
     validWebhookMentions (wr_Mentions req)"

section \<open>Decoding\<close>

text \<open>
  Errors of \<open>parseWebhookRequest\<close>: the decoder's, and \<open>errInvalidWebhookRequest\<close> plain or with
  the \<open>messageId\<close> suffix.
\<close>

datatype parse_error = DecodeFailed | InvalidWebhookRequest | InvalidMessageId

type_synonym json_decoder = "bytes \<Rightarrow> WebhookRequest option"

definition decodeWebhookRequest :: "json_decoder \<Rightarrow> bytes \<Rightarrow> (parse_error, WebhookRequest) result" where
  "decodeWebhookRequest unmarshal body =
     (case unmarshal body of None \<Rightarrow> Inl DecodeFailed | Some req \<Rightarrow> Inr req)"

definition parseWebhookRequest :: "json_decoder \<Rightarrow> bytes \<Rightarrow> (parse_error, WebhookRequest) result" where
  "parseWebhookRequest unmarshal body =
     and_then (decodeWebhookRequest unmarshal body) (\<lambda>req.
       if \<not> validWebhookRequest req then Inl InvalidWebhookRequest
       else case NormalizeMessageID (wr_MessageID req) of (messageID, valid) \<Rightarrow>
         if \<not> valid \<or> messageID = [] then Inl InvalidMessageId
         else Inr (req\<lparr>wr_MessageID := messageID\<rparr>))"

definition buildMessageJSON :: "WebhookRequest \<Rightarrow> MessageJSON" where
  "buildMessageJSON req =
     \<lparr>mj_UserID = wr_UserID req, mj_Type = wr_Type req, mj_Route = wr_Route req,
      mj_MessageID = wr_MessageID req, mj_ChatLogID = wr_ChatLogID req, mj_RoomType = wr_RoomType req,
      mj_RoomLinkID = wr_RoomLinkID req,
      mj_SourceLogID = (if wr_SourceLogID req \<noteq> 0 then Some (wr_SourceLogID req) else None),
      mj_SourceCreatedAtMS = wr_SourceCreatedAtMS req, mj_RawSourceLogID = wr_RawSourceLogID req,
      mj_SourceGenerationID = wr_SourceGenerationID req, mj_SourceAccountID = wr_SourceAccountID req,
      mj_ThreadID = (let threadID = resolveThreadID (Some req) in if threadID \<noteq> [] then Some threadID else None),
      mj_ThreadScope = wr_ThreadScope req, mj_IsMine = wr_IsMine req, mj_Origin = wr_Origin req,
      mj_Attachment = wr_Attachment req, mj_Mentions = wr_Mentions req,
      mj_EventPayload = wr_EventPayload req\<rparr>"

definition buildMessage :: "WebhookRequest option \<Rightarrow> Message" where
  "buildMessage req =
     (let trimmed = normalizeWebhookRequest req in
      \<lparr>m_Msg = wr_Text trimmed, m_Room = wr_Room trimmed,
       m_Sender = (if wr_Sender trimmed \<noteq> [] then Some (wr_Sender trimmed) else None),
       m_JSON = Some (buildMessageJSON trimmed)\<rparr>)"

definition DecodeMessage :: "json_decoder \<Rightarrow> bytes \<Rightarrow> (parse_error, Message) result" where
  "DecodeMessage unmarshal body =
     and_then (parseWebhookRequest unmarshal body) (\<lambda>req. Inr (buildMessage (Some req)))"

section \<open>Message contexts\<close>

record MessageContext =
  mc_route :: string
  mc_roomID :: string
  mc_messageType :: string
  mc_eventPayload :: bytes
  mc_eventType :: string
  mc_eventKind :: string
  mc_eventStatus :: string
  mc_eventSchemaVersion :: int
  mc_hasEventSchemaVersion :: bool

text \<open>The decoded event header: type, kind, status and the optional schema version.\<close>

type_synonym event_decoder = "bytes \<Rightarrow> (string \<times> string \<times> string \<times> int option) option"

definition semanticEventHeader :: "event_decoder \<Rightarrow> bytes \<Rightarrow> string \<times> string \<times> string \<times> int \<times> bool" where
  "semanticEventHeader unmarshal payload =
     (let raw = trim_space payload in
      if raw = [] then ([], [], [], 0, False)
      else case unmarshal raw of
        None \<Rightarrow> ([], [], [], 0, False)
      | Some (ty, kind, status, None) \<Rightarrow> (trim_space ty, trim_space kind, trim_space status, 0, False)
      | Some (ty, kind, status, Some v) \<Rightarrow> (trim_space ty, trim_space kind, trim_space status, v, True))"

definition empty_context :: MessageContext where
  "empty_context =
     \<lparr>mc_route = [], mc_roomID = [], mc_messageType = [], mc_eventPayload = [], mc_eventType = [],
      mc_eventKind = [], mc_eventStatus = [], mc_eventSchemaVersion = 0, mc_hasEventSchemaVersion = False\<rparr>"

definition NewMessageContext :: "event_decoder \<Rightarrow> Message option \<Rightarrow> MessageContext" where
  "NewMessageContext unmarshal message =
     (case message of
        None \<Rightarrow> empty_context
      | Some m \<Rightarrow>
          let base = empty_context\<lparr>mc_roomID := trim_space (m_Room m)\<rparr> in
          case m_JSON m of
            None \<Rightarrow> base
          | Some j \<Rightarrow>
              (case semanticEventHeader unmarshal (mj_EventPayload j) of (ty, kind, status, v, has) \<Rightarrow>
                 base\<lparr>mc_route := trim_space (mj_Route j), mc_messageType := trim_space (mj_Type j),
                   mc_eventPayload := mj_EventPayload j, mc_eventType := ty, mc_eventKind := kind,
                   mc_eventStatus := status, mc_eventSchemaVersion := v, mc_hasEventSchemaVersion := has\<rparr>))"

definition EventType :: "MessageContext \<Rightarrow> string" where
  "EventType c = (if mc_eventType c \<noteq> [] then mc_eventType c else mc_messageType c)"

definition EventSchemaVersion :: "MessageContext \<Rightarrow> int \<times> bool" where
  "EventSchemaVersion c = (mc_eventSchemaVersion c, mc_hasEventSchemaVersion c)"

text \<open>A payload with the required fields only.\<close>

definition sample_request :: WebhookRequest where
  "sample_request = empty_request\<lparr>wr_MessageID := ''m-1'', wr_Text := ''hi'', wr_Room := ''r'', wr_UserID := ''u''\<rparr>"

section \<open>Well-formed messages\<close>

text \<open>What a consumer of messages may rely on.\<close>

definition trimmed :: "string \<Rightarrow> bool" where
  "trimmed s \<longleftrightarrow> trim_space s = s"

definition wf_MessageJSON :: "MessageJSON \<Rightarrow> bool" where
  "wf_MessageJSON j \<longleftrightarrow>
     mj_MessageID j \<noteq> [] \<and> length (mj_MessageID j) \<le> MaxMessageIDBytes \<and>
     list_all validMessageIDByte (mj_MessageID j) \<and>
     trim_space (mj_UserID j) \<noteq> [] \<and> rune_count (mj_UserID j) \<le> 256 \<and>
     list_all trimmed [mj_Type j, mj_Route j, mj_MessageID j, mj_ChatLogID j, mj_RoomType j,
       mj_RoomLinkID j, mj_SourceAccountID j, mj_Origin j] \<and>
     mj_SourceLogID j \<noteq> Some 0 \<and>
     (\<forall>t. mj_ThreadID j = Some t \<longrightarrow> t \<noteq> [] \<and> trimmed t) \<and>
     list_all (\<lambda>m. wm_UserID m \<noteq> [] \<and> trimmed (wm_UserID m) \<and> trimmed (wm_Nickname m)) (mj_Mentions j) \<and>
     rune_count (mj_Attachment j) \<le> 65536 \<and> length (mj_EventPayload j) \<le> 262144"

definition wf_Message :: "Message \<Rightarrow> bool" where
  "wf_Message m \<longleftrightarrow>
     trim_space (m_Room m) \<noteq> [] \<and> rune_count (m_Room m) \<le> 256 \<and> rune_count (m_Msg m) \<le> 16000 \<and>
     (\<forall>s. m_Sender m = Some s \<longrightarrow> s \<noteq> [] \<and> trimmed s) \<and>
     (\<exists>j. m_JSON m = Some j \<and> wf_MessageJSON j \<and> (trim_space (m_Msg m) \<noteq> [] \<or> mj_Type j \<noteq> []))"

lemma trimmed_trim [simp]: "trimmed (trim_space s)"
  by (simp add: trimmed_def)

lemma cloneWebhookMentions_idem [simp]: "cloneWebhookMentions (cloneWebhookMentions ms) = cloneWebhookMentions ms"
  by (simp add: cloneWebhookMentions_def)

lemma normalizeWebhookRequest_idem [simp]:
  "normalizeWebhookRequest (Some (normalizeWebhookRequest r)) = normalizeWebhookRequest r"
  by (cases r) (simp_all add: empty_request_def cloneWebhookMentions_def)

lemma buildMessage_normalized: "buildMessage (Some (normalizeWebhookRequest r)) = buildMessage r"
  by (simp only: buildMessage_def normalizeWebhookRequest_idem)

lemma parse_accepts:
  "parseWebhookRequest unmarshal body = Inr req \<longleftrightarrow>
     (\<exists>raw. unmarshal body = Some raw \<and> validWebhookRequest raw \<and> trim_space (wr_MessageID raw) \<noteq> [] \<and>
        req = raw\<lparr>wr_MessageID := trim_space (wr_MessageID raw)\<rparr>)"
  by (auto simp: parseWebhookRequest_def decodeWebhookRequest_def validWebhookRequest_def
      validOptionalMessageID_def NormalizeMessageID_def Let_def split: option.splits prod.splits if_splits)

lemma valid_message_id:
  "validWebhookRequest r \<Longrightarrow>
     length (trim_space (wr_MessageID r)) \<le> MaxMessageIDBytes \<and>
     list_all validMessageIDByte (trim_space (wr_MessageID r))"
  by (auto simp: validWebhookRequest_def validOptionalMessageID_def NormalizeMessageID_def Let_def split: if_splits)

lemma wf_buildMessageJSON:
  assumes "validWebhookRequest r" and "trim_space (wr_MessageID r) \<noteq> []"
  shows "wf_MessageJSON (buildMessageJSON (normalizeWebhookRequest (Some r)))"
  using assms valid_message_id [OF assms(1)]
  by (auto simp: wf_MessageJSON_def buildMessageJSON_def validWebhookRequest_def validRequiredMax_def
      validOptionalMax_def maxEventPayloadBytes_def cloneWebhookMentions_def validWebhookMentions_def
      list_all_iff Let_def rune_count_def)

lemma wf_buildMessage:
  assumes "validWebhookRequest r" and "trim_space (wr_MessageID r) \<noteq> []"
  shows "wf_Message (buildMessage (Some r))"
  using assms wf_buildMessageJSON [OF assms]
  by (auto simp: wf_Message_def buildMessage_def buildMessageJSON_def validWebhookRequest_def
      validWebhookText_def validRequiredMax_def Let_def split: if_splits)

lemma validWebhookRequest_update_id:
  "validWebhookRequest r \<Longrightarrow> trim_space (wr_MessageID r) \<noteq> [] \<Longrightarrow>
     validWebhookRequest (r\<lparr>wr_MessageID := trim_space (wr_MessageID r)\<rparr>)"
  by (auto simp: validWebhookRequest_def validOptionalMessageID_def NormalizeMessageID_def Let_def
      validWebhookText_def)

lemma parsed_request_valid:
  assumes "parseWebhookRequest unmarshal body = Inr req"
  shows "validWebhookRequest req" and "wr_MessageID req \<noteq> []" and "trim_space (wr_MessageID req) = wr_MessageID req"
  using assms validWebhookRequest_update_id by (auto simp: parse_accepts)

section \<open>Claims\<close>


lemma sample_request_valid: "validWebhookRequest sample_request" "trim_space (wr_MessageID sample_request) = ''m-1''"
proof -
  have vis: "list_all is_visible ''hi''" "list_all is_visible ''m-1''" "list_all is_visible ''r''" "list_all is_visible ''u''"
    by (simp_all add: is_visible_def)
  note trim = vis [THEN trim_space_all_visible]
  have asc: "rune_count ''hi'' = 2" "rune_count ''r'' = 1" "rune_count ''u'' = 1" "rune_count [] = 0"
    by (simp_all add: rune_count_ascii is_ascii_def)
  have "NormalizeMessageID ''m-1'' = (''m-1'', True)"
    by (simp add: NormalizeMessageID_def MaxMessageIDBytes_def validMessageIDByte_def is_lower_def is_digit_def
        less_eq_char_def trim)
  then show "validWebhookRequest sample_request"
    by (simp add: validWebhookRequest_def sample_request_def empty_request_def validWebhookText_def
        validRequiredMax_def validOptionalMax_def validOptionalMessageID_def validWebhookMentions_def trim asc)
  show "trim_space (wr_MessageID sample_request) = ''m-1''" by (simp add: sample_request_def trim)
qed


end
