(* ===== verification/Go_Crypto.thy ===== *)
theory Go_Crypto
  imports Go_Strings
begin

unbundle bit_operations_syntax

text \<open>
  The two primitives of Go's \<open>crypto\<close> packages the program uses: \<open>sha256.Sum256\<close> (FIPS 180-4)
  and \<open>hmac.New(sha256.New, key)\<close> (FIPS 198-1). Both are executable, with the
  wrap-around of 32-bit arithmetic written out, so that
  the digest constants of the source can be checked by evaluation.
\<close>

section \<open>SHA-256\<close>

text \<open>
  A 32-bit word is its unsigned value, an \<open>int\<close> between 0 and \<open>2 ^ 32 - 1\<close>; additions and
  left shifts are reduced modulo \<open>2 ^ 32\<close> where they happen.
\<close>

type_synonym w32 = int

definition wrap32 :: "int \<Rightarrow> w32" where
  "wrap32 x = x mod 4294967296"

definition rotr :: "nat \<Rightarrow> w32 \<Rightarrow> w32" where
  "rotr n x = wrap32 (drop_bit n x OR push_bit (32 - n) x)"

definition sha_Ch :: "w32 \<Rightarrow> w32 \<Rightarrow> w32 \<Rightarrow> w32" where
  "sha_Ch x y z = (x AND y) XOR ((x XOR 0xffffffff) AND z)"

definition sha_Maj :: "w32 \<Rightarrow> w32 \<Rightarrow> w32 \<Rightarrow> w32" where
  "sha_Maj x y z = (x AND y) XOR (x AND z) XOR (y AND z)"

definition sha_S0 :: "w32 \<Rightarrow> w32" where
  "sha_S0 x = rotr 2 x XOR rotr 13 x XOR rotr 22 x"

definition sha_S1 :: "w32 \<Rightarrow> w32" where
  "sha_S1 x = rotr 6 x XOR rotr 11 x XOR rotr 25 x"

definition sha_s0 :: "w32 \<Rightarrow> w32" where
  "sha_s0 x = rotr 7 x XOR rotr 18 x XOR drop_bit 3 x"

definition sha_s1 :: "w32 \<Rightarrow> w32" where
  "sha_s1 x = rotr 17 x XOR rotr 19 x XOR drop_bit 10 x"

definition sha_K :: "w32 list" where
  "sha_K =
   [1116352408, 1899447441, 3049323471, 3921009573, 961987163, 1508970993, 2453635748, 2870763221,
    3624381080, 310598401, 607225278, 1426881987, 1925078388, 2162078206, 2614888103, 3248222580,
    3835390401, 4022224774, 264347078, 604807628, 770255983, 1249150122, 1555081692, 1996064986,
    2554220882, 2821834349, 2952996808, 3210313671, 3336571891, 3584528711, 113926993, 338241895,
    666307205, 773529912, 1294757372, 1396182291, 1695183700, 1986661051, 2177026350, 2456956037,
    2730485921, 2820302411, 3259730800, 3345764771, 3516065817, 3600352804, 4094571909, 275423344,
    430227734, 506948616, 659060556, 883997877, 958139571, 1322822218, 1537002063, 1747873779,
    1955562222, 2024104815, 2227730452, 2361852424, 2428436474, 2756734187, 3204031479, 3329325298]"

definition sha_H0 :: "w32 list" where
  "sha_H0 =
   [0x6a09e667, 0xbb67ae85, 0x3c6ef372, 0xa54ff53a, 0x510e527f, 0x9b05688c, 0x1f83d9ab, 0x5be0cd19]"

text \<open>
  The message schedule is consumed one word per round. Its last sixteen words are kept in a
  list; after each round the next word \<open>s1(w14) + w9 + s0(w1) + w0\<close> is appended.
\<close>

fun sha_next :: "w32 list \<Rightarrow> w32 list" where
  "sha_next (w0 # w1 # ws) = w1 # ws @ [wrap32 (sha_s1 (ws ! 12) + ws ! 7 + sha_s0 w1 + w0)]"
| "sha_next ws = ws"

fun sha_shift :: "w32 \<Rightarrow> w32 \<Rightarrow> w32 list \<Rightarrow> w32 list" where
  "sha_shift t1 t2 [a, b, c, d, e, f, g, h] = [wrap32 (t1 + t2), a, b, c, wrap32 (d + t1), e, f, g]"
| "sha_shift t1 t2 st = st"

fun sha_round :: "w32 \<Rightarrow> w32 \<Rightarrow> w32 list \<Rightarrow> w32 list" where
  "sha_round k w [a, b, c, d, e, f, g, h] =
     sha_shift (wrap32 (h + sha_S1 e + sha_Ch e f g + k + w)) (wrap32 (sha_S0 a + sha_Maj a b c))
       [a, b, c, d, e, f, g, h]"
| "sha_round k w st = st"

fun sha_rounds :: "w32 list \<Rightarrow> w32 list \<Rightarrow> w32 list \<Rightarrow> w32 list" where
  "sha_rounds [] ws st = st"
| "sha_rounds (k # ks) ws st = sha_rounds ks (sha_next ws) (sha_round k (hd ws) st)"

definition sha_block :: "w32 list \<Rightarrow> w32 list \<Rightarrow> w32 list" where
  "sha_block st ws = map2 (\<lambda>x y. wrap32 (x + y)) st (sha_rounds sha_K ws st)"

fun be_words :: "bytes \<Rightarrow> w32 list" where
  "be_words (a # b # c # d # r) =
     int (byte_val a * 16777216 + byte_val b * 65536 + byte_val c * 256 + byte_val d) # be_words r"
| "be_words _ = []"

definition word_bytes :: "w32 \<Rightarrow> bytes" where
  "word_bytes w = (let n = nat w in
     [char_of (n div 16777216), char_of (n div 65536), char_of (n div 256), char_of n])"

definition be64 :: "nat \<Rightarrow> bytes" where
  "be64 n = map (\<lambda>i. char_of (n div 256 ^ i)) [7, 6, 5, 4, 3, 2, 1, 0]"

definition sha_pad :: "bytes \<Rightarrow> bytes" where
  "sha_pad m = m @ [CHR 0x80] @ replicate ((119 - length m mod 64) mod 64) (CHR 0x00) @ be64 (8 * length m)"

function sha_blocks :: "bytes \<Rightarrow> w32 list \<Rightarrow> w32 list" where
  "sha_blocks m st =
     (if length m < 64 then st else sha_blocks (drop 64 m) (sha_block st (be_words (take 64 m))))"
  by pat_completeness auto
termination
  by (relation "measure (\<lambda>(m, st). length m)") auto

declare sha_blocks.simps [simp del]

definition sha256 :: "bytes \<Rightarrow> bytes" where
  "sha256 m = concat (map word_bytes (sha_blocks (sha_pad m) sha_H0))"

section \<open>HMAC\<close>

definition hmac_key :: "bytes \<Rightarrow> bytes" where
  "hmac_key k = (let k' = (if 64 < length k then sha256 k else k)
     in k' @ replicate (64 - length k') (CHR 0x00))"

definition xor_pad :: "nat \<Rightarrow> bytes \<Rightarrow> bytes" where
  "xor_pad p k = map (\<lambda>c. char_of (byte_val c XOR p)) k"

definition hmac_sha256 :: "bytes \<Rightarrow> bytes \<Rightarrow> bytes" where
  "hmac_sha256 key m =
     sha256 (xor_pad 0x5C (hmac_key key) @ sha256 (xor_pad 0x36 (hmac_key key) @ m))"

section \<open>Digest lengths\<close>

lemma length_sha_shift [simp]: "length (sha_shift t1 t2 st) = length st"
  by (induction t1 t2 st rule: sha_shift.induct) auto

lemma length_sha_round [simp]: "length (sha_round k w st) = length st"
  by (induction k w st rule: sha_round.induct) (simp_all del: sha_shift.simps)

lemma length_sha_rounds [simp]: "length (sha_rounds ks ws st) = length st"
  by (induction ks ws st rule: sha_rounds.induct) auto

lemma length_sha_blocks [simp]: "length (sha_blocks m st) = length st"
proof (induction m st rule: sha_blocks.induct)
  case (1 m st)
  then show ?case by (simp add: sha_blocks.simps [of m st] sha_block_def)
qed

lemma length_concat_word_bytes: "length (concat (map word_bytes ws)) = 4 * length ws"
  by (induction ws) (auto simp: word_bytes_def Let_def)

lemma length_sha256 [simp]: "length (sha256 m) = 32"
  by (simp add: sha256_def length_concat_word_bytes sha_H0_def)

lemma length_hmac_sha256 [simp]: "length (hmac_sha256 k m) = 32"
  by (simp add: hmac_sha256_def)

section \<open>The digest of the empty message\<close>

lemmas sha_eval =
  rotr_def sha_Ch_def sha_Maj_def sha_S0_def sha_S1_def sha_s0_def sha_s1_def wrap32_def

lemma sha_pad_empty:
  "be_words (take 64 (sha_pad [])) = [0x80000000, 0, 0, 0, 0, 0, 0, 0, 0, 0, 0, 0, 0, 0, 0, 0]"
  "length (sha_pad []) = 64"
proof -
  have rep: "replicate (numeral k) x = x # replicate (pred_numeral k) x" for k and x :: char
    by (simp add: numeral_eq_Suc)
  show "be_words (take 64 (sha_pad [])) = [0x80000000, 0, 0, 0, 0, 0, 0, 0, 0, 0, 0, 0, 0, 0, 0, 0]"
    by (simp add: sha_pad_def be64_def rep char_of_nat_eq)
  show "length (sha_pad []) = 64"
    by (simp add: sha_pad_def be64_def)
qed

lemma sha_rounds_empty:
  "sha_rounds sha_K [0x80000000, 0, 0, 0, 0, 0, 0, 0, 0, 0, 0, 0, 0, 0, 0, 0] sha_H0 =
     [0x79a6dddb, 0xdd946d8f, 0x5e8d0156, 0xf41fc3ea, 0xd69fef65, 0xc9962ac0, 0x8511bf70, 0x1c71eb3c]"
  by (simp add: sha_H0_def sha_K_def sha_eval)

lemma hex_word: "hex_encode (char_of n # bs) = hex_digit (n div 16 mod 16) # hex_digit (n mod 16) # hex_encode bs"
  by (simp add: hex_encode_def mod_mult2_eq [of n 16 16, simplified])

lemma sha256_empty:
  "hex_encode (sha256 []) = ''e3b0c44298fc1c149afbf4c8996fb92427ae41e4649b934ca495991b7852b855''"
proof -
  have "sha_blocks (sha_pad []) sha_H0 = sha_block sha_H0 (be_words (take 64 (sha_pad [])))"
    by (simp add: sha_blocks.simps [of "sha_pad []"] sha_blocks.simps [of "[]"] sha_pad_empty(2))
  also have "\<dots> = [0xe3b0c442, 0x98fc1c14, 0x9afbf4c8, 0x996fb924, 0x27ae41e4, 0x649b934c, 0xa495991b, 0x7852b855]"
    unfolding sha_block_def sha_pad_empty(1) sha_rounds_empty by (simp add: sha_H0_def wrap32_def)
  finally have "sha256 [] = concat (map word_bytes
      [0xe3b0c442, 0x98fc1c14, 0x9afbf4c8, 0x996fb924, 0x27ae41e4, 0x649b934c, 0xa495991b, 0x7852b855])"
    by (simp only: sha256_def)
  then show ?thesis
    by (simp add: word_bytes_def hex_word hex_digit_def char_of_nat_eq hex_encode_def [of "[]"])
qed

end
