(* ===== verification/Go_Netip.thy ===== *)
theory Go_Netip
  imports Go_Strings
begin

text \<open>
  What the program uses of \<open>net/netip\<close>: \<open>ParseAddr\<close>, \<open>Addr.Is6\<close>, \<open>Addr.Zone\<close> and
  \<open>Addr.String\<close>. The parsers follow the library's loops: dotted decimal without leading zeros,
  hexadecimal groups with at most one ellipsis, an optional embedded IPv4 tail and an optional zone.
\<close>

section \<open>Addresses\<close>

text \<open>An address is its bytes: four, or sixteen with a zone.\<close>

datatype addr = Addr4 "nat list" | Addr6 "nat list" string

fun Is6 :: "addr \<Rightarrow> bool" where
  "Is6 (Addr4 _) = False"
| "Is6 (Addr6 _ _) = True"

fun Zone :: "addr \<Rightarrow> string" where
  "Zone (Addr4 _) = []"
| "Zone (Addr6 _ z) = z"

section \<open>Parsing\<close>

text \<open>
  \<open>parseIPv4Fields\<close>: \<open>at_start\<close> is \<open>i == 0\<close>, \<open>after_dot\<close> is \<open>s[i-1] == '.'\<close>, \<open>acc\<close> holds the
  \<open>pos\<close> fields stored so far.
\<close>

fun v4_fields :: "string \<Rightarrow> bool \<Rightarrow> bool \<Rightarrow> nat \<Rightarrow> nat \<Rightarrow> nat list \<Rightarrow> nat list option" where
  "v4_fields [] at_start after_dot val digLen acc = (if length acc < 3 then None else Some (acc @ [val]))"
| "v4_fields (c # cs) at_start after_dot val digLen acc =
     (if is_digit c then
        (if digLen = 1 \<and> val = 0 then None
         else let val = val * 10 + digit_val c in
           if 255 < val then None else v4_fields cs False False val (Suc digLen) acc)
      else if c = CHR ''.'' then
        (if at_start \<or> cs = [] \<or> after_dot then None
         else if length acc = 3 then None
         else v4_fields cs False True 0 0 (acc @ [val]))
      else None)"

definition parse_v4_fields :: "string \<Rightarrow> nat list option" where
  "parse_v4_fields s = v4_fields s True False 0 0 []"

definition is_hex :: "char \<Rightarrow> bool" where
  "is_hex c \<longleftrightarrow> is_digit c \<or> CHR ''a'' \<le> c \<and> c \<le> CHR ''f'' \<or> CHR ''A'' \<le> c \<and> c \<le> CHR ''F''"

definition hex_val :: "char \<Rightarrow> nat" where
  "hex_val c =
     (if is_digit c then byte_val c - 48
      else if CHR ''a'' \<le> c \<and> c \<le> CHR ''f'' then byte_val c - 87
      else byte_val c - 55)"

definition hex_group_val :: "string \<Rightarrow> nat" where
  "hex_group_val s = foldl (\<lambda>n c. 16 * n + hex_val c) 0 s"

text \<open>After the loop: nothing may be left over, and an ellipsis expands to at least one group.\<close>

definition v6_finish :: "string \<Rightarrow> nat list \<Rightarrow> nat option \<Rightarrow> nat list option" where
  "v6_finish s ip ell =
     (if s \<noteq> [] then None
      else if length ip < 16 then
        (case ell of
           None \<Rightarrow> None
         | Some e \<Rightarrow> Some (take e ip @ replicate (16 - length ip) 0 @ drop e ip))
      else if ell \<noteq> None then None else Some ip)"

function v6_loop :: "string \<Rightarrow> nat list \<Rightarrow> nat option \<Rightarrow> nat list option" where
  "v6_loop s ip ell =
     (if 16 \<le> length ip then v6_finish s ip ell
      else
        let ds = takeWhile is_hex s; rest = dropWhile is_hex s in
        if 4 < length ds \<or> ds = [] then None
        else if rest \<noteq> [] \<and> hd rest = CHR ''.'' then
          (if ell = None \<and> length ip \<noteq> 12 then None
           else if 16 < length ip + 4 then None
           else case parse_v4_fields s of
             None \<Rightarrow> None
           | Some fs \<Rightarrow> v6_finish [] (ip @ fs) ell)
        else
          let acc = hex_group_val ds; ip' = ip @ [acc div 256, acc mod 256] in
          if rest = [] then v6_finish [] ip' ell
          else if hd rest \<noteq> CHR '':'' then None
          else if length rest = 1 then None
          else
            let s' = tl rest in
            if hd s' = CHR '':'' then
              (if ell \<noteq> None then None
               else if tl s' = [] then v6_finish [] ip' (Some (length ip'))
               else v6_loop (tl s') ip' (Some (length ip')))
            else v6_loop s' ip' ell)"
  by pat_completeness auto
termination
proof (relation "measure (\<lambda>(s, ip, ell). 16 - length ip)")
qed auto

declare v6_loop.simps [simp del]

definition parse_v6 :: "string \<Rightarrow> addr option" where
  "parse_v6 input =
     (case cut_at CHR ''%'' input of (s, zone, hasZone) \<Rightarrow>
        if hasZone \<and> zone = [] then None
        else if prefix ''::'' s then
          (if s = ''::'' then Some (Addr6 (replicate 16 0) zone)
           else map_option (\<lambda>ip. Addr6 ip zone) (v6_loop (drop 2 s) [] (Some 0)))
        else map_option (\<lambda>ip. Addr6 ip zone) (v6_loop s [] None))"

fun parse_addr_from :: "string \<Rightarrow> string \<Rightarrow> addr option" where
  "parse_addr_from [] s = None"
| "parse_addr_from (c # cs) s =
     (if c = CHR ''.'' then map_option Addr4 (parse_v4_fields s)
      else if c = CHR '':'' then parse_v6 s
      else if c = CHR ''%'' then None
      else parse_addr_from cs s)"

definition ParseAddr :: "string \<Rightarrow> addr option" where
  "ParseAddr s = parse_addr_from s s"

section \<open>Printing\<close>

fun dotted :: "nat list \<Rightarrow> string" where
  "dotted fs = join ''.'' (map format_nat fs)"

text \<open>A group in hexadecimal without leading zeros.\<close>

fun format_hex :: "nat \<Rightarrow> string" where
  "format_hex n = (if n < 16 then [hex_digit n] else format_hex (n div 16) @ [hex_digit (n mod 16)])"

declare format_hex.simps [simp del]

fun groups :: "nat list \<Rightarrow> nat list" where
  "groups (a # b # r) = (a * 256 + b) # groups r"
| "groups _ = []"

text \<open>The first longest run of at least two zero groups: its start and end.\<close>

definition zero_run_at :: "nat list \<Rightarrow> nat \<Rightarrow> nat" where
  "zero_run_at gs i = length (takeWhile (\<lambda>g. g = 0) (drop i gs))"

definition zero_run :: "nat list \<Rightarrow> (nat \<times> nat) option" where
  "zero_run gs = foldl (\<lambda>best i.
     let l = zero_run_at gs i; cur = (case best of None \<Rightarrow> 0 | Some (zs, ze) \<Rightarrow> ze - zs) in
     if 2 \<le> l \<and> cur < l then Some (i, i + l) else best) None [0, 1, 2, 3, 4, 5, 6, 7]"

definition print_v6 :: "nat list \<Rightarrow> string" where
  "print_v6 gs =
     (case zero_run gs of
        None \<Rightarrow> join '':'' (map format_hex gs)
      | Some (zs, ze) \<Rightarrow>
          join '':'' (map format_hex (take zs gs)) @ ''::'' @ join '':'' (map format_hex (drop ze gs)))"

definition is_4in6 :: "nat list \<Rightarrow> bool" where
  "is_4in6 ip \<longleftrightarrow> take 12 ip = replicate 10 0 @ [255, 255]"

fun addr_string :: "addr \<Rightarrow> string" where
  "addr_string (Addr4 fs) = dotted fs"
| "addr_string (Addr6 ip zone) =
     (if is_4in6 ip then ''::ffff:'' @ dotted (drop 12 ip) else print_v6 (groups ip))
     @ (if zone = [] then [] else CHR ''%'' # zone)"

section \<open>Dotted decimal: round trip\<close>

lemma v4_fields_bounds:
  "v4_fields s st ad val dl acc = Some fs \<Longrightarrow> length acc \<le> 3 \<Longrightarrow> val \<le> 255 \<Longrightarrow>
     list_all (\<lambda>x. x \<le> 255) acc \<Longrightarrow> length fs = 4 \<and> list_all (\<lambda>x. x \<le> 255) fs"
  by (induction s st ad val dl acc rule: v4_fields.induct) (auto simp: Let_def split: if_splits)

lemma parse_v4_bounds:
  "parse_v4_fields s = Some fs \<Longrightarrow> length fs = 4 \<and> list_all (\<lambda>x. x \<le> 255) fs"
  unfolding parse_v4_fields_def by (erule v4_fields_bounds) auto

lemma v4_fields_number:
  "n \<le> 255 \<Longrightarrow> \<exists>k > 0. v4_fields (format_nat n @ s) st ad 0 0 acc = v4_fields s False False n k acc"
proof (induction n arbitrary: s rule: format_nat.induct)
  case (1 n)
  show ?case
  proof (cases "n < 10")
    case True
    with 1 digit_char [of n] show ?thesis
      by (intro exI [of _ 1]) (simp add: format_nat.simps [of n] Let_def)
  next
    case False
    define c where "c = char_of (48 + n mod 10)"
    have c: "is_digit c" "digit_val c = n mod 10"
      using digit_char [of "n mod 10"] by (auto simp: c_def)
    from 1(2) have "n div 10 \<le> 255" by (simp add: le_trans [OF div_le_dividend])
    from "1.IH" [OF False this, of "c # s"] obtain k where k: "k > 0"
      "v4_fields (format_nat (n div 10) @ c # s) st ad 0 0 acc = v4_fields (c # s) False False (n div 10) k acc"
      by blast
    have "format_nat n @ s = format_nat (n div 10) @ c # s"
      using False by (simp add: format_nat.simps [of n] c_def)
    moreover have "v4_fields (c # s) False False (n div 10) k acc = v4_fields s False False n (Suc k) acc"
      using False 1(2) c by (simp add: Let_def div_eq_0_iff)
    ultimately show ?thesis using k by auto
  qed
qed

lemma v4_fields_dot:
  "s \<noteq> [] \<Longrightarrow> length acc \<noteq> 3 \<Longrightarrow>
     v4_fields (CHR ''.'' # s) False False n k acc = v4_fields s False True 0 0 (acc @ [n])"
  by (simp add: is_digit_def less_eq_char_def)

lemma v4_fields_number_dot:
  assumes "n \<le> 255" and "s \<noteq> []" and "length acc \<noteq> 3"
  shows "v4_fields (format_nat n @ CHR ''.'' # s) st ad 0 0 acc = v4_fields s False True 0 0 (acc @ [n])"
  using v4_fields_number [OF assms(1), of "CHR ''.'' # s" st ad acc] v4_fields_dot [OF assms(2,3)] by auto

lemma v4_fields_number_end:
  assumes "n \<le> 255" and "length acc = 3"
  shows "v4_fields (format_nat n) st ad 0 0 acc = Some (acc @ [n])"
  using v4_fields_number [OF assms(1), of "[]" st ad acc] assms(2) by auto

lemma parse_v4_dotted:
  assumes "length fs = 4" and "list_all (\<lambda>x. x \<le> 255) fs"
  shows "parse_v4_fields (dotted fs) = Some fs"
proof -
  obtain a b c d where fs: "fs = [a, b, c, d]"
    using assms(1) by (auto simp: length_Suc_conv numeral_eq_Suc)
  with assms(2) show ?thesis
    using format_nat_digits by (simp add: parse_v4_fields_def v4_fields_number_dot v4_fields_number_end)
qed

lemma parse_addr_from_digits:
  "list_all is_digit ds \<Longrightarrow> parse_addr_from (ds @ CHR ''.'' # r) s = map_option Addr4 (parse_v4_fields s)"
  by (induction ds) (auto simp: byte_class)

lemma ParseAddr_dotted:
  assumes "length fs = 4" and "list_all (\<lambda>x. x \<le> 255) fs"
  shows "ParseAddr (dotted fs) = Some (Addr4 fs)"
proof -
  obtain a b c d where fs: "fs = [a, b, c, d]"
    using assms(1) by (auto simp: length_Suc_conv numeral_eq_Suc)
  have "dotted fs = format_nat a @ CHR ''.'' # (format_nat b @ ''.'' @ format_nat c @ ''.'' @ format_nat d)"
    by (simp add: fs)
  then have "ParseAddr (dotted fs) = map_option Addr4 (parse_v4_fields (dotted fs))"
    using parse_addr_from_digits format_nat_digits by (metis ParseAddr_def)
  with parse_v4_dotted [OF assms] show ?thesis by simp
qed

lemma ParseAddr_no_colon:
  assumes "CHR '':'' \<notin> set s" and "ParseAddr s = Some a"
  shows "\<exists>fs. a = Addr4 fs \<and> parse_v4_fields s = Some fs"
proof -
  have "CHR '':'' \<notin> set t \<Longrightarrow> parse_addr_from t s = Some a \<Longrightarrow> \<exists>fs. a = Addr4 fs \<and> parse_v4_fields s = Some fs" for t
    by (induction t) (auto split: if_splits)
  with assms show ?thesis by (simp add: ParseAddr_def)
qed

text \<open>Letter case does not matter to the dotted form, whose bytes have none.\<close>

lemma ascii_lower_class:
  "is_digit (ascii_lower c) \<longleftrightarrow> is_digit c"
  "ascii_lower c = CHR ''.'' \<longleftrightarrow> c = CHR ''.''" "ascii_lower c = CHR '':'' \<longleftrightarrow> c = CHR '':''"
  "ascii_lower c = CHR ''%'' \<longleftrightarrow> c = CHR ''%''"
  by (auto simp: byte_class byte_val_ascii_lower)

lemma ascii_lower_digit: "is_digit c \<Longrightarrow> ascii_lower c = c"
  by (auto simp: byte_eq_val byte_class byte_val_ascii_lower)

lemma v4_fields_lower: "v4_fields (map ascii_lower s) st ad val dl acc = v4_fields s st ad val dl acc"
proof (induction s arbitrary: st ad val dl acc)
  case (Cons c s)
  show ?case
    by (cases "is_digit c") (simp_all add: Cons ascii_lower_class ascii_lower_digit Let_def)
qed simp

lemma ParseAddr_lower:
  assumes "CHR '':'' \<notin> set s"
  shows "ParseAddr (map ascii_lower s) = ParseAddr s"
proof -
  have "CHR '':'' \<notin> set t \<Longrightarrow> parse_addr_from (map ascii_lower t) (map ascii_lower s) = parse_addr_from t s" for t
    by (induction t) (auto simp: ascii_lower_class parse_v4_fields_def v4_fields_lower)
  with assms show ?thesis by (simp add: ParseAddr_def)
qed

end
