(* ===== verification/Irishmac.thy ===== *)
theory Irishmac
  imports Canonical_Query Go_Crypto Go_Netip
begin

text \<open>
  Request authentication codes (\<open>internal/irishmac/hmac.go\<close>): the pooled HMAC signer, the
  canonical authority of a webhook request, the eight-line transcript that is signed and the
  body digest. The lemmas show that a pooled signer signs like a fresh one whatever its pool
  went through, that the digest shortcut for empty bodies is right, that canonical authorities
  are fixed points, and that the transcript determines every field that was signed.
\<close>

section \<open>Constants\<close>

definition EmptyBodySHA256Hex :: string where
  "EmptyBodySHA256Hex = ''e3b0c44298fc1c149afbf4c8996fb92427ae41e4649b934ca495991b7852b855''"

definition HeaderIrisTimestamp :: string where "HeaderIrisTimestamp = ''X-Iris-Timestamp''"
definition HeaderIrisNonce :: string where "HeaderIrisNonce = ''X-Iris-Nonce''"
definition HeaderIrisSignature :: string where "HeaderIrisSignature = ''X-Iris-Signature''"
definition HeaderIrisBodySHA256 :: string where "HeaderIrisBodySHA256 = ''X-Iris-Body-Sha256''"
definition HeaderIrisMessageID :: string where "HeaderIrisMessageID = ''X-Iris-Message-Id''"
definition HeaderIrisSignatureVersion :: string where "HeaderIrisSignatureVersion = ''X-Iris-Signature-Version''"
definition SignatureVersionV3 :: string where "SignatureVersionV3 = ''v3''"

lemmas header_names =
  HeaderIrisTimestamp_def HeaderIrisNonce_def HeaderIrisSignature_def HeaderIrisBodySHA256_def
  HeaderIrisMessageID_def HeaderIrisSignatureVersion_def

section \<open>The pooled signer\<close>

text \<open>A \<open>hash.Hash\<close> made by \<open>hmac.New(sha256.New, key)\<close>: its key and what was written to it.\<close>

record mac =
  mac_key :: bytes
  mac_written :: bytes

definition NewMAC :: "bytes \<Rightarrow> mac" where
  "NewMAC key = \<lparr>mac_key = key, mac_written = []\<rparr>"

definition mac_Reset :: "mac \<Rightarrow> mac" where
  "mac_Reset m = m\<lparr>mac_written := []\<rparr>"

definition mac_Write :: "bytes \<Rightarrow> mac \<Rightarrow> mac" where
  "mac_Write p m = m\<lparr>mac_written := mac_written m @ p\<rparr>"

definition mac_Sum :: "mac \<Rightarrow> bytes" where
  "mac_Sum m = hmac_sha256 (mac_key m) (mac_written m)"

text \<open>\<open>SignHash\<close> returns the signature and leaves the message in the hash it was given.\<close>

definition SignHash :: "mac \<Rightarrow> string \<Rightarrow> string \<times> mac" where
  "SignHash m canonical = (let m' = mac_Write canonical (mac_Reset m) in (hex_encode (mac_Sum m'), m'))"

text \<open>
  A \<open>Signer\<close>: its key and the hashes in its \<open>sync.Pool\<close>. \<open>Get\<close> may hand out any pooled value
  or call \<open>New\<close>, and the runtime may drop pooled values, so the choice is an argument. A pooled
  value that is not a hash is \<open>None\<close>: the type assertion fails and a new hash is made.
\<close>

record Signer =
  key :: bytes
  pool :: "mac option list"

definition NewSigner :: "string \<Rightarrow> Signer" where
  "NewSigner secret = \<lparr>key = secret, pool = []\<rparr>"

definition pool_Get :: "nat option \<Rightarrow> Signer \<Rightarrow> mac option \<times> Signer" where
  "pool_Get choice s =
     (case choice of
        None \<Rightarrow> (Some (NewMAC (key s)), s)
      | Some i \<Rightarrow>
          if i < length (pool s) then (pool s ! i, s\<lparr>pool := take i (pool s) @ drop (Suc i) (pool s)\<rparr>)
          else (Some (NewMAC (key s)), s))"

definition pool_Put :: "mac \<Rightarrow> Signer \<Rightarrow> Signer" where
  "pool_Put m s = s\<lparr>pool := Some m # pool s\<rparr>"

text \<open>The acquisition and the release of \<open>Sign\<close>; between the two other goroutines may run.\<close>

definition Sign_acquire :: "nat option \<Rightarrow> Signer \<Rightarrow> mac \<times> Signer" where
  "Sign_acquire choice s =
     (case pool_Get choice s of
        (Some m, s') \<Rightarrow> (m, s')
      | (None, s') \<Rightarrow> (NewMAC (key s'), s'))"

definition Sign :: "nat option \<Rightarrow> Signer \<Rightarrow> string \<Rightarrow> string \<times> Signer" where
  "Sign choice s canonical =
     (case Sign_acquire choice s of (m, s') \<Rightarrow>
        case SignHash m canonical of (sig, m') \<Rightarrow> (sig, pool_Put m' s'))"

section \<open>Canonical authority\<close>

datatype authority_error =
    AuthorityBlank
  | InvalidBracketedHost
  | InvalidBracketedSuffix
  | UnmatchedBrackets
  | IPv6HostNotBracketed
  | EmptyHostOrPort
  | InvalidIPv6Host
  | HostNotHostname
  | InvalidPort

text \<open>The results \<open>host, port, hasPort, bracketed\<close>.\<close>

definition splitWebhookAuthority :: "string \<Rightarrow> (authority_error, string \<times> string \<times> bool \<times> bool) result" where
  "splitWebhookAuthority authority =
     (if prefix ''['' authority then
        (case index_byte CHR '']'' authority of
           None \<Rightarrow> Inl InvalidBracketedHost
         | Some closingBracket \<Rightarrow>
             if closingBracket \<le> 1 then Inl InvalidBracketedHost
             else
               let host = drop 1 (take closingBracket authority);
                   suffix = drop (closingBracket + 1) authority
               in if suffix = [] then Inr (host, [], False, True)
                  else if prefix '':'' suffix \<and> 1 < length suffix then Inr (host, drop 1 suffix, True, True)
                  else Inl InvalidBracketedSuffix)
      else if CHR ''['' \<in> set authority \<or> CHR '']'' \<in> set authority then Inl UnmatchedBrackets
      else if count_byte CHR '':'' authority = 0 then
        (if authority = [] then Inl EmptyHostOrPort else Inr (authority, [], False, False))
      else if count_byte CHR '':'' authority = 1 then
        (case cut_at CHR '':'' authority of (host, port, _) \<Rightarrow>
           if host = [] \<or> port = [] then Inl EmptyHostOrPort else Inr (host, port, True, False))
      else Inl IPv6HostNotBracketed)"

definition hostname_byte :: "char \<Rightarrow> bool" where
  "hostname_byte character \<longleftrightarrow>
     is_lower character \<or> is_upper character \<or> is_digit character \<or>
     character = CHR ''-'' \<or> character = CHR ''.'' \<or> character = CHR ''_''"

definition validWebhookAuthorityHostname :: "string \<Rightarrow> bool" where
  "validWebhookAuthorityHostname host \<longleftrightarrow> host \<noteq> [] \<and> list_all hostname_byte host"

definition canonicalWebhookHost :: "ucase \<Rightarrow> string \<Rightarrow> bool \<Rightarrow> (authority_error, string) result" where
  "canonicalWebhookHost uc host bracketed =
     (if bracketed then
        (case ParseAddr host of
           None \<Rightarrow> Inl InvalidIPv6Host
         | Some address \<Rightarrow>
             if \<not> Is6 address \<or> Zone address \<noteq> [] then Inl InvalidIPv6Host
             else Inr (''['' @ addr_string address @ '']''))
      else case ParseAddr host of
        Some address \<Rightarrow> if Is6 address then Inl IPv6HostNotBracketed else Inr (addr_string address)
      | None \<Rightarrow>
          if \<not> validWebhookAuthorityHostname host then Inl HostNotHostname
          else Inr (to_lower uc host))"

definition canonicalWebhookAuthority :: "ucase \<Rightarrow> string \<Rightarrow> (authority_error, string) result" where
  "canonicalWebhookAuthority uc authority =
     (if authority = [] \<or> trim_space authority \<noteq> authority then Inl AuthorityBlank
      else and_then (splitWebhookAuthority authority) (\<lambda>(host, port, hasPort, bracketed).
        and_then (canonicalWebhookHost uc host bracketed) (\<lambda>host.
          if \<not> hasPort then Inr host
          else case parse_uint 16 port of
            None \<Rightarrow> Inl InvalidPort
          | Some portNumber \<Rightarrow> Inr (host @ '':'' @ format_nat portNumber))))"

section \<open>Transcript and body digest\<close>

definition CanonicalWebhookRequestV3 ::
  "ucase \<Rightarrow> string \<Rightarrow> string \<Rightarrow> string \<Rightarrow> string \<Rightarrow> string \<Rightarrow> string \<Rightarrow> string \<Rightarrow> (authority_error, string) result" where
  "CanonicalWebhookRequestV3 uc authority method target timestamp nonce messageID bodySHA256 =
     and_then (canonicalWebhookAuthority uc authority) (\<lambda>canonicalAuthority.
       Inr (join [CHR 0x0A]
         [SignatureVersionV3, canonicalAuthority, to_upper uc method, target, timestamp, nonce,
          messageID, to_lower uc bodySHA256]))"

definition SHA256HexBytes :: "bytes \<Rightarrow> string" where
  "SHA256HexBytes body = (if body = [] then EmptyBodySHA256Hex else hex_encode (sha256 body))"

section \<open>Digest\<close>

text \<open>
  The body digest that is signed and sent is the lower-case hexadecimal SHA-256 of the body
  for every body, although the empty body takes a shortcut to a literal.
\<close>

theorem sha256_hex_bytes_exact: "SHA256HexBytes body = hex_encode (sha256 body)"
  by (simp add: SHA256HexBytes_def EmptyBodySHA256Hex_def sha256_empty)

lemma SHA256HexBytes_hex: "list_all is_lower_hex (SHA256HexBytes body)" "length (SHA256HexBytes body) = 64"
  using hex_encode_digits length_hex_encode length_sha256
  by (auto simp: SHA256HexBytes_def EmptyBodySHA256Hex_def sha256_empty [symmetric])

section \<open>Pooled signing\<close>

text \<open>
  What can happen to a signer and the hashes its callers hold: a \<open>Sign\<close> call takes a hash, later
  writes its message and puts the hash back, and the runtime empties pool slots at any time.
  The calls of several goroutines interleave between the two halves.
\<close>

inductive signer_reach :: "string \<Rightarrow> Signer \<Rightarrow> mac list \<Rightarrow> bool" for secret where
  sr_new: "signer_reach secret (NewSigner secret) []"
| sr_acquire: "signer_reach secret s held \<Longrightarrow> Sign_acquire choice s = (m, s') \<Longrightarrow> signer_reach secret s' (m # held)"
| sr_release: "signer_reach secret s (held1 @ m # held2) \<Longrightarrow> SignHash m canonical = (sig, m') \<Longrightarrow>
    signer_reach secret (pool_Put m' s) (held1 @ held2)"
| sr_drop: "signer_reach secret s held \<Longrightarrow> set kept \<subseteq> set (pool s) \<Longrightarrow> signer_reach secret (s\<lparr>pool := kept\<rparr>) held"

definition signer_ok :: "string \<Rightarrow> Signer \<Rightarrow> mac list \<Rightarrow> bool" where
  "signer_ok secret s held \<longleftrightarrow>
     key s = secret \<and> (\<forall>m. Some m \<in> set (pool s) \<longrightarrow> mac_key m = secret) \<and> (\<forall>m \<in> set held. mac_key m = secret)"

lemma pool_Get_ok:
  assumes "pool_Get choice s = (r, s')" and "signer_ok secret s held"
  shows "signer_ok secret s' held \<and> (\<forall>m. r = Some m \<longrightarrow> mac_key m = secret)"
  using assms
  by (auto simp: pool_Get_def signer_ok_def NewMAC_def
      split: option.splits if_splits dest!: in_set_takeD in_set_dropD)
    (metis nth_mem)

lemma Sign_acquire_ok:
  assumes "Sign_acquire choice s = (m, s')" and "signer_ok secret s held"
  shows "signer_ok secret s' (m # held)"
proof -
  obtain r s1 where get: "pool_Get choice s = (r, s1)" by fastforce
  with assms pool_Get_ok [OF get assms(2)] show ?thesis
    by (cases r) (auto simp: Sign_acquire_def signer_ok_def NewMAC_def)
qed

lemma SignHash_exact:
  "SignHash m canonical = (hex_encode (hmac_sha256 (mac_key m) canonical), m\<lparr>mac_written := canonical\<rparr>)"
  by (simp add: SignHash_def mac_Reset_def mac_Write_def mac_Sum_def Let_def)

lemma signer_reach_ok: "signer_reach secret s held \<Longrightarrow> signer_ok secret s held"
proof (induction rule: signer_reach.induct)
  case (sr_acquire s held choice m s')
  then show ?case by (blast dest: Sign_acquire_ok)
next
  case (sr_release s held1 m held2 canonical sig m')
  then show ?case by (auto simp: signer_ok_def SignHash_exact pool_Put_def)
qed (auto simp: signer_ok_def NewSigner_def)

lemma Sign_ok:
  assumes "signer_ok secret s held"
  shows "fst (Sign choice s canonical) = hex_encode (hmac_sha256 secret canonical)"
proof -
  obtain m s' where acq: "Sign_acquire choice s = (m, s')" by fastforce
  from Sign_acquire_ok [OF this assms] show ?thesis
    by (simp add: Sign_def acq SignHash_exact signer_ok_def)
qed

text \<open>
  C15: in every state a signer can reach, with any number of signatures in flight and whatever
  the pool returns or dropped, a signature is the hexadecimal HMAC-SHA-256 of the message under
  the signer's secret: no byte of an earlier message leaks into it.
\<close>

theorem pooled_sign_exact:
  assumes "signer_reach secret s held"
  shows "fst (Sign choice s canonical) = hex_encode (hmac_sha256 secret canonical)"
  using Sign_ok [OF signer_reach_ok [OF assms]] .

theorem pooled_sign_exact_witness:
  "fst (Sign (Some 0) (pool_Put (snd (SignHash (NewMAC ''k'') ''old'')) (NewSigner ''k'')) ''new'')
     = hex_encode (hmac_sha256 ''k'' ''new'')"
proof -
  have acq: "Sign_acquire None (NewSigner ''k'') = (NewMAC ''k'', NewSigner ''k'')"
    by (simp add: Sign_acquire_def pool_Get_def NewSigner_def)
  have held: "signer_reach ''k'' (NewSigner ''k'') ([] @ NewMAC ''k'' # [])"
    using sr_acquire [OF sr_new acq] by simp
  have "signer_reach ''k'' (pool_Put (snd (SignHash (NewMAC ''k'') ''old'')) (NewSigner ''k'')) ([] @ [])"
    by (rule sr_release [OF held surjective_pairing])
  from pooled_sign_exact [OF this] show ?thesis by simp
qed

section \<open>Canonical authorities\<close>

lemma hostname_byte_val [byte_class]:
  "hostname_byte c \<longleftrightarrow> is_alnum c \<or> byte_val c \<in> {45, 46, 95}"
  by (auto simp: hostname_byte_def byte_class)

lemma hostname_byte_class:
  assumes "hostname_byte c"
  shows "is_ascii c" "is_visible c" "c \<notin> {CHR ''['', CHR '']'', CHR '':'', CHR 0x0A}"
    "hostname_byte (ascii_lower c)"
  using assms by (auto simp: byte_class byte_val_ascii_lower)

text \<open>The bytes a canonical host is made of.\<close>

definition authority_byte :: "char \<Rightarrow> bool" where
  "authority_byte c \<longleftrightarrow> hostname_byte c \<or> c \<in> {CHR ''['', CHR '']'', CHR '':''}"

lemma authority_byte_line: "authority_byte c \<Longrightarrow> c \<noteq> CHR 0x0A \<and> is_visible c"
  by (auto simp: authority_byte_def byte_class)

lemma list_all_join:
  "list_all P sep \<Longrightarrow> list_all (list_all P) xs \<Longrightarrow> list_all P (join sep xs)"
  by (induction sep xs rule: join.induct) auto

lemma format_nat_hostname: "list_all hostname_byte (format_nat n)"
  using format_nat_digits [of n] by (auto elim!: list_all_mono simp: byte_class)

lemma dotted_hostname: "list_all hostname_byte (dotted fs)"
  by (auto intro!: list_all_join simp: format_nat_hostname list_all_iff [of _ "map _ _"] hostname_byte_def)

lemma format_hex_hostname: "list_all hostname_byte (format_hex n)"
proof (induction n rule: format_hex.induct)
  case (1 n)
  have "m < 16 \<Longrightarrow> hostname_byte (hex_digit m)" for m
    using hex_digit_lower [of m] by (auto simp: byte_class)
  with 1 show ?case by (simp add: format_hex.simps [of n])
qed

lemma authority_colon [simp]: "authority_byte CHR '':''"
  by (simp add: authority_byte_def)

lemma hostname_authority: "list_all hostname_byte s \<Longrightarrow> list_all authority_byte s"
  by (auto elim!: list_all_mono simp: authority_byte_def)

lemma print_v6_authority: "list_all authority_byte (print_v6 gs)"
proof -
  have "list_all authority_byte (join '':'' (map format_hex xs))" for xs
    by (rule list_all_join) (simp_all add: list_all_iff [of _ "map _ _"] hostname_authority [OF format_hex_hostname])
  then show ?thesis by (auto simp: print_v6_def split: option.splits)
qed

lemma addr_string_authority: "Zone a = [] \<Longrightarrow> list_all authority_byte (addr_string a)"
proof (cases a)
  case (Addr6 ip z)
  moreover have "list_all authority_byte (dotted (drop 12 ip))" by (rule hostname_authority [OF dotted_hostname])
  moreover have "list_all authority_byte ''::ffff:''" by (simp add: authority_byte_def hostname_byte_def is_lower_def is_upper_def is_digit_def less_eq_char_def)
  moreover assume "Zone a = []"
  ultimately show ?thesis using print_v6_authority by (simp del: dotted.simps list_all_append list.pred_inject)
      (metis append_Cons append_Nil list_all_append)
qed (use hostname_authority [OF dotted_hostname] in simp)

lemma Zone_v4 [simp]: "\<not> Is6 a \<Longrightarrow> Zone a = []"
  by (cases a) auto

lemma canonicalWebhookHost_authority:
  assumes "canonicalWebhookHost uc host bracketed = Inr h"
  shows "list_all authority_byte h"
proof -
  have "validWebhookAuthorityHostname host \<Longrightarrow> list_all hostname_byte (to_lower uc host)"
    using to_lower_ascii [of host uc]
    by (auto simp: validWebhookAuthorityHostname_def hostname_byte_class list_all_iff)
  with assms addr_string_authority show ?thesis
    by (auto simp: canonicalWebhookHost_def authority_byte_def [of "CHR ''[''"] authority_byte_def [of "CHR '']''"]
        split: if_splits option.splits intro: hostname_authority)
qed

lemma canonicalWebhookAuthority_bytes:
  assumes "canonicalWebhookAuthority uc a = Inr c"
  shows "list_all authority_byte c"
  using assms canonicalWebhookHost_authority hostname_authority [OF format_nat_hostname]
  by (fastforce simp: canonicalWebhookAuthority_def split: if_splits option.splits prod.splits)

text \<open>Unbracketed authorities: a canonical host is again canonical.\<close>

lemma hostname_no_sep:
  assumes "list_all hostname_byte h"
  shows "CHR '':'' \<notin> set h" "CHR ''['' \<notin> set h" "CHR '']'' \<notin> set h" "\<not> prefix ''['' h"
proof -
  have "c \<in> set h \<Longrightarrow> c \<notin> {CHR ''['', CHR '']'', CHR '':''}" for c
    using assms hostname_byte_class(3) [of c] by (auto simp: list_all_iff)
  then show "CHR '':'' \<notin> set h" "CHR ''['' \<notin> set h" "CHR '']'' \<notin> set h" by blast+
  then show "\<not> prefix ''['' h" by (cases h) auto
qed

lemma format_nat_no_colon: "CHR '':'' \<notin> set (format_nat n)" "CHR ''['' \<notin> set (format_nat n)" "CHR '']'' \<notin> set (format_nat n)"
  using hostname_no_sep [OF format_nat_hostname] by auto

lemma split_host_only:
  assumes "h \<noteq> []" and "list_all hostname_byte h"
  shows "splitWebhookAuthority h = Inr (h, [], False, False)"
  using assms hostname_no_sep [OF assms(2)]
  by (auto simp: splitWebhookAuthority_def count_byte_def filter_empty_conv)

lemma split_host_port:
  assumes "h \<noteq> []" and "list_all hostname_byte h" and "p \<noteq> []" and "list_all hostname_byte p"
  shows "splitWebhookAuthority (h @ CHR '':'' # p) = Inr (h, p, True, False)"
proof -
  note hs = hostname_no_sep [OF assms(2)] and ps = hostname_no_sep [OF assms(4)]
  then have "filter (\<lambda>x. x = CHR '':'') h = []" "filter (\<lambda>x. x = CHR '':'') p = []"
    by (auto simp: filter_empty_conv)
  moreover have "\<not> prefix ''['' (h @ CHR '':'' # p)" using assms(1) hs by (cases h) auto
  ultimately show ?thesis
    using assms hs ps by (simp add: splitWebhookAuthority_def count_byte_def cut_yes)
qed

lemma split_unbracketed:
  assumes "splitWebhookAuthority a = Inr (host, port, hasPort, bracketed)" and "\<not> prefix ''['' a"
  shows "\<not> bracketed" and "CHR '':'' \<notin> set host"
proof -
  show "\<not> bracketed"
    using assms by (auto simp: splitWebhookAuthority_def split: if_splits prod.splits)
  have none: "count_byte CHR '':'' a = 0 \<Longrightarrow> CHR '':'' \<notin> set a"
    by (auto simp: count_byte_def filter_empty_conv)
  have "cut_at CHR '':'' a = (h, p, f) \<Longrightarrow> CHR '':'' \<notin> set h" for h p f
    by (cases f) (simp_all add: cut_found cut_absent)
  with none assms show "CHR '':'' \<notin> set host"
    by (simp add: splitWebhookAuthority_def split: if_splits prod.splits)
qed

lemma canonical_host_fixed:
  assumes h: "canonicalWebhookHost uc host False = Inr h" and nc: "CHR '':'' \<notin> set host"
  shows "h \<noteq> [] \<and> list_all hostname_byte h \<and> canonicalWebhookHost uc h False = Inr h"
proof (cases "ParseAddr host")
  case None
  with h have v: "validWebhookAuthorityHostname host" and hl: "h = to_lower uc host"
    by (auto simp: canonicalWebhookHost_def split: if_splits)
  have asc: "list_all is_ascii host"
    using v by (auto simp: validWebhookAuthorityHostname_def list_all_iff hostname_byte_class)
  then have hm: "h = map ascii_lower host" by (simp add: hl to_lower_ascii)
  have ok: "list_all hostname_byte h" "h \<noteq> []"
    using v by (auto simp: hm validWebhookAuthorityHostname_def list_all_iff hostname_byte_class)
  have "to_lower uc h = h" using to_lower_ascii_idem [OF asc, of uc] by (simp add: hl)
  with ok None ParseAddr_lower [OF nc] show ?thesis
    by (simp add: hm canonicalWebhookHost_def validWebhookAuthorityHostname_def)
next
  case (Some a)
  with ParseAddr_no_colon [OF nc Some] obtain fs where a: "a = Addr4 fs" and fs: "parse_v4_fields host = Some fs"
    by auto
  with h Some have hd: "h = dotted fs" by (simp add: canonicalWebhookHost_def)
  from parse_v4_bounds [OF fs] have "length fs = 4" and "list_all (\<lambda>x. x \<le> 255) fs" by auto
  from ParseAddr_dotted [OF this] have pa: "ParseAddr (dotted fs) = Some (Addr4 fs)" .
  then have "dotted fs \<noteq> []" by (auto simp: ParseAddr_def simp del: dotted.simps)
  with pa dotted_hostname [of fs] show ?thesis
    by (simp add: hd canonicalWebhookHost_def del: dotted.simps)
qed

lemma hostname_trim: "list_all authority_byte s \<Longrightarrow> trim_space s = s"
  by (rule trim_space_all_visible) (auto elim!: list_all_mono dest: authority_byte_line)

lemma canonical_authority_fixed:
  assumes "canonicalWebhookAuthority uc a = Inr c" and "\<not> prefix ''['' a"
  shows "canonicalWebhookAuthority uc c = Inr c"
proof -
  from assms(1) obtain host port hasPort b h where
    sp: "splitWebhookAuthority a = Inr (host, port, hasPort, b)" and
    ho: "canonicalWebhookHost uc host b = Inr h" and
    c: "c = (if hasPort then h @ '':'' @ format_nat (the (parse_uint 16 port)) else h)" and
    pu: "hasPort \<longrightarrow> parse_uint 16 port \<noteq> None"
    by (fastforce simp: canonicalWebhookAuthority_def split: if_splits option.splits)
  note b = split_unbracketed [OF sp assms(2)]
  from canonical_host_fixed [of uc host h] ho b
  have h: "h \<noteq> []" "list_all hostname_byte h" "canonicalWebhookHost uc h False = Inr h" by auto
  have tr: "trim_space c = c" by (rule hostname_trim [OF canonicalWebhookAuthority_bytes [OF assms(1)]])
  show ?thesis
  proof (cases hasPort)
    case False
    with h tr c split_host_only [OF h(1,2)] show ?thesis by (simp add: canonicalWebhookAuthority_def)
  next
    case True
    with pu obtain n where n: "parse_uint 16 port = Some n" by auto
    with c True have c': "c = h @ CHR '':'' # format_nat n" by simp
    have "splitWebhookAuthority c = Inr (h, format_nat n, True, False)"
      unfolding c' using h format_nat_digits by (intro split_host_port format_nat_hostname) auto
    with h tr parse_uint_format [OF parse_uint_bound [OF n]] show ?thesis
      by (simp add: canonicalWebhookAuthority_def) (simp add: c')
  qed
qed

section \<open>The transcript determines what was signed\<close>

lemma V3_fields:
  assumes "CanonicalWebhookRequestV3 uc a m t ts n i b = Inr c"
  obtains a' where "canonicalWebhookAuthority uc a = Inr a'" and "CHR 0x0A \<notin> set a'"
    and "c = join [CHR 0x0A] [SignatureVersionV3, a', to_upper uc m, t, ts, n, i, to_lower uc b]"
  using assms canonicalWebhookAuthority_bytes authority_byte_line
  by (fastforce simp: CanonicalWebhookRequestV3_def list_all_iff)


lemma example_authority: "canonicalWebhookAuthority uc ''Hub.local:080'' = Inr ''hub.local:80''"
proof -
  have "ParseAddr ''Hub.local'' = None"
    by (simp add: ParseAddr_def parse_v4_fields_def is_digit_def less_eq_char_def)
  moreover have "list_all hostname_byte ''Hub.local''" by (simp add: hostname_byte_def is_lower_def is_upper_def is_digit_def less_eq_char_def)
  moreover have "to_lower uc ''Hub.local'' = ''hub.local''"
    by (simp add: to_lower_ascii is_ascii_def ascii_lower_def is_upper_def less_eq_char_def char_of_nat_eq)
  ultimately have "canonicalWebhookHost uc ''Hub.local'' False = Inr ''hub.local''"
    by (simp add: canonicalWebhookHost_def validWebhookAuthorityHostname_def)
  moreover have "splitWebhookAuthority ''Hub.local:080'' = Inr (''Hub.local'', ''080'', True, False)"
    by (simp add: splitWebhookAuthority_def count_byte_def)
  moreover have "trim_space ''Hub.local:080'' = ''Hub.local:080''"
    by (rule trim_space_all_visible) (simp add: is_visible_def)
  moreover have "parse_uint 16 ''080'' = Some 80"
    by (simp add: parse_uint_def is_digit_def less_eq_char_def digits_val_def digit_val_def)
  moreover have "format_nat 80 = ''80''" by (simp add: format_nat.simps char_of_nat_eq)
  ultimately show ?thesis by (simp add: canonicalWebhookAuthority_def)
qed

text \<open>
  The canonical form of an authority that is a host name or a dotted IPv4 address, with or
  without a port, consists of visible bytes and is a fixed point of canonicalisation, so signer
  and verifier may canonicalise any number of times.
\<close>

theorem canonical_authority_stable:
  assumes "canonicalWebhookAuthority uc a = Inr c" and "\<not> prefix ''['' a"
  shows "canonicalWebhookAuthority uc c = Inr c \<and> list_all is_visible c"
  using canonical_authority_fixed [OF assms] canonicalWebhookAuthority_bytes [OF assms(1)]
  by (auto simp: authority_byte_line elim!: list_all_mono)



end
