(* ===== verification/Go_Http.thy ===== *)
theory Go_Http
  imports Go_Strings
begin

text \<open>
  What the program uses of \<open>net/http\<close> and \<open>net/url\<close>: header maps with canonical keys, the
  request URI of a URL and request bodies read under a size limit. A header map is an association
  list whose order stands for one of the orders a \<open>range\<close> loop over the map may take.
\<close>

section \<open>Headers\<close>

type_synonym header = "(string \<times> string list) list"

definition token_byte :: "char \<Rightarrow> bool" where
  "token_byte c \<longleftrightarrow> is_alnum c \<or> c \<in> set ''!#$%&*+-.^_`|~'' \<or> c = CHR 0x27"

text \<open>\<open>http.CanonicalHeaderKey\<close>; the flag is \<open>upper\<close>.\<close>

fun canonical_key_from :: "bool \<Rightarrow> string \<Rightarrow> string" where
  "canonical_key_from upper [] = []"
| "canonical_key_from upper (c # cs) =
     (if upper then ascii_upper c else ascii_lower c) # canonical_key_from (c = CHR ''-'') cs"

definition CanonicalHeaderKey :: "string \<Rightarrow> string" where
  "CanonicalHeaderKey s = (if list_all token_byte s then canonical_key_from True s else s)"

fun header_lookup :: "header \<Rightarrow> string \<Rightarrow> string list" where
  "header_lookup [] k = []"
| "header_lookup ((k', vs) # h) k = (if k' = k then vs else header_lookup h k)"

fun header_update :: "header \<Rightarrow> string \<Rightarrow> string list \<Rightarrow> header" where
  "header_update [] k vs = [(k, vs)]"
| "header_update ((k', vs') # h) k vs = (if k' = k then (k, vs) # h else (k', vs') # header_update h k vs)"

definition header_Values :: "header \<Rightarrow> string \<Rightarrow> string list" where
  "header_Values h k = header_lookup h (CanonicalHeaderKey k)"

definition header_Get :: "header \<Rightarrow> string \<Rightarrow> string" where
  "header_Get h k = (case header_Values h k of [] \<Rightarrow> [] | v # _ \<Rightarrow> v)"

definition header_Set :: "header \<Rightarrow> string \<Rightarrow> string \<Rightarrow> header" where
  "header_Set h k v = header_update h (CanonicalHeaderKey k) [v]"

definition header_Del :: "header \<Rightarrow> string \<Rightarrow> header" where
  "header_Del h k = filter (\<lambda>(k', _). k' \<noteq> CanonicalHeaderKey k) h"

text \<open>\<open>maps.DeleteFunc(header, p)\<close> for a predicate on keys.\<close>

definition header_delete_func :: "(string \<Rightarrow> bool) \<Rightarrow> header \<Rightarrow> header" where
  "header_delete_func p h = filter (\<lambda>(k, _). \<not> p k) h"

section \<open>URLs\<close>

text \<open>\<open>url_path\<close> is the escaped path, the result of \<open>URL.EscapedPath\<close>.\<close>

record url =
  url_scheme :: string
  url_opaque :: string
  url_host :: string
  url_path :: string
  url_force_query :: bool
  url_query :: string

definition RequestURI :: "url \<Rightarrow> string" where
  "RequestURI u =
     (let base =
        (if url_opaque u = [] then (if url_path u = [] then ''/'' else url_path u)
         else if prefix ''//'' (url_opaque u) then url_scheme u @ '':'' @ url_opaque u
         else url_opaque u)
      in if url_force_query u \<or> url_query u \<noteq> [] then base @ CHR ''?'' # url_query u else base)"

section \<open>Bodies\<close>

text \<open>
  The error at the end of a failed read, as far as \<open>errors.AsType\<close> and \<open>errors.Is\<close> tell such
  errors apart: the size limit, a context deadline, a \<open>net.Error\<close> with its \<open>Timeout\<close> flag, other.
\<close>

datatype read_error = MaxBytesError | DeadlineExceeded | NetError bool | ReadFailed

text \<open>A body: the bytes it delivers, the error it ends with (\<open>None\<close>: end of file), the error of \<open>Close\<close>.\<close>

record body_stream =
  body_data :: bytes
  body_end :: "read_error option"
  body_close :: "read_error option"

text \<open>\<open>io.ReadAll(http.MaxBytesReader(w, body, limit))\<close>: one byte past the limit is an error.\<close>

definition read_all_max :: "body_stream \<Rightarrow> int \<Rightarrow> (read_error, bytes) result" where
  "read_all_max b limit =
     (if max 0 limit < int (length (body_data b)) then Inl MaxBytesError
      else case body_end b of Some e \<Rightarrow> Inl e | None \<Rightarrow> Inr (body_data b))"

text \<open>A body that delivers the given bytes and closes without error.\<close>

definition body_of :: "bytes \<Rightarrow> body_stream" where
  "body_of bs = \<lparr>body_data = bs, body_end = None, body_close = None\<rparr>"

text \<open>The fields of \<open>http.Request\<close> the program reads or writes; \<open>req_ctx_done\<close> is \<open>Context().Err() != nil\<close>.\<close>

record http_request =
  req_method :: string
  req_url :: "url option"
  req_host :: string
  req_header :: header
  req_body :: body_stream
  req_get_body :: "body_stream option"
  req_content_length :: int
  req_ctx_done :: bool

section \<open>Laws of header maps\<close>

lemma header_lookup_update [simp]:
  "header_lookup (header_update h k vs) k' = (if k' = k then vs else header_lookup h k')"
  by (induction h k vs rule: header_update.induct) auto

lemma header_Get_Set [go_simps]:
  "header_Get (header_Set h k v) k' =
     (if CanonicalHeaderKey k' = CanonicalHeaderKey k then v else header_Get h k')"
  by (simp add: header_Get_def header_Values_def header_Set_def)

lemma header_Values_Set [go_simps]:
  "header_Values (header_Set h k v) k' =
     (if CanonicalHeaderKey k' = CanonicalHeaderKey k then [v] else header_Values h k')"
  by (simp add: header_Values_def header_Set_def)

lemma header_lookup_delete:
  "header_lookup (header_delete_func p h) k = (if p k then [] else header_lookup h k)"
  by (induction h) (auto simp: header_delete_func_def split: if_splits)

lemma header_Values_delete:
  "header_Values (header_delete_func p h) k = (if p (CanonicalHeaderKey k) then [] else header_Values h k)"
  by (simp add: header_Values_def header_lookup_delete)

text \<open>Evaluating canonical keys of literals.\<close>

lemmas canonical_key_eval =
  CanonicalHeaderKey_def token_byte_def is_alnum_def is_lower_def is_upper_def is_digit_def
  ascii_upper_def ascii_lower_def less_eq_char_def char_of_nat_eq

end
