(* ===== verification/Signing.thy ===== *)
theory Signing
  imports Irishmac Go_Http
begin

text \<open>
  Signing of client requests (\<open>internal/client/signing\<close>, \<open>internal/client/randomhex\<close>). The
  bytes read from \<open>crypto/rand\<close>, the clock reading in milliseconds and the pool's choice are
  arguments. The lemmas show the shape of nonces, that the four headers a request carries verify
  under the secret, and that a target with a repeated query key is refused before anything is set.
\<close>

section \<open>Random hexadecimal strings and nonces\<close>

text \<open>\<open>random\<close> holds the bytes \<open>rand.Read\<close> stored: sixteen here, thirty-two for a nonce.\<close>

definition Generate :: "bytes \<Rightarrow> string" where
  "Generate random = hex_encode (take 16 random)"

text \<open>
  \<open>copy(nonce[:32], epoch)\<close> into a zeroed array of 97 bytes, then a dot and the 64 digits: a
  shorter epoch leaves zero bytes, a longer one is cut.
\<close>

definition GenerateNonce :: "bytes \<Rightarrow> string \<Rightarrow> string" where
  "GenerateNonce random epoch =
     (let prefix32 = take 32 epoch @ replicate (32 - length (take 32 epoch)) (CHR 0x00)
      in prefix32 @ CHR ''.'' # hex_encode (take 32 random))"

section \<open>Signatures and headers\<close>

definition SignIrisCanonicalWithSigner ::
  "ucase \<Rightarrow> nat option \<Rightarrow> Signer \<Rightarrow> string \<Rightarrow> string \<Rightarrow> string \<Rightarrow> string \<Rightarrow> string
     \<Rightarrow> (target_error, string \<times> Signer) result" where
  "SignIrisCanonicalWithSigner uc choice signer method path timestamp nonce bodySHA256 =
     and_then (CanonicalRequestTarget path) (\<lambda>target.
       Inr (Sign choice signer (CanonicalRequest uc method target timestamp nonce bodySHA256)))"

text \<open>On an error the request's headers stay as they were.\<close>

definition SetIrisHMACHeaders ::
  "ucase \<Rightarrow> nat option \<Rightarrow> int \<Rightarrow> bytes \<Rightarrow> header \<Rightarrow> Signer \<Rightarrow> string \<Rightarrow> string \<Rightarrow> string \<Rightarrow> string
     \<Rightarrow> (target_error, header \<times> Signer) result" where
  "SetIrisHMACHeaders uc choice nowMs random hdr signer method path bodySHA256 epoch =
     (let timestamp = format_int nowMs; nonce = GenerateNonce random epoch in
      and_then (SignIrisCanonicalWithSigner uc choice signer method path timestamp nonce bodySHA256)
        (\<lambda>(signature, signer').
           let h1 = header_Set hdr HeaderIrisTimestamp timestamp;
               h2 = header_Set h1 HeaderIrisNonce nonce;
               h3 = header_Set h2 HeaderIrisSignature signature;
               h4 = header_Set h3 HeaderIrisBodySHA256 bodySHA256
           in Inr (h4, signer')))"

section \<open>Header names\<close>

text \<open>The names the program uses are canonical keys and pairwise different.\<close>

lemma canonical_header_names [simp]:
  "CanonicalHeaderKey HeaderIrisTimestamp = HeaderIrisTimestamp"
  "CanonicalHeaderKey HeaderIrisNonce = HeaderIrisNonce"
  "CanonicalHeaderKey HeaderIrisSignature = HeaderIrisSignature"
  "CanonicalHeaderKey HeaderIrisBodySHA256 = HeaderIrisBodySHA256"
  "CanonicalHeaderKey HeaderIrisMessageID = HeaderIrisMessageID"
  "CanonicalHeaderKey HeaderIrisSignatureVersion = HeaderIrisSignatureVersion"
  by (simp_all add: header_names canonical_key_eval)

lemma header_names_distinct:
  "distinct [HeaderIrisTimestamp, HeaderIrisNonce, HeaderIrisSignature, HeaderIrisBodySHA256,
     HeaderIrisMessageID, HeaderIrisSignatureVersion]"
  by (simp add: header_names)

lemma header_names_distinct_rev:
  "distinct [HeaderIrisSignatureVersion, HeaderIrisMessageID, HeaderIrisBodySHA256, HeaderIrisSignature,
     HeaderIrisNonce, HeaderIrisTimestamp]"
  by (simp add: header_names)

lemmas header_names_neq [simp] =
  header_names_distinct [simplified] header_names_distinct_rev [simplified]

section \<open>What a signed client request carries\<close>

lemma GenerateNonce_full:
  "length epoch = 32 \<Longrightarrow> length random = 32 \<Longrightarrow> GenerateNonce random epoch = epoch @ CHR ''.'' # hex_encode random"
  by (simp add: GenerateNonce_def)

text \<open>
  A nonce made for an epoch of 32 bytes is that epoch, a dot and 64 hexadecimal digits that
  determine the 32 random bytes, so nonces of different randomness or epoch differ.
\<close>

theorem generate_nonce_shape:
  assumes "length epoch = 32" and "length random = 32"
  shows "GenerateNonce random epoch = epoch @ CHR ''.'' # hex_encode random \<and>
    length (GenerateNonce random epoch) = 97 \<and>
    (\<forall>epoch' random'. length epoch' = 32 \<and> length random' = 32 \<and>
       GenerateNonce random' epoch' = GenerateNonce random epoch \<longrightarrow> epoch' = epoch \<and> random' = random)"
  using assms by (auto simp: GenerateNonce_full hex_encode_inj)


lemma SetIrisHMACHeaders_result:
  assumes "signer_ok secret signer held" and "CanonicalRequestTarget path = Inr target"
  shows "\<exists>signer'. SetIrisHMACHeaders uc choice nowMs random hdr signer method path bodySHA256 epoch =
    Inr (header_Set (header_Set (header_Set (header_Set hdr HeaderIrisTimestamp (format_int nowMs))
      HeaderIrisNonce (GenerateNonce random epoch)) HeaderIrisSignature
      (hex_encode (hmac_sha256 secret
        (CanonicalRequest uc method target (format_int nowMs) (GenerateNonce random epoch) bodySHA256))))
      HeaderIrisBodySHA256 bodySHA256, signer')"
proof -
  let ?c = "CanonicalRequest uc method target (format_int nowMs) (GenerateNonce random epoch) bodySHA256"
  have "Sign choice signer ?c = (hex_encode (hmac_sha256 secret ?c), snd (Sign choice signer ?c))"
    using Sign_ok [OF assms(1), of choice ?c] by (simp add: prod_eq_iff)
  then show ?thesis
    unfolding SetIrisHMACHeaders_def SignIrisCanonicalWithSigner_def assms(2) Let_def and_then.simps
    by (metis (no_types, lifting) case_prod_conv)
qed

text \<open>
  C17: signing a client request either reports that its target cannot be canonicalised or sets
  exactly the four authentication headers, and then the signature header is the HMAC, under the
  signer's secret, of the transcript rebuilt from the method, the canonical target and the other
  three headers; every other header is left alone. This holds in every reachable signer state.
\<close>

theorem signed_headers_verify:
  assumes reach: "signer_reach secret signer held"
    and result: "SetIrisHMACHeaders uc choice nowMs random hdr signer method path bodySHA256 epoch = Inr (hdr', signer')"
  shows "\<exists>target. CanonicalRequestTarget path = Inr target \<and>
    header_Get hdr' HeaderIrisSignature = hex_encode (hmac_sha256 secret (CanonicalRequest uc method target
      (header_Get hdr' HeaderIrisTimestamp) (header_Get hdr' HeaderIrisNonce) (header_Get hdr' HeaderIrisBodySHA256))) \<and>
    header_Get hdr' HeaderIrisTimestamp = format_int nowMs \<and>
    header_Get hdr' HeaderIrisNonce = GenerateNonce random epoch \<and>
    header_Get hdr' HeaderIrisBodySHA256 = bodySHA256 \<and>
    (\<forall>k. CanonicalHeaderKey k \<notin> {HeaderIrisTimestamp, HeaderIrisNonce, HeaderIrisSignature, HeaderIrisBodySHA256}
       \<longrightarrow> header_Values hdr' k = header_Values hdr k)"
proof -
  from result obtain target where target: "CanonicalRequestTarget path = Inr target"
    by (auto simp: SetIrisHMACHeaders_def SignIrisCanonicalWithSigner_def Let_def)
  from SetIrisHMACHeaders_result [OF signer_reach_ok [OF reach] target, of "uc" "choice" "nowMs" "random" "hdr" "method" "bodySHA256" "epoch"] result
  have "hdr' = header_Set (header_Set (header_Set (header_Set hdr HeaderIrisTimestamp (format_int nowMs))
      HeaderIrisNonce (GenerateNonce random epoch)) HeaderIrisSignature
      (hex_encode (hmac_sha256 secret
        (CanonicalRequest uc method target (format_int nowMs) (GenerateNonce random epoch) bodySHA256))))
      HeaderIrisBodySHA256 bodySHA256"
    by auto
  then show ?thesis
    by (intro exI [of _ target]) (simp add: target header_Get_Set header_Values_Set)
qed

text \<open>
  A target with a malformed query or a repeated decoded query key is refused with that error
  and no header is set.
\<close>

theorem signing_refuses_bad_target:
  "SetIrisHMACHeaders uc choice nowMs random hdr signer method path bodySHA256 epoch = Inl e
     \<longleftrightarrow> CanonicalRequestTarget path = Inl e"
  by (cases "CanonicalRequestTarget path")
    (auto simp: SetIrisHMACHeaders_def SignIrisCanonicalWithSigner_def Let_def split: prod.splits)

theorem signed_headers_verify_witness:
  "\<exists>hdr'. header_Get hdr' HeaderIrisBodySHA256 = EmptyBodySHA256Hex \<and>
     header_Get hdr' HeaderIrisSignature = hex_encode (hmac_sha256 ''secret''
       (CanonicalRequest ascii_case ''GET'' ''/rooms'' (header_Get hdr' HeaderIrisTimestamp)
          (header_Get hdr' HeaderIrisNonce) (header_Get hdr' HeaderIrisBodySHA256)))"
proof -
  have target: "CanonicalRequestTarget ''/rooms'' = Inr ''/rooms''"
    by (simp add: CanonicalRequestTarget_def canonicalTarget_def)
  from SetIrisHMACHeaders_result [OF signer_reach_ok [OF sr_new] target]
  obtain hdr' signer' where res: "SetIrisHMACHeaders ascii_case None 1700000000000 (replicate 32 (CHR ''r''))
      [] (NewSigner ''secret'') ''GET'' ''/rooms'' EmptyBodySHA256Hex (replicate 32 (CHR ''e'')) = Inr (hdr', signer')"
    by blast
  from signed_headers_verify [OF sr_new res] target show ?thesis by auto
qed

end
