(* ===== verification/Go_Mime.thy ===== *)
theory Go_Mime
  imports Go_Strings
begin

text \<open>
  \<open>mime.ParseMediaType\<close>, as far as the program observes it: the lower-cased media type and
  whether the value parses. Parameters are read with their syntax, quoted strings included, and a
  name given twice with different values is an error; their decoded values are not needed.
\<close>

definition is_tspecial :: "char \<Rightarrow> bool" where
  "is_tspecial c \<longleftrightarrow> c \<in> set ''()<>@,;:/[]?='' \<or> c = CHR 0x5C \<or> c = CHR 0x22"

definition mime_token_byte :: "char \<Rightarrow> bool" where
  "mime_token_byte c \<longleftrightarrow> 0x20 < byte_val c \<and> byte_val c < 0x7F \<and> \<not> is_tspecial c"

definition consumeToken :: "string \<Rightarrow> string \<times> string" where
  "consumeToken v = (takeWhile mime_token_byte v, dropWhile mime_token_byte v)"

text \<open>The loop of \<open>consumeValue\<close> after the opening quote; \<open>None\<close> when no closing quote is found.\<close>

fun consume_quoted :: "string \<Rightarrow> string \<Rightarrow> (string \<times> string) option" where
  "consume_quoted acc [] = None"
| "consume_quoted acc (c # cs) =
     (if c = CHR 0x22 then Some (acc, cs)
      else if c = CHR 0x5C \<and> cs \<noteq> [] \<and> is_tspecial (hd cs) then
        (case cs of d # r \<Rightarrow> consume_quoted (acc @ [d]) r | [] \<Rightarrow> None)
      else if c = CHR 0x0D \<or> c = CHR 0x0A then None
      else consume_quoted (acc @ [c]) cs)"

definition consumeValue :: "string \<Rightarrow> string \<times> string" where
  "consumeValue v =
     (case v of
        [] \<Rightarrow> ([], [])
      | c # cs \<Rightarrow>
          if c \<noteq> CHR 0x22 then consumeToken v
          else (case consume_quoted [] cs of None \<Rightarrow> ([], v) | Some r \<Rightarrow> r))"

text \<open>\<open>consumeMediaParam\<close>; \<open>None\<close> is the empty parameter name, which leaves the input as it was.\<close>

definition consumeMediaParam :: "ucase \<Rightarrow> string \<Rightarrow> (string \<times> string \<times> string) option" where
  "consumeMediaParam uc v =
     (let r0 = trim_left v in
      if \<not> prefix '';'' r0 then None
      else case consumeToken (trim_left (drop 1 r0)) of (param, r1) \<Rightarrow>
        if param = [] then None
        else let r2 = trim_left r1 in
          if \<not> prefix ''='' r2 then None
          else let r3 = trim_left (drop 1 r2) in
            case consumeValue r3 of (v', r4) \<Rightarrow>
              if v' = [] \<and> r4 = r3 then None else Some (to_lower uc param, v', r4))"

text \<open>
  The parameter loop, with the pairs read so far. The parameter consumed is never empty, so the
  input shrinks; \<open>fuel\<close> is the input's length.
\<close>

fun media_params :: "ucase \<Rightarrow> nat \<Rightarrow> string \<Rightarrow> (string \<times> string) list \<Rightarrow> bool" where
  "media_params uc fuel v seen =
     (let v = trim_left v in
      if v = [] then True
      else case fuel of
        0 \<Rightarrow> False
      | Suc fuel' \<Rightarrow>
          (case consumeMediaParam uc v of
             None \<Rightarrow> trim_space v = '';''
           | Some (k, x, rest) \<Rightarrow>
               (case map_of seen k of
                  Some y \<Rightarrow> if y \<noteq> x then False else media_params uc fuel' rest seen
                | None \<Rightarrow> media_params uc fuel' rest ((k, x) # seen))))"

declare media_params.simps [simp del]

definition checkMediaTypeDisposition :: "string \<Rightarrow> bool" where
  "checkMediaTypeDisposition s =
     (case consumeToken s of (typ, rest) \<Rightarrow>
        if typ = [] then False
        else if rest = [] then True
        else if \<not> prefix ''/'' rest then False
        else case consumeToken (drop 1 rest) of (subtype, rest') \<Rightarrow> subtype \<noteq> [] \<and> rest' = [])"

definition ParseMediaType :: "ucase \<Rightarrow> string \<Rightarrow> string option" where
  "ParseMediaType uc v =
     (case cut_at CHR '';'' v of (base, _, _) \<Rightarrow>
        let mediatype = trim_space (to_lower uc base) in
        if \<not> checkMediaTypeDisposition mediatype then None
        else if media_params uc (length v) (drop (length base) v) [] then Some mediatype else None)"

section \<open>The fuel is enough\<close>

lemma trim_left_length: "length (trim_left s) \<le> length s"
  using strip_prefixes_suffix [of space_encodings s] by (auto simp: trim_left_def dest: suffix_length_le)

lemma consume_quoted_length: "consume_quoted acc s = Some (v, r) \<Longrightarrow> length r < length s"
  by (induction acc s rule: consume_quoted.induct) (fastforce split: if_splits list.splits)+

lemma consumeToken_length: "consumeToken v = (t, r) \<Longrightarrow> length t + length r = length v"
  by (metis Pair_inject consumeToken_def length_append takeWhile_dropWhile_id)

lemma consumeValue_length: "consumeValue v = (x, r) \<Longrightarrow> length r \<le> length v"
  by (auto simp: consumeValue_def split: list.splits if_splits option.splits
      dest!: consume_quoted_length consumeToken_length)

lemma consumeMediaParam_length:
  assumes "consumeMediaParam uc v = Some (k, x, r)"
  shows "length r < length v"
proof -
  obtain param r1 where tok: "consumeToken (trim_left (drop 1 (trim_left v))) = (param, r1)" by fastforce
  obtain v' r4 where val: "consumeValue (trim_left (drop 1 (trim_left r1))) = (v', r4)" by fastforce
  have pre: "trim_left v \<noteq> []" and r: "r = r4"
    using assms tok val by (auto simp: consumeMediaParam_def Let_def split: if_splits)
  have "length r4 \<le> length r1"
    using consumeValue_length [OF val] trim_left_length [of "drop 1 (trim_left r1)"] trim_left_length [of r1] by simp
  moreover have "length r1 \<le> length (drop 1 (trim_left v))"
    using consumeToken_length [OF tok] trim_left_length [of "drop 1 (trim_left v)"] by simp
  ultimately show ?thesis
    using pre trim_left_length [of v] by (cases "trim_left v") (auto simp: r)
qed

lemma media_params_fuel:
  "length v \<le> n \<Longrightarrow> n \<le> m \<Longrightarrow> media_params uc n v seen = media_params uc m v seen"
proof (induction n arbitrary: m v seen)
  case 0
  then have "trim_left v = []" using trim_left_length [of v] by simp
  then show ?case by (simp add: media_params.simps [of uc 0] media_params.simps [of uc m])
next
  case (Suc n)
  then obtain m' where m: "m = Suc m'" "n \<le> m'" by (cases m) auto
  have "consumeMediaParam uc (trim_left v) = Some (k, x, r) \<Longrightarrow> length r \<le> n" for k x r
    using consumeMediaParam_length [of uc "trim_left v" k x r] trim_left_length [of v] Suc.prems(1) by simp
  then show ?case
    using Suc.IH [OF _ m(2)]
    by (auto simp: media_params.simps [of uc "Suc n"] media_params.simps [of uc "Suc m'"] m(1) Let_def split: option.splits)
qed

end
