(* ===== verification/Nonce_Store.thy ===== *)
theory Nonce_Store
  imports Iris_Prelude
begin

text \<open>
  The set-once nonce store a webhook handler relies on (\<open>webhook/nonce.go\<close>) and its Valkey
  implementation (\<open>valkeydedup/valkeydedup.go\<close>). The contract is the locale \<open>set_once_store\<close>;
  what the implementation relies on of a Valkey server, the documented behaviour of
  \<open>SET key value NX PX ms\<close>, is the locale \<open>valkey_server\<close>, and the sublocale proof shows that the
  implementation turns the one into the other.
\<close>

section \<open>The contract\<close>

text \<open>
  \<open>isDuplicate st now key ttl\<close> returns an error (\<open>Inl\<close>) or whether the key was seen, with the next
  state. \<open>recorded st key t\<close>: the store still knows the key at time \<open>t\<close>. \<open>covered ttl\<close> is the period
  for which a record made with that time to live is guaranteed to last.
\<close>

type_synonym ('st, 'e) nonce_store = "'st \<Rightarrow> instant \<Rightarrow> string \<Rightarrow> duration \<Rightarrow> ('e, bool) result \<times> 'st"

text \<open>A sequence of calls, each with its time, key and time to live: the answers and the final state.\<close>

fun run_store :: "('st, 'e) nonce_store \<Rightarrow> 'st \<Rightarrow> (instant \<times> string \<times> duration) list \<Rightarrow> ('e, bool) result list \<times> 'st" where
  "run_store isDup st [] = ([], st)"
| "run_store isDup st ((now, key, ttl) # calls) =
     (case isDup st now key ttl of (r, st') \<Rightarrow>
        case run_store isDup st' calls of (rs, st'') \<Rightarrow> (r # rs, st''))"

locale set_once_store =
  fixes isDuplicate :: "('st, 'e) nonce_store"
    and recorded :: "'st \<Rightarrow> string \<Rightarrow> instant \<Rightarrow> bool"
    and covered :: "duration \<Rightarrow> duration"
  assumes fresh_recorded:
      "isDuplicate st now key ttl = (Inr False, st') \<Longrightarrow> now \<le> t \<Longrightarrow> t \<le> now + covered ttl \<Longrightarrow> recorded st' key t"
    and recorded_refused: "recorded st key now \<Longrightarrow> fst (isDuplicate st now key ttl) \<noteq> Inr False"
    and recorded_kept:
      "recorded st key t \<Longrightarrow> now \<le> t \<Longrightarrow> recorded (snd (isDuplicate st now key' ttl)) key t"
begin

lemma run_keeps:
  assumes "recorded st key t" and "\<forall>(now, k, ttl) \<in> set calls. now \<le> t"
  shows "recorded (snd (run_store isDuplicate st calls)) key t"
  using assms
proof (induction calls arbitrary: st)
  case (Cons c calls)
  obtain now k ttl where c: "c = (now, k, ttl)" by (cases c)
  have "recorded (snd (isDuplicate st now k ttl)) key t"
    using recorded_kept Cons.prems c by auto
  with Cons.prems have "recorded (snd (run_store isDuplicate (snd (isDuplicate st now k ttl)) calls)) key t"
    by (intro Cons.IH) auto
  then show ?case by (simp add: c split_beta)
qed simp

text \<open>After one fresh answer the key is refused for the covered period, whatever happens between.\<close>

lemma fresh_once:
  assumes "isDuplicate st now key ttl = (Inr False, st')"
    and "\<forall>(now', k, ttl') \<in> set calls. now' \<le> later"
    and "now \<le> later" and "later \<le> now + covered ttl"
  shows "fst (isDuplicate (snd (run_store isDuplicate st' calls)) later key ttl2) \<noteq> Inr False"
  using fresh_recorded [OF assms(1,3,4)] run_keeps [OF _ assms(2)] recorded_refused by blast

end

section \<open>Valkey\<close>

text \<open>The replies to \<open>SET NX\<close>: OK, nil (the key exists), or an error of the server or the connection.\<close>

datatype valkey_reply = ReplyOK | ReplyNil | ReplyError

text \<open>\<open>set_nx_px db now_ms key value px\<close>: the command at a server clock in milliseconds.\<close>

type_synonym 'db valkey_set = "'db \<Rightarrow> int \<Rightarrow> string \<Rightarrow> string \<Rightarrow> int \<Rightarrow> valkey_reply \<times> 'db"

definition flooredTTL :: "duration \<Rightarrow> duration" where
  "flooredTTL ttl = max ttl Millisecond"

text \<open>
  \<open>IsDuplicate\<close> of \<open>valkeydedup.NonceStore\<close>. The client library sends a \<open>PX\<close> argument in whole
  milliseconds. The server reads its clock when it executes the command.
\<close>

definition IsDuplicate :: "'db valkey_set \<Rightarrow> ('db, unit) nonce_store" where
  "IsDuplicate set_nx_px db now key ttl =
     (case set_nx_px db (now div Millisecond) key ''1'' (flooredTTL ttl div Millisecond) of
        (ReplyNil, db') \<Rightarrow> (Inr True, db')
      | (ReplyError, db') \<Rightarrow> (Inl (), db')
      | (ReplyOK, db') \<Rightarrow> (Inr False, db'))"

text \<open>
  What is documented of the server: OK is given for a positive expiry and then the key exists
  until that expiry has passed; a key that exists is never overwritten; no other key is touched.
\<close>

locale valkey_server =
  fixes set_nx_px :: "'db valkey_set"
    and exists_at :: "'db \<Rightarrow> string \<Rightarrow> int \<Rightarrow> bool"
  assumes ok_exists:
      "set_nx_px db now key v px = (ReplyOK, db') \<Longrightarrow> now \<le> t \<Longrightarrow> t \<le> now + px \<Longrightarrow> exists_at db' key t"
    and existing_refused: "exists_at db key now \<Longrightarrow> fst (set_nx_px db now key v px) \<noteq> ReplyOK"
    and existing_kept: "exists_at db key t \<Longrightarrow> now \<le> t \<Longrightarrow> exists_at (snd (set_nx_px db now key' v px)) key t"

definition whole_ms :: "duration \<Rightarrow> duration" where
  "whole_ms ttl = flooredTTL ttl div Millisecond * Millisecond"

lemma IsDuplicate_fresh:
  "IsDuplicate f db now key ttl = (Inr False, db') \<longleftrightarrow>
     f db (now div Millisecond) key ''1'' (flooredTTL ttl div Millisecond) = (ReplyOK, db')"
  by (auto simp: IsDuplicate_def split: prod.splits valkey_reply.splits)

lemma IsDuplicate_state:
  "snd (IsDuplicate f db now key ttl) = snd (f db (now div Millisecond) key ''1'' (flooredTTL ttl div Millisecond))"
  by (simp add: IsDuplicate_def split: prod.splits valkey_reply.splits)

lemma whole_ms_div:
  "t \<le> now + whole_ms ttl \<Longrightarrow> t div Millisecond \<le> now div Millisecond + flooredTTL ttl div Millisecond"
  using zdiv_mono1 [of t "now + whole_ms ttl" Millisecond] by (simp add: whole_ms_def Millisecond_def)

sublocale valkey_server \<subseteq> store: set_once_store "IsDuplicate set_nx_px" "\<lambda>db key t. exists_at db key (t div Millisecond)" whole_ms
proof
  show "exists_at db' key (t div Millisecond)"
    if "IsDuplicate set_nx_px db now key ttl = (Inr False, db')" and "now \<le> t" and "t \<le> now + whole_ms ttl"
    for db now key ttl db' t
    using that ok_exists whole_ms_div [OF that(3)] zdiv_mono1 [OF that(2), of Millisecond]
    by (auto simp: IsDuplicate_fresh Millisecond_def)
  show "fst (IsDuplicate set_nx_px db now key ttl) \<noteq> Inr False"
    if "exists_at db key (now div Millisecond)" for db key now ttl
    using existing_refused [OF that] IsDuplicate_fresh by (metis fst_conv prod.exhaust_sel)
  show "exists_at (snd (IsDuplicate set_nx_px db now key' ttl)) key (t div Millisecond)"
    if "exists_at db key (t div Millisecond)" and "now \<le> t" for db key t now key' ttl
    using existing_kept [OF that(1), of "now div Millisecond"] zdiv_mono1 [OF that(2), of Millisecond]
    by (simp add: IsDuplicate_state Millisecond_def)
qed

text \<open>The client's guarantee, for any server of the kind.\<close>

context valkey_server begin

lemmas valkey_fresh_once = store.fresh_once
lemmas valkey_set_once = store.set_once_store_axioms

end

text \<open>
  A keyspace with lazy expiry: each key holds its deadline and is live until the clock has passed
  it. \<open>reachable\<close> is whether commands reach the server.
\<close>

record keyspace =
  deadline :: "string \<Rightarrow> int option"
  reachable :: bool

definition live :: "keyspace \<Rightarrow> string \<Rightarrow> int \<Rightarrow> bool" where
  "live db key now = (case deadline db key of None \<Rightarrow> False | Some w \<Rightarrow> now \<le> w)"

definition keyspace_set :: "keyspace valkey_set" where
  "keyspace_set db now key v px =
     (if \<not> reachable db then (ReplyError, db)
      else if px \<le> 0 then (ReplyError, db)
      else if live db key now then (ReplyNil, db)
      else (ReplyOK, db\<lparr>deadline := (deadline db)(key := Some (now + px))\<rparr>))"

interpretation ks: valkey_server keyspace_set live
  by unfold_locales (auto simp: keyspace_set_def live_def split: if_splits option.splits)

section \<open>Claims\<close>

text \<open>
  C8: on a server that behaves as documented, once the store has answered that a nonce is new,
  every later check of that nonce within the whole milliseconds of the time to live is refused,
  whatever other checks, with whatever lifetimes, come between; and a time to live under a
  millisecond still records the nonce for a millisecond instead of failing the command.
\<close>

theorem nonce_store_set_once:
  assumes "valkey_server set_nx_px exists_at"
    and "IsDuplicate set_nx_px db now key ttl = (Inr False, db')"
    and "\<forall>(now', k, ttl') \<in> set calls. now' \<le> later"
    and "now \<le> later" and "later \<le> now + whole_ms ttl"
  shows "fst (IsDuplicate set_nx_px (snd (run_store (IsDuplicate set_nx_px) db' calls)) later key ttl2) \<noteq> Inr False
    \<and> Millisecond \<le> whole_ms ttl"
proof -
  have "fst (IsDuplicate set_nx_px (snd (run_store (IsDuplicate set_nx_px) db' calls)) later key ttl2) \<noteq> Inr False"
    by (rule valkey_server.valkey_fresh_once [OF assms(1-5)])
  moreover have "1 \<le> flooredTTL ttl div Millisecond"
    using zdiv_mono1 [of Millisecond "flooredTTL ttl" Millisecond] by (simp add: flooredTTL_def Millisecond_def)
  ultimately show ?thesis by (simp add: whole_ms_def Millisecond_def)
qed

theorem nonce_store_set_once_witness:
  "fst (IsDuplicate keyspace_set
     (snd (run_store (IsDuplicate keyspace_set)
        (\<lparr>deadline = (\<lambda>_. None)(''k'' := Some 600000), reachable = True\<rparr>) [(1000, ''other'', Second)]))
     (10 * Minute) ''k'' 1) \<noteq> Inr False \<and> Millisecond \<le> whole_ms (10 * Minute)"
  by (rule nonce_store_set_once [where db = "\<lparr>deadline = \<lambda>_. None, reachable = True\<rparr>" and now = 0,
        OF ks.valkey_server_axioms])
    (simp_all add: IsDuplicate_def keyspace_set_def live_def whole_ms_def flooredTTL_def Millisecond_def Minute_def Second_def)

end
