(* ===== verification/Webhook_Handler.thy ===== *)
theory Webhook_Handler
  imports Webhook_Message Signing Go_Mime Nonce_Store "HOL-Library.Word"
begin

text \<open>
  The webhook handler (\<open>webhook/handler.go\<close>, \<open>handler_options.go\<close>, \<open>metrics.go\<close> and the
  transport half of \<open>handler_validation.go\<close>). A request is served by passing the handler's state
  through the source's functions; the clock readings, the pool's choice and the collaborators
  (nonce store, admitter, JSON decoder, case table) are arguments. The result of \<open>ServeHTTP\<close> is the
  status it writes, the next state and the metrics it observes, in order.
\<close>

section \<open>Collaborators and state\<close>

text \<open>
  Errors of \<open>admitMessage\<close>: the handler is closed, the request context ended, the admitter
  reported \<open>ErrAlreadyAdmitted\<close> (wrapped or not), or any other error of the admitter.
\<close>

datatype admit_error = AdmitClosed | AdmitContextDone | ErrAlreadyAdmitted | AdmitFailed

record ('st, 'ad) backend =
  be_IsDuplicate :: "('st, unit) nonce_store"
  be_AdmitMessage :: "'ad \<Rightarrow> Message \<Rightarrow> bytes \<Rightarrow> admit_error option \<times> 'ad"
  be_Unmarshal :: json_decoder
  be_case :: ucase

text \<open>What one run of \<open>ServeHTTP\<close> reads from outside: its two clock readings and the pool's choice.\<close>

record serve_run =
  at_headers :: instant
  at_nonce :: instant
  pool_choice :: "nat option"

datatype metric =
    ObserveRequest | ObserveUnauthorized | ObserveBadRequest | ObserveDuplicate
  | ObserveEnqueueFailure | ObserveAccepted | ObserveDecodeLatency | ObserveHandlerDuration

record handlerOptions =
  admitTimeout :: duration
  nonceTimeout :: duration
  maxBodyBytes :: int

text \<open>Loggers, metrics sinks and contexts are opaque references; \<open>None\<close> is the default one.\<close>

record ('st, 'ad) Handler =
  h_token :: string
  h_replayWindow :: duration
  h_nonceStore :: "'st option"
  h_webhookSigner :: Signer
  h_admitter :: 'ad
  h_logger :: "nat option"
  h_metrics :: "nat option"
  h_options :: handlerOptions
  h_baseCtx :: "nat option"
  h_closed :: bool
  h_admissions :: nat
  h_runCancelled :: bool
  h_closeDone :: bool
  h_signatureV3Validated :: "64 word"
  h_signatureUnknown :: "64 word"
  h_signatureMalformed :: "64 word"

section \<open>Options and construction\<close>

definition defaultAdmitTimeout :: duration where "defaultAdmitTimeout = 30 * Second"
definition defaultNonceTimeout :: duration where "defaultNonceTimeout = 200 * Millisecond"
definition defaultMaxBodyBytes :: int where "defaultMaxBodyBytes = 1048576"
definition defaultReplayWindow :: duration where "defaultReplayWindow = 5 * Minute"

definition defaultHandlerOptions :: handlerOptions where
  "defaultHandlerOptions =
     \<lparr>admitTimeout = defaultAdmitTimeout, nonceTimeout = defaultNonceTimeout, maxBodyBytes = defaultMaxBodyBytes\<rparr>"

definition normalizeHandlerOptions :: "handlerOptions \<Rightarrow> handlerOptions" where
  "normalizeHandlerOptions opts =
     (let o1 = (if admitTimeout opts \<le> 0 then opts\<lparr>admitTimeout := defaultAdmitTimeout\<rparr> else opts);
          o2 = (if nonceTimeout o1 \<le> 0 then o1\<lparr>nonceTimeout := defaultNonceTimeout\<rparr> else o1)
      in if maxBodyBytes o2 \<le> 0 then o2\<lparr>maxBodyBytes := defaultMaxBodyBytes\<rparr> else o2)"

text \<open>The options; \<open>None\<close> where the caller passes a nil value. \<open>NilOption\<close> is a nil option.\<close>

datatype 'st HandlerOption =
    WithWebhookToken string
  | WithWebhookLogger "nat option"
  | WithContext "nat option"
  | WithMetrics "nat option"
  | WithNonceStore "'st option"
  | WithAdmitTimeout duration
  | WithMaxBodyBytes int
  | WithNonceTimeout duration
  | NilOption

fun apply_option :: "'st HandlerOption \<Rightarrow> ('st, 'ad) Handler \<Rightarrow> ('st, 'ad) Handler" where
  "apply_option (WithWebhookToken token) h = h\<lparr>h_token := token\<rparr>"
| "apply_option (WithWebhookLogger logger) h = h\<lparr>h_logger := logger\<rparr>"
| "apply_option (WithContext ctx) h = h\<lparr>h_baseCtx := ctx\<rparr>"
| "apply_option (WithMetrics m) h = (if m \<noteq> None then h\<lparr>h_metrics := m\<rparr> else h)"
| "apply_option (WithNonceStore store) h = (if store \<noteq> None then h\<lparr>h_nonceStore := store\<rparr> else h)"
| "apply_option (WithAdmitTimeout d) h = h\<lparr>h_options := (h_options h)\<lparr>admitTimeout := d\<rparr>\<rparr>"
| "apply_option (WithMaxBodyBytes n) h = h\<lparr>h_options := (h_options h)\<lparr>maxBodyBytes := n\<rparr>\<rparr>"
| "apply_option (WithNonceTimeout d) h = h\<lparr>h_options := (h_options h)\<lparr>nonceTimeout := d\<rparr>\<rparr>"
| "apply_option NilOption h = h"

datatype new_error = ErrMessageAdmitterRequired | WebhookTokenRequired | ErrNonceStoreRequired

definition initial_handler :: "'ad \<Rightarrow> ('st, 'ad) Handler" where
  "initial_handler admitter =
     \<lparr>h_token = [], h_replayWindow = defaultReplayWindow, h_nonceStore = None,
      h_webhookSigner = NewSigner [], h_admitter = admitter, h_logger = None, h_metrics = None,
      h_options = defaultHandlerOptions, h_baseCtx = None, h_closed = False, h_admissions = 0,
      h_runCancelled = False, h_closeDone = False, h_signatureV3Validated = 0,
      h_signatureUnknown = 0, h_signatureMalformed = 0\<rparr>"

definition NewDurableHandler ::
  "'ad option \<Rightarrow> 'st HandlerOption list \<Rightarrow> (new_error, ('st, 'ad) Handler) result" where
  "NewDurableHandler admitter opts =
     (case admitter of
        None \<Rightarrow> Inl ErrMessageAdmitterRequired
      | Some a \<Rightarrow>
          let h = fold apply_option opts (initial_handler a);
              h = h\<lparr>h_token := trim_space (h_token h)\<rparr>
          in if h_token h = [] then Inl WebhookTokenRequired
             else if h_nonceStore h = None then Inl ErrNonceStoreRequired
             else Inr (h\<lparr>h_options := normalizeHandlerOptions (h_options h),
                         h_webhookSigner := NewSigner (h_token h)\<rparr>))"

section \<open>Header checks\<close>

definition hasSignatureHeaders :: "header \<Rightarrow> bool" where
  "hasSignatureHeaders hdr \<longleftrightarrow>
     header_Get hdr HeaderIrisTimestamp \<noteq> [] \<or> header_Get hdr HeaderIrisNonce \<noteq> [] \<or>
     header_Get hdr HeaderIrisSignature \<noteq> [] \<or> header_Get hdr HeaderIrisBodySHA256 \<noteq> [] \<or>
     header_Get hdr HeaderIrisSignatureVersion \<noteq> []"

datatype signatureVersionStatus = signatureVersionAccepted | signatureVersionUnknown | signatureVersionMalformed

definition webhookSignatureVersion :: "ucase \<Rightarrow> header \<Rightarrow> string \<times> signatureVersionStatus" where
  "webhookSignatureVersion uc hdr =
     (case header_Values hdr HeaderIrisSignatureVersion of
        [v] \<Rightarrow>
          if v = [] \<or> trim_space v \<noteq> v then ([], signatureVersionMalformed)
          else if to_lower uc v = SignatureVersionV3 then (SignatureVersionV3, signatureVersionAccepted)
          else ([], signatureVersionUnknown)
      | _ \<Rightarrow> ([], signatureVersionMalformed))"

text \<open>\<open>timestamp, nonce, signature, bodySHA256, ok\<close>.\<close>

definition signatureHeaderValues :: "header \<Rightarrow> string \<times> string \<times> string \<times> string \<times> bool" where
  "signatureHeaderValues hdr =
     (let timestamp = trim_space (header_Get hdr HeaderIrisTimestamp);
          nonce = trim_space (header_Get hdr HeaderIrisNonce);
          signature = trim_space (header_Get hdr HeaderIrisSignature);
          bodySHA256 = trim_space (header_Get hdr HeaderIrisBodySHA256)
      in (timestamp, nonce, signature, bodySHA256,
          timestamp \<noteq> [] \<and> nonce \<noteq> [] \<and> signature \<noteq> [] \<and> bodySHA256 \<noteq> []))"

text \<open>\<open>time.UnixMilli\<close> and \<open>Time.Add\<close> are exact for every 64-bit millisecond count.\<close>

definition timestampWithinReplayWindow :: "string \<Rightarrow> duration \<Rightarrow> instant \<Rightarrow> bool" where
  "timestampWithinReplayWindow timestamp window now =
     (case parse_int64 timestamp of
        None \<Rightarrow> False
      | Some timestampMs \<Rightarrow>
          let signedAt = timestampMs * Millisecond
          in \<not> signedAt < now - window \<and> \<not> now + window < signedAt)"

text \<open>\<open>messageID, present, valid\<close>.\<close>

definition normalizedMessageIDHeader :: "header \<Rightarrow> string \<times> bool \<times> bool" where
  "normalizedMessageIDHeader hdr =
     (case header_Values hdr HeaderIrisMessageID of
        [] \<Rightarrow> ([], False, True)
      | [v] \<Rightarrow> (case NormalizeMessageID v of (messageID, valid) \<Rightarrow> (messageID, messageID \<noteq> [], valid))
      | _ \<Rightarrow> ([], False, False))"

record hmacHeaders =
  hh_timestamp :: string
  hh_nonce :: string
  hh_signature :: string
  hh_bodySHA256 :: string
  hh_target :: string
  hh_messageID :: string

text \<open>The request URI; the server always sets the URL of a request it hands out.\<close>

definition request_uri :: "http_request \<Rightarrow> string" where
  "request_uri r = (case req_url r of Some u \<Rightarrow> RequestURI u | None \<Rightarrow> [])"

definition authorizeHMACHeaders ::
  "('st, 'ad) backend \<Rightarrow> ('st, 'ad) Handler \<Rightarrow> http_request \<Rightarrow> instant \<Rightarrow> hmacHeaders option \<times> ('st, 'ad) Handler" where
  "authorizeHMACHeaders env h r now =
     (case snd (webhookSignatureVersion (be_case env) (req_header r)) of
        signatureVersionUnknown \<Rightarrow> (None, h\<lparr>h_signatureUnknown := h_signatureUnknown h + 1\<rparr>)
      | signatureVersionMalformed \<Rightarrow> (None, h\<lparr>h_signatureMalformed := h_signatureMalformed h + 1\<rparr>)
      | signatureVersionAccepted \<Rightarrow>
          (case signatureHeaderValues (req_header r) of (timestamp, nonce, signature, bodySHA256, ok) \<Rightarrow>
             if \<not> ok \<or> \<not> timestampWithinReplayWindow timestamp (h_replayWindow h) now then (None, h)
             else case CanonicalTarget (request_uri r) of
               Inl _ \<Rightarrow> (None, h)
             | Inr target \<Rightarrow>
                 (case normalizedMessageIDHeader (req_header r) of (messageID, present, valid) \<Rightarrow>
                    if \<not> valid \<or> \<not> present then (None, h)
                    else (Some \<lparr>hh_timestamp = timestamp, hh_nonce = nonce, hh_signature = signature,
                                hh_bodySHA256 = bodySHA256, hh_target = target, hh_messageID = messageID\<rparr>, h))))"

section \<open>Body checks\<close>

definition isBodyTooLarge :: "read_error \<Rightarrow> bool" where
  "isBodyTooLarge err \<longleftrightarrow> err = MaxBytesError"

definition statusForDecodeError :: "read_error \<Rightarrow> nat" where
  "statusForDecodeError err =
     (if isBodyTooLarge err then 413
      else if err = DeadlineExceeded \<or> err = NetError True then 408
      else 400)"

text \<open>\<open>Inl\<close> is the status written; \<open>ObserveBadRequest\<close> was observed before it.\<close>

definition bufferBodyForHMAC :: "('st, 'ad) Handler \<Rightarrow> http_request \<Rightarrow> (nat, bytes) result \<times> metric list" where
  "bufferBodyForHMAC h r =
     (let err_raw = (case read_all_max (req_body r) (maxBodyBytes (h_options h)) of
          Inl e \<Rightarrow> Inl e
        | Inr raw \<Rightarrow> (case body_close (req_body r) of Some e \<Rightarrow> Inl e | None \<Rightarrow> Inr raw))
      in case err_raw of
        Inl e \<Rightarrow> (Inl (statusForDecodeError e), [ObserveBadRequest])
      | Inr raw \<Rightarrow> (Inr raw, []))"

datatype hmacAuthOutcome = hmacAuthReject | hmacAuthAccept | hmacAuthUnavailable

text \<open>\<open>subtle.ConstantTimeCompare\<close> is 1 exactly on equal byte strings.\<close>

definition constantTimeEqualString :: "string \<Rightarrow> string \<Rightarrow> bool" where
  "constantTimeEqualString left right \<longleftrightarrow> left = right"

definition nonceReplayTTL :: "('st, 'ad) Handler \<Rightarrow> duration" where
  "nonceReplayTTL h = 2 * h_replayWindow h"

definition nonce_key :: "ucase \<Rightarrow> string \<Rightarrow> string \<Rightarrow> string \<Rightarrow> string \<Rightarrow> string" where
  "nonce_key uc method target timestamp nonce = join [CHR 0x0A] [to_upper uc method, target, timestamp, nonce]"

definition checkNonce ::
  "('st, 'ad) backend \<Rightarrow> ('st, 'ad) Handler \<Rightarrow> instant \<Rightarrow> string \<Rightarrow> string \<Rightarrow> string \<Rightarrow> string
     \<Rightarrow> hmacAuthOutcome \<times> ('st, 'ad) Handler" where
  "checkNonce env h now method target timestamp nonce =
     (case h_nonceStore h of
        None \<Rightarrow> (hmacAuthReject, h)
      | Some st \<Rightarrow>
          (case be_IsDuplicate env st now (nonce_key (be_case env) method target timestamp nonce) (nonceReplayTTL h) of
             (Inl _, st') \<Rightarrow> (hmacAuthUnavailable, h\<lparr>h_nonceStore := Some st'\<rparr>)
           | (Inr True, st') \<Rightarrow> (hmacAuthReject, h\<lparr>h_nonceStore := Some st'\<rparr>)
           | (Inr False, st') \<Rightarrow> (hmacAuthAccept, h\<lparr>h_nonceStore := Some st'\<rparr>)))"

definition authorizeHMACBody ::
  "('st, 'ad) backend \<Rightarrow> ('st, 'ad) Handler \<Rightarrow> http_request \<Rightarrow> hmacHeaders \<Rightarrow> bytes \<Rightarrow> serve_run
     \<Rightarrow> hmacAuthOutcome \<times> ('st, 'ad) Handler" where
  "authorizeHMACBody env h r headers body run =
     (let gotBodySHA256 = SHA256HexBytes body in
      if \<not> constantTimeEqualString (hh_bodySHA256 headers) gotBodySHA256 then (hmacAuthReject, h)
      else case CanonicalWebhookRequestV3 (be_case env) (req_host r) (req_method r) (hh_target headers)
          (hh_timestamp headers) (hh_nonce headers) (hh_messageID headers) gotBodySHA256 of
        Inl _ \<Rightarrow> (hmacAuthReject, h)
      | Inr canonical \<Rightarrow>
          (case Sign (pool_choice run) (h_webhookSigner h) canonical of (expected, signer') \<Rightarrow>
             let h1 = h\<lparr>h_webhookSigner := signer'\<rparr> in
             if \<not> constantTimeEqualString (hh_signature headers) expected then (hmacAuthReject, h1)
             else checkNonce env (h1\<lparr>h_signatureV3Validated := h_signatureV3Validated h1 + 1\<rparr>) (at_nonce run)
                    (req_method r) (hh_target headers) (hh_timestamp headers) (hh_nonce headers)))"

section \<open>Serving\<close>

text \<open>\<open>Inl\<close> is the status written.\<close>

definition authorizeRequest ::
  "('st, 'ad) backend \<Rightarrow> ('st, 'ad) Handler \<Rightarrow> http_request \<Rightarrow> serve_run
     \<Rightarrow> (nat, bytes) result \<times> ('st, 'ad) Handler \<times> metric list" where
  "authorizeRequest env h r run =
     (if \<not> hasSignatureHeaders (req_header r) then (Inl 401, h, [ObserveUnauthorized])
      else case authorizeHMACHeaders env h r (at_headers run) of
        (None, h1) \<Rightarrow> (Inl 401, h1, [ObserveUnauthorized])
      | (Some headers, h1) \<Rightarrow>
          (case bufferBodyForHMAC h1 r of
             (Inl status, ms) \<Rightarrow> (Inl status, h1, ms)
           | (Inr body, ms) \<Rightarrow>
               (case authorizeHMACBody env h1 r headers body run of
                  (hmacAuthAccept, h2) \<Rightarrow> (Inr body, h2, ms)
                | (hmacAuthUnavailable, h2) \<Rightarrow> (Inl 503, h2, ms)
                | (hmacAuthReject, h2) \<Rightarrow> (Inl 401, h2, ms @ [ObserveUnauthorized]))))"

definition isPOST :: "string \<Rightarrow> bool" where
  "isPOST method \<longleftrightarrow> method = ''POST''"

definition isJSONContentType :: "ucase \<Rightarrow> string \<Rightarrow> bool" where
  "isJSONContentType uc contentType =
     (case ParseMediaType uc contentType of
        None \<Rightarrow> False
      | Some mediaType \<Rightarrow> equal_fold_ascii mediaType ''application/json'')"

definition acceptTransport ::
  "('st, 'ad) backend \<Rightarrow> ('st, 'ad) Handler \<Rightarrow> http_request \<Rightarrow> serve_run
     \<Rightarrow> (nat, bytes) result \<times> ('st, 'ad) Handler \<times> metric list" where
  "acceptTransport env h r run =
     (if \<not> isPOST (req_method r) then (Inl 405, h, [])
      else case authorizeRequest env h r run of
        (Inl status, h1, ms) \<Rightarrow> (Inl status, h1, ms)
      | (Inr body, h1, ms) \<Rightarrow>
          if \<not> isJSONContentType (be_case env) (header_Get (req_header r) ''Content-Type'') then (Inl 415, h1, ms)
          else (Inr body, h1, ms))"

text \<open>A decoding or validation error of a buffered body is none of the read errors with a status of its own.\<close>

definition decodeAndValidate :: "json_decoder \<Rightarrow> bytes \<Rightarrow> (nat, WebhookRequest) result \<times> metric list" where
  "decodeAndValidate unmarshal body =
     (case parseWebhookRequest unmarshal body of
        Inr req \<Rightarrow> (Inr req, [ObserveDecodeLatency])
      | Inl _ \<Rightarrow> (Inl (statusForDecodeError ReadFailed), [ObserveDecodeLatency, ObserveBadRequest]))"

definition reconcileMessageID :: "http_request \<Rightarrow> WebhookRequest \<Rightarrow> bool" where
  "reconcileMessageID r req =
     (case normalizedMessageIDHeader (req_header r) of (headerID, headerPresent, valid) \<Rightarrow>
        \<not> (\<not> valid \<or> \<not> headerPresent \<or> wr_MessageID req \<noteq> headerID))"

text \<open>
  \<open>admitMessage\<close> in its three parts: the section under the read lock, the check of the closed
  channel and the request context, and the call of the admitter; \<open>admissions.Done\<close> comes last.
\<close>

definition admit_enter :: "('st, 'ad) Handler \<Rightarrow> (admit_error, ('st, 'ad) Handler) result" where
  "admit_enter h = (if h_closed h then Inl AdmitClosed else Inr (h\<lparr>h_admissions := h_admissions h + 1\<rparr>))"

definition admit_check :: "('st, 'ad) Handler \<Rightarrow> bool \<Rightarrow> admit_error option" where
  "admit_check h ctx_done =
     (if h_closed h then Some AdmitClosed else if ctx_done then Some AdmitContextDone else None)"

definition admit_done :: "('st, 'ad) Handler \<Rightarrow> ('st, 'ad) Handler" where
  "admit_done h = h\<lparr>h_admissions := h_admissions h - 1\<rparr>"

definition admit_call ::
  "('st, 'ad) backend \<Rightarrow> ('st, 'ad) Handler \<Rightarrow> Message \<Rightarrow> bytes \<Rightarrow> admit_error option \<times> ('st, 'ad) Handler" where
  "admit_call env h msg body =
     (case be_AdmitMessage env (h_admitter h) msg body of (err, ad') \<Rightarrow> (err, h\<lparr>h_admitter := ad'\<rparr>))"

definition admitMessage ::
  "('st, 'ad) backend \<Rightarrow> ('st, 'ad) Handler \<Rightarrow> bool \<Rightarrow> Message \<Rightarrow> bytes \<Rightarrow> admit_error option \<times> ('st, 'ad) Handler" where
  "admitMessage env h ctx_done msg body =
     (case admit_enter h of
        Inl e \<Rightarrow> (Some e, h)
      | Inr h1 \<Rightarrow>
          (case admit_check h1 ctx_done of
             Some e \<Rightarrow> (Some e, admit_done h1)
           | None \<Rightarrow> (case admit_call env h1 msg body of (err, h2) \<Rightarrow> (err, admit_done h2))))"

definition ServeHTTP ::
  "('st, 'ad) backend \<Rightarrow> ('st, 'ad) Handler \<Rightarrow> http_request \<Rightarrow> serve_run \<Rightarrow> nat \<times> ('st, 'ad) Handler \<times> metric list" where
  "ServeHTTP env h r run =
     (case acceptTransport env h r run of
        (Inl status, h1, ms) \<Rightarrow> (status, h1, ObserveRequest # ms)
      | (Inr body, h1, ms) \<Rightarrow>
          (case decodeAndValidate (be_Unmarshal env) body of
             (Inl status, ms1) \<Rightarrow> (status, h1, ObserveRequest # ms @ ms1)
           | (Inr req, ms1) \<Rightarrow>
               if \<not> reconcileMessageID r req then (400, h1, ObserveRequest # ms @ ms1 @ [ObserveBadRequest])
               else
                 (case admitMessage env h1 (req_ctx_done r) (buildMessage (Some req)) body of (err, h2) \<Rightarrow>
                    let seen = ObserveRequest # ms @ ms1 @ [ObserveHandlerDuration] in
                    if err = Some ErrAlreadyAdmitted then (200, h2, seen @ [ObserveDuplicate])
                    else if err \<noteq> None then (503, h2, seen @ [ObserveEnqueueFailure])
                    else (200, h2, seen @ [ObserveAccepted]))))"

section \<open>Closing\<close>

text \<open>
  \<open>beginClose\<close>: the body of \<open>closeOnce\<close> sets the flag and closes the channel under the write lock,
  then starts a goroutine. \<open>close_wait\<close> is that goroutine, which waits for the admissions to end,
  cancels the run context and closes \<open>closeDone\<close>.
\<close>

definition beginClose :: "('st, 'ad) Handler \<Rightarrow> ('st, 'ad) Handler" where
  "beginClose h = (if h_closed h then h else h\<lparr>h_closed := True\<rparr>)"

definition close_wait :: "('st, 'ad) Handler \<Rightarrow> ('st, 'ad) Handler" where
  "close_wait h =
     (if h_closed h \<and> h_admissions h = 0 then h\<lparr>h_runCancelled := True, h_closeDone := True\<rparr> else h)"

text \<open>
  The end of \<open>CloseContext\<close> once its context is done: the run context is cancelled, and the call
  fails unless \<open>closeDone\<close> has been closed meanwhile. Waiting on \<open>closeDone\<close> alone returns nil.
\<close>

definition close_interrupted :: "('st, 'ad) Handler \<Rightarrow> bool \<times> ('st, 'ad) Handler" where
  "close_interrupted h = (let h1 = h\<lparr>h_runCancelled := True\<rparr> in (h_closeDone h1, h1))"

record SignatureVersionDiagnostics =
  V3Validated :: "64 word"
  UnknownRejected :: "64 word"
  MalformedRejected :: "64 word"

definition signatureVersionDiagnostics :: "('st, 'ad) Handler option \<Rightarrow> SignatureVersionDiagnostics" where
  "signatureVersionDiagnostics h =
     (case h of
        None \<Rightarrow> \<lparr>V3Validated = 0, UnknownRejected = 0, MalformedRejected = 0\<rparr>
      | Some h \<Rightarrow> \<lparr>V3Validated = h_signatureV3Validated h, UnknownRejected = h_signatureUnknown h,
                   MalformedRejected = h_signatureMalformed h\<rparr>)"

section \<open>Reachable handlers\<close>

text \<open>
  The states of a handler that serves its requests one after the other and may be closed at any
  time. The interleaving of admissions with closing is the subject of \<open>Webhook_Admission\<close>.
\<close>

inductive handler_reach :: "('st, 'ad) backend \<Rightarrow> ('st, 'ad) Handler \<Rightarrow> bool" for env where
  hr_new: "NewDurableHandler (Some admitter) opts = Inr h \<Longrightarrow> handler_reach env h"
| hr_serve: "handler_reach env h \<Longrightarrow> ServeHTTP env h r run = (status, h', ms) \<Longrightarrow> handler_reach env h'"
| hr_begin_close: "handler_reach env h \<Longrightarrow> handler_reach env (beginClose h)"
| hr_close_wait: "handler_reach env h \<Longrightarrow> handler_reach env (close_wait h)"
| hr_interrupted: "handler_reach env h \<Longrightarrow> handler_reach env (snd (close_interrupted h))"

fun serve_all ::
  "('st, 'ad) backend \<Rightarrow> ('st, 'ad) Handler \<Rightarrow> (http_request \<times> serve_run) list \<Rightarrow> nat list \<times> ('st, 'ad) Handler" where
  "serve_all env h [] = ([], h)"
| "serve_all env h ((r, run) # rest) =
     (case ServeHTTP env h r run of (status, h1, _) \<Rightarrow>
        case serve_all env h1 rest of (ss, h2) \<Rightarrow> (status # ss, h2))"

section \<open>Authentic requests\<close>

text \<open>
  What it means for a request and its body to be authentic at an instant: one signature version
  header that says v3, a timestamp at most the window away, one canonical message identifier, the
  digest of the body, and the HMAC of the transcript under the secret.
\<close>

definition ts_of :: "http_request \<Rightarrow> string" where
  "ts_of r = trim_space (header_Get (req_header r) HeaderIrisTimestamp)"

definition nonce_of :: "http_request \<Rightarrow> string" where
  "nonce_of r = trim_space (header_Get (req_header r) HeaderIrisNonce)"

definition version_ok :: "ucase \<Rightarrow> http_request \<Rightarrow> bool" where
  "version_ok uc r \<longleftrightarrow>
     (\<exists>v. header_Values (req_header r) HeaderIrisSignatureVersion = [v] \<and> trim_space v = v \<and> to_lower uc v = ''v3'')"

definition in_window :: "duration \<Rightarrow> instant \<Rightarrow> string \<Rightarrow> bool" where
  "in_window window now ts \<longleftrightarrow> (\<exists>ms. parse_int64 ts = Some ms \<and> \<bar>ms * Millisecond - now\<bar> \<le> window)"

definition message_id_of :: "http_request \<Rightarrow> string \<Rightarrow> bool" where
  "message_id_of r i \<longleftrightarrow>
     (\<exists>v. header_Values (req_header r) HeaderIrisMessageID = [v] \<and> NormalizeMessageID v = (i, True) \<and> i \<noteq> [])"

definition authentic :: "ucase \<Rightarrow> string \<Rightarrow> duration \<Rightarrow> instant \<Rightarrow> http_request \<Rightarrow> string \<Rightarrow> bytes \<Rightarrow> bool" where
  "authentic uc secret window now r target body \<longleftrightarrow>
     version_ok uc r \<and> in_window window now (ts_of r) \<and> nonce_of r \<noteq> [] \<and>
     CanonicalTarget (request_uri r) = Inr target \<and>
     trim_space (header_Get (req_header r) HeaderIrisBodySHA256) = hex_encode (sha256 body) \<and>
     (\<exists>i c. message_id_of r i \<and>
        CanonicalWebhookRequestV3 uc (req_host r) (req_method r) target (ts_of r) (nonce_of r) i (hex_encode (sha256 body)) = Inr c \<and>
        trim_space (header_Get (req_header r) HeaderIrisSignature) = hex_encode (hmac_sha256 secret c))"

lemma hex_digest: "SHA256HexBytes body = hex_encode (sha256 body)"
  by (simp add: SHA256HexBytes_def EmptyBodySHA256Hex_def sha256_empty)

lemma hex_nonempty: "hex_encode (sha256 b) \<noteq> []" "hex_encode (hmac_sha256 k c) \<noteq> []"
  using length_hex_encode [of "sha256 b"] length_hex_encode [of "hmac_sha256 k c"] by force+

lemma webhookSignatureVersion_accepts:
  "snd (webhookSignatureVersion uc (req_header r)) = signatureVersionAccepted \<longleftrightarrow> version_ok uc r"
  by (auto simp: webhookSignatureVersion_def version_ok_def SignatureVersionV3_def to_lower_def
      split: list.splits)

lemma timestamp_window_exact: "timestampWithinReplayWindow ts window now \<longleftrightarrow> in_window window now ts"
  by (auto simp: timestampWithinReplayWindow_def in_window_def Let_def split: option.splits)

lemma message_id_header_exact: "normalizedMessageIDHeader (req_header r) = (i, True, True) \<longleftrightarrow> message_id_of r i"
  by (auto simp: normalizedMessageIDHeader_def message_id_of_def split: list.splits prod.splits)

lemma message_id_fun: "message_id_of r i \<Longrightarrow> message_id_of r j \<Longrightarrow> i = j"
  by (auto simp: message_id_of_def)

lemma parse_int64_nonempty: "parse_int64 [] = None"
  by (simp add: parse_int64_def parse_uint_def)

definition headers_of :: "http_request \<Rightarrow> string \<Rightarrow> string \<Rightarrow> hmacHeaders" where
  "headers_of r target i =
     \<lparr>hh_timestamp = ts_of r, hh_nonce = nonce_of r,
      hh_signature = trim_space (header_Get (req_header r) HeaderIrisSignature),
      hh_bodySHA256 = trim_space (header_Get (req_header r) HeaderIrisBodySHA256),
      hh_target = target, hh_messageID = i\<rparr>"

lemma authorizeHMACHeaders_exact:
  "authorizeHMACHeaders env h r now = (Some hs, h') \<longleftrightarrow>
     h' = h \<and> version_ok (be_case env) r \<and> in_window (h_replayWindow h) now (ts_of r) \<and> nonce_of r \<noteq> [] \<and>
     trim_space (header_Get (req_header r) HeaderIrisSignature) \<noteq> [] \<and>
     trim_space (header_Get (req_header r) HeaderIrisBodySHA256) \<noteq> [] \<and>
     (\<exists>target i. CanonicalTarget (request_uri r) = Inr target \<and> message_id_of r i \<and> hs = headers_of r target i)"
proof -
  have ts: "in_window w now (ts_of r) \<Longrightarrow> ts_of r \<noteq> []" for w
    by (auto simp: in_window_def parse_int64_nonempty)
  show ?thesis
    unfolding webhookSignatureVersion_accepts [symmetric] message_id_header_exact [symmetric] headers_of_def
      timestamp_window_exact [symmetric]
    using ts [unfolded timestamp_window_exact [symmetric]]
    by (auto simp: authorizeHMACHeaders_def signatureHeaderValues_def ts_of_def nonce_of_def Let_def
        split: signatureVersionStatus.splits sum.splits prod.splits if_splits)
qed

text \<open>The invariant of a handler built for a secret.\<close>

definition handler_ok :: "string \<Rightarrow> ('st, 'ad) Handler \<Rightarrow> bool" where
  "handler_ok secret h \<longleftrightarrow>
     h_token h = secret \<and> secret \<noteq> [] \<and> trim_space secret = secret \<and>
     signer_ok secret (h_webhookSigner h) [] \<and> h_nonceStore h \<noteq> None \<and>
     h_replayWindow h = defaultReplayWindow \<and>
     0 < admitTimeout (h_options h) \<and> 0 < nonceTimeout (h_options h) \<and> 0 < maxBodyBytes (h_options h)"

definition read_body :: "int \<Rightarrow> http_request \<Rightarrow> (read_error, bytes) result" where
  "read_body limit r =
     and_then (read_all_max (req_body r) limit)
       (\<lambda>raw. case body_close (req_body r) of Some e \<Rightarrow> Inl e | None \<Rightarrow> Inr raw)"

lemma bufferBody_read:
  "bufferBodyForHMAC h r =
     (case read_body (maxBodyBytes (h_options h)) r of
        Inl e \<Rightarrow> (Inl (statusForDecodeError e), [ObserveBadRequest]) | Inr raw \<Rightarrow> (Inr raw, []))"
  by (cases "read_all_max (req_body r) (maxBodyBytes (h_options h))")
    (auto simp: bufferBodyForHMAC_def read_body_def Let_def split: option.splits)

lemma Sign_keeps:
  assumes "signer_ok secret s held"
  shows "signer_ok secret (snd (Sign choice s c)) held"
proof -
  obtain m s' where acq: "Sign_acquire choice s = (m, s')" by fastforce
  from Sign_acquire_ok [OF this assms] show ?thesis
    by (auto simp: Sign_def acq SignHash_exact signer_ok_def pool_Put_def)
qed

definition signature_ok :: "ucase \<Rightarrow> string \<Rightarrow> http_request \<Rightarrow> string \<Rightarrow> string \<Rightarrow> bytes \<Rightarrow> bool" where
  "signature_ok uc secret r target i body \<longleftrightarrow>
     trim_space (header_Get (req_header r) HeaderIrisBodySHA256) = hex_encode (sha256 body) \<and>
     (\<exists>c. CanonicalWebhookRequestV3 uc (req_host r) (req_method r) target (ts_of r) (nonce_of r) i (hex_encode (sha256 body)) = Inr c \<and>
        trim_space (header_Get (req_header r) HeaderIrisSignature) = hex_encode (hmac_sha256 secret c))"

lemma authorizeHMACBody_cases:
  assumes "signer_ok secret (h_webhookSigner h) []"
  obtains
    (bad) s' where "\<not> signature_ok (be_case env) secret r target i body" and "signer_ok secret s' []"
      and "authorizeHMACBody env h r (headers_of r target i) body run = (hmacAuthReject, h\<lparr>h_webhookSigner := s'\<rparr>)"
  | (good) s' where "signature_ok (be_case env) secret r target i body" and "signer_ok secret s' []"
      and "authorizeHMACBody env h r (headers_of r target i) body run =
        checkNonce env (h\<lparr>h_webhookSigner := s', h_signatureV3Validated := h_signatureV3Validated h + 1\<rparr>)
          (at_nonce run) (req_method r) target (ts_of r) (nonce_of r)"
proof (cases "CanonicalWebhookRequestV3 (be_case env) (req_host r) (req_method r) target (ts_of r) (nonce_of r) i
    (hex_encode (sha256 body))")
  case (Inl e)
  show thesis
    by (rule bad [of "h_webhookSigner h"])
      (use assms Inl in \<open>auto simp: signature_ok_def authorizeHMACBody_def headers_of_def hex_digest
        constantTimeEqualString_def Let_def\<close>)
next
  case (Inr c)
  let ?s = "Sign (pool_choice run) (h_webhookSigner h) c"
  have sig: "fst ?s = hex_encode (hmac_sha256 secret c)" "signer_ok secret (snd ?s) []"
    using Sign_ok [OF assms] Sign_keeps [OF assms] by auto
  note defs = signature_ok_def authorizeHMACBody_def headers_of_def hex_digest constantTimeEqualString_def Let_def
  show thesis
  proof (cases "trim_space (header_Get (req_header r) HeaderIrisBodySHA256) = hex_encode (sha256 body)")
    case False
    show thesis by (rule bad [of "h_webhookSigner h"]) (use assms False in \<open>auto simp: defs\<close>)
  next
    case dig: True
    show thesis
    proof (cases "trim_space (header_Get (req_header r) HeaderIrisSignature) = fst ?s")
      case True
      show thesis by (rule good [of "snd ?s"]) (use True sig dig Inr in \<open>auto simp: defs split_beta\<close>)
    next
      case False
      show thesis by (rule bad [of "snd ?s"]) (use False sig dig Inr in \<open>auto simp: defs split_beta\<close>)
    qed
  qed
qed

lemma authentic_iff:
  "authentic uc secret window now r target body \<longleftrightarrow>
     version_ok uc r \<and> in_window window now (ts_of r) \<and> nonce_of r \<noteq> [] \<and>
     CanonicalTarget (request_uri r) = Inr target \<and> (\<exists>i. message_id_of r i \<and> signature_ok uc secret r target i body)"
  by (auto simp: authentic_def signature_ok_def)

lemma signature_ok_headers:
  assumes "signature_ok uc secret r target i body"
  shows "trim_space (header_Get (req_header r) HeaderIrisSignature) \<noteq> []"
    and "trim_space (header_Get (req_header r) HeaderIrisBodySHA256) \<noteq> []"
    and "hasSignatureHeaders (req_header r)"
proof -
  show sig: "trim_space (header_Get (req_header r) HeaderIrisSignature) \<noteq> []"
    and "trim_space (header_Get (req_header r) HeaderIrisBodySHA256) \<noteq> []"
    using assms hex_nonempty unfolding signature_ok_def by metis+
  show "hasSignatureHeaders (req_header r)"
    using sig by (auto simp: hasSignatureHeaders_def)
qed

lemma authentic_nonempty: "authentic uc secret window now r target body \<Longrightarrow> hasSignatureHeaders (req_header r)"
  by (auto simp: authentic_iff dest: signature_ok_headers(3))

definition rejected_state :: "string \<Rightarrow> ('st, 'ad) Handler \<Rightarrow> ('st, 'ad) Handler \<Rightarrow> bool" where
  "rejected_state secret h h1 \<longleftrightarrow>
     signer_ok secret (h_webhookSigner h1) [] \<and>
     h1 = h\<lparr>h_webhookSigner := h_webhookSigner h1, h_signatureUnknown := h_signatureUnknown h1,
            h_signatureMalformed := h_signatureMalformed h1\<rparr>"

lemma authorizeHMACHeaders_state:
  "authorizeHMACHeaders env h r now = (None, h1) \<Longrightarrow>
     h1 = h\<lparr>h_signatureUnknown := h_signatureUnknown h1, h_signatureMalformed := h_signatureMalformed h1\<rparr>"
  by (auto simp: authorizeHMACHeaders_def split: signatureVersionStatus.splits sum.splits prod.splits if_splits)

abbreviation store_key :: "('st, 'ad) backend \<Rightarrow> http_request \<Rightarrow> string \<Rightarrow> string" where
  "store_key env r target \<equiv> nonce_key (be_case env) (req_method r) target (ts_of r) (nonce_of r)"

lemma authorizeRequest_cases:
  fixes h :: "('st, 'ad) Handler"
  assumes ok: "handler_ok secret h"
  obtains
    (rejected) h1 where "authorizeRequest env h r run = (Inl 401, h1, [ObserveUnauthorized])"
      and "rejected_state secret h h1"
      and "\<And>target body. read_body (maxBodyBytes (h_options h)) r = Inr body \<Longrightarrow>
        \<not> authentic (be_case env) secret (h_replayWindow h) (at_headers run) r target body"
  | (unreadable) e where "authorizeRequest env h r run = (Inl (statusForDecodeError e), h, [ObserveBadRequest])"
      and "read_body (maxBodyBytes (h_options h)) r = Inl e"
  | (checked) target body st s' ans st' h1 where
      "authentic (be_case env) secret (h_replayWindow h) (at_headers run) r target body"
      and "read_body (maxBodyBytes (h_options h)) r = Inr body"
      and "h_nonceStore h = Some st" and "signer_ok secret s' []"
      and "be_IsDuplicate env st (at_nonce run) (store_key env r target) (2 * h_replayWindow h) = (ans, st')"
      and "h1 = h\<lparr>h_webhookSigner := s', h_nonceStore := Some st', h_signatureV3Validated := h_signatureV3Validated h + 1\<rparr>"
      and "authorizeRequest env h r run =
        (case ans of Inl _ \<Rightarrow> (Inl 503, h1, [])
         | Inr dup \<Rightarrow> if dup then (Inl 401, h1, [ObserveUnauthorized]) else (Inr body, h1, []))"
proof -
  from ok have sok: "signer_ok secret (h_webhookSigner h) []" and "h_nonceStore h \<noteq> None"
    by (auto simp: handler_ok_def)
  then obtain st where st: "h_nonceStore h = Some st" by auto
  obtain hs h1 where hh: "authorizeHMACHeaders env h r (at_headers run) = (hs, h1)" by fastforce
  show thesis
  proof (cases "hasSignatureHeaders (req_header r)")
    case False
    show thesis
      by (rule rejected [of h])
        (use False sok in \<open>auto simp: authorizeRequest_def rejected_state_def dest: authentic_nonempty\<close>)
  next
    case has: True
    show thesis
    proof (cases hs)
      case None
      from hh None have h1: "h1 = h\<lparr>h_signatureUnknown := h_signatureUnknown h1, h_signatureMalformed := h_signatureMalformed h1\<rparr>"
        by (intro authorizeHMACHeaders_state) simp
      have "h_webhookSigner h1 = h_webhookSigner h" by (subst h1) simp
      with sok have "rejected_state secret h h1"
        unfolding rejected_state_def by (subst (2) h1) simp
      moreover have "\<not> authentic (be_case env) secret (h_replayWindow h) (at_headers run) r target body" for target body
        using hh None authorizeHMACHeaders_exact [of env h r "at_headers run"] signature_ok_headers
        by (metis Pair_inject authentic_iff option.distinct(1))
      ultimately show thesis
        by (intro rejected [of h1]) (use has hh None in \<open>auto simp: authorizeRequest_def\<close>)
    next
      case (Some hd)
      with hh obtain target i where h1: "h1 = h" and hd: "hd = headers_of r target i"
        and mi: "message_id_of r i" and tg: "CanonicalTarget (request_uri r) = Inr target"
        and pre: "version_ok (be_case env) r" "in_window (h_replayWindow h) (at_headers run) (ts_of r)" "nonce_of r \<noteq> []"
        by (auto simp: authorizeHMACHeaders_exact)
      have auth: "authentic (be_case env) secret (h_replayWindow h) (at_headers run) r target' body \<longleftrightarrow>
          target' = target \<and> signature_ok (be_case env) secret r target i body" for target' body
        using pre tg mi message_id_fun by (auto simp: authentic_iff)
      show thesis
      proof (cases "read_body (maxBodyBytes (h_options h)) r")
        case (Inl e)
        show thesis
          by (rule unreadable) (use has hh Some h1 Inl in \<open>auto simp: authorizeRequest_def bufferBody_read\<close>)
      next
        case (Inr body)
        have run: "authorizeRequest env h r run =
          (case authorizeHMACBody env h r (headers_of r target i) body run of
             (hmacAuthAccept, h2) \<Rightarrow> (Inr body, h2, [])
           | (hmacAuthUnavailable, h2) \<Rightarrow> (Inl 503, h2, [])
           | (hmacAuthReject, h2) \<Rightarrow> (Inl 401, h2, [ObserveUnauthorized]))"
          using has hh Some h1 Inr by (simp add: authorizeRequest_def bufferBody_read hd split: prod.splits hmacAuthOutcome.splits)
        from sok show thesis
        proof (cases rule: authorizeHMACBody_cases [of secret h env r target i body run])
          case (bad s')
          have "rejected_state secret h (h\<lparr>h_webhookSigner := s'\<rparr>)"
            using bad by (simp add: rejected_state_def)
          then show thesis
            by (rule rejected [rotated]) (use bad run auth Inr in auto)
        next
          case (good s')
          obtain ans st' where dup: "be_IsDuplicate env st (at_nonce run) (store_key env r target) (2 * h_replayWindow h) = (ans, st')"
            by fastforce
          show thesis
            by (rule checked [OF _ Inr st good(2) dup refl])
              (use good run auth dup st in \<open>auto simp: checkNonce_def nonceReplayTTL_def split: sum.splits bool.splits\<close>)
        qed
      qed
    qed
  qed
qed


section \<open>Serving in two halves\<close>

lemma admitMessage_exact:
  "admitMessage env h ctx_done msg body =
     (if h_closed h then (Some AdmitClosed, h)
      else if ctx_done then (Some AdmitContextDone, h)
      else case be_AdmitMessage env (h_admitter h) msg body of (err, ad') \<Rightarrow> (err, h\<lparr>h_admitter := ad'\<rparr>))"
  by (simp add: admitMessage_def admit_enter_def admit_check_def admit_call_def admit_done_def split: prod.splits)

lemma reconcile_exact: "reconcileMessageID r req \<longleftrightarrow> message_id_of r (wr_MessageID req)"
  by (auto simp: reconcileMessageID_def message_id_header_exact [symmetric] split: prod.splits)

lemma statusForDecodeError_range: "statusForDecodeError e \<in> {400, 408, 413}"
  by (simp add: statusForDecodeError_def)

lemma buildMessage_id: "mj_MessageID (the (m_JSON (buildMessage (Some req)))) = trim_space (wr_MessageID req)"
  by (simp add: buildMessage_def buildMessageJSON_def Let_def)

text \<open>A request that got past authorisation: what the rest of the handler does with it.\<close>

definition serve_body ::
  "('st, 'ad) backend \<Rightarrow> ('st, 'ad) Handler \<Rightarrow> http_request \<Rightarrow> bytes \<Rightarrow> nat \<times> ('st, 'ad) Handler \<times> metric list" where
  "serve_body env h r body =
     (if \<not> isJSONContentType (be_case env) (header_Get (req_header r) ''Content-Type'') then (415, h, [])
      else case DecodeMessage (be_Unmarshal env) body of
        Inl _ \<Rightarrow> (400, h, [ObserveDecodeLatency, ObserveBadRequest])
      | Inr m \<Rightarrow>
          if \<not> message_id_of r (mj_MessageID (the (m_JSON m))) then (400, h, [ObserveDecodeLatency, ObserveBadRequest])
          else case admitMessage env h (req_ctx_done r) m body of (err, h2) \<Rightarrow>
            (if err \<in> {None, Some ErrAlreadyAdmitted} then 200 else 503, h2,
             [ObserveDecodeLatency, ObserveHandlerDuration,
              if err = None then ObserveAccepted else if err = Some ErrAlreadyAdmitted then ObserveDuplicate else ObserveEnqueueFailure]))"

lemma ServeHTTP_body:
  "ServeHTTP env h r run =
     (if req_method r \<noteq> ''POST'' then (405, h, [ObserveRequest])
      else case authorizeRequest env h r run of
        (Inl status, h1, ms) \<Rightarrow> (status, h1, ObserveRequest # ms)
      | (Inr body, h1, ms) \<Rightarrow>
          (case serve_body env h1 r body of (status, h2, ms2) \<Rightarrow> (status, h2, ObserveRequest # ms @ ms2)))"
proof -
  have st: "statusForDecodeError ReadFailed = 400"
    by (simp add: statusForDecodeError_def isBodyTooLarge_def)
  have id: "parseWebhookRequest u b = Inr req \<Longrightarrow> trim_space (wr_MessageID req) = wr_MessageID req" for u b req
    by (rule parsed_request_valid(3))
  show ?thesis
    by (auto simp: ServeHTTP_def acceptTransport_def isPOST_def serve_body_def decodeAndValidate_def st
        reconcile_exact DecodeMessage_def buildMessage_id id Let_def split: sum.splits prod.splits if_splits)
qed


end
