(* ===== verification/Webhook_Security.thy ===== *)
theory Webhook_Security
  imports Webhook_Handler Webhook_Sign
begin

text \<open>
  What the webhook handler guarantees: its invariant, that only authentic requests reach the
  admitter or consume a nonce, that a complete authentic request is admitted, how outcomes map to
  statuses and metrics, and that a request cannot be replayed while its timestamp is accepted.
\<close>

section \<open>The invariant\<close>

lemma normalizeHandlerOptions_pos:
  "0 < admitTimeout (normalizeHandlerOptions opts)" "0 < nonceTimeout (normalizeHandlerOptions opts)"
  "0 < maxBodyBytes (normalizeHandlerOptions opts)"
  by (simp_all add: normalizeHandlerOptions_def Let_def defaultAdmitTimeout_def defaultNonceTimeout_def
      defaultMaxBodyBytes_def Second_def Millisecond_def)

lemma apply_option_window [simp]: "h_replayWindow (apply_option opt h) = h_replayWindow h"
  by (cases opt) auto

lemma fold_option_window [simp]: "h_replayWindow (fold apply_option opts h) = h_replayWindow h"
  by (induction opts arbitrary: h) auto

lemma NewDurableHandler_ok:
  assumes "NewDurableHandler admitter opts = Inr h"
  shows "handler_ok (h_token h) h"
  using assms normalizeHandlerOptions_pos
  by (auto simp: NewDurableHandler_def handler_ok_def signer_ok_def NewSigner_def initial_handler_def Let_def
      split: option.splits if_splits)

lemma serve_body_frame:
  "serve_body env h r body = (status, h', ms) \<Longrightarrow> h' = h\<lparr>h_admitter := h_admitter h'\<rparr>"
  by (auto simp: serve_body_def admitMessage_exact split: if_splits sum.splits prod.splits)

lemma serve_body_store:
  "serve_body env h r body = (status, h', ms) \<Longrightarrow> h_nonceStore h' = h_nonceStore h"
  by (drule serve_body_frame, erule ssubst) simp

lemma rejected_stateE:
  assumes "rejected_state secret h h1"
  obtains s u m where "signer_ok secret s []"
    and "h1 = h\<lparr>h_webhookSigner := s, h_signatureUnknown := u, h_signatureMalformed := m\<rparr>"
  using assms unfolding rejected_state_def by blast

lemma ServeHTTP_frame:
  assumes "handler_ok secret h" and "ServeHTTP env h r run = (status, h', ms)"
  shows "handler_ok secret h'"
    and "h_closed h' = h_closed h" and "h_options h' = h_options h" and "h_token h' = h_token h"
proof -
  have sb: "handler_ok secret h1 \<Longrightarrow> serve_body env h1 r body = (s, h2, ms2) \<Longrightarrow>
      handler_ok secret h2 \<and> h_closed h2 = h_closed h1 \<and> h_options h2 = h_options h1 \<and> h_token h2 = h_token h1" for h1 body s h2 ms2
    by (drule serve_body_frame, erule ssubst) (simp add: handler_ok_def)
  have "handler_ok secret h' \<and> h_closed h' = h_closed h \<and> h_options h' = h_options h \<and> h_token h' = h_token h"
    using assms(1)
  proof (cases rule: authorizeRequest_cases [of secret h env r run])
    case (rejected h1)
    from rejected(2) have "handler_ok secret h1 \<and> h_closed h1 = h_closed h \<and> h_options h1 = h_options h \<and> h_token h1 = h_token h"
      by (rule rejected_stateE) (use assms(1) in \<open>simp add: handler_ok_def\<close>)
    with assms rejected(1) show ?thesis by (auto simp: ServeHTTP_body split: if_splits)
  next
    case (unreadable e)
    with assms show ?thesis by (auto simp: ServeHTTP_body split: if_splits)
  next
    case (checked target body st s' ans st' h1)
    have "handler_ok secret h1 \<and> h_closed h1 = h_closed h \<and> h_options h1 = h_options h \<and> h_token h1 = h_token h"
      using assms(1) checked(4) by (simp add: checked(6) handler_ok_def)
    moreover obtain s2 h2 ms2 where "serve_body env h1 r body = (s2, h2, ms2)" using prod_cases3 by blast
    ultimately show ?thesis
      using sb [of h1 body s2 h2 ms2] assms checked(7) by (auto simp: ServeHTTP_body split: if_splits sum.splits)
  qed
  then show "handler_ok secret h'" and "h_closed h' = h_closed h" and "h_options h' = h_options h" and "h_token h' = h_token h"
    by auto
qed

lemma handler_reach_ok: "handler_reach env h \<Longrightarrow> handler_ok (h_token h) h"
proof (induction rule: handler_reach.induct)
  case (hr_new admitter opts h)
  then show ?case by (rule NewDurableHandler_ok)
next
  case (hr_serve h r run status h' ms)
  then show ?case using ServeHTTP_frame [of "h_token h" h env r run status h' ms] by metis
qed (auto simp: handler_ok_def beginClose_def close_wait_def close_interrupted_def Let_def)


section \<open>Claims\<close>

lemma serve_body_admits:
  assumes "serve_body env h r body = (status, h', ms)" and "status = 200 \<or> h_admitter h' \<noteq> h_admitter h"
  shows "isJSONContentType (be_case env) (header_Get (req_header r) ''Content-Type'') \<and> \<not> h_closed h \<and> \<not> req_ctx_done r \<and>
    (\<exists>m err. DecodeMessage (be_Unmarshal env) body = Inr m \<and> message_id_of r (mj_MessageID (the (m_JSON m))) \<and>
       be_AdmitMessage env (h_admitter h) m body = (err, h_admitter h') \<and>
       (status = 200 \<longleftrightarrow> err \<in> {None, Some ErrAlreadyAdmitted}))"
  using assms
  by (auto simp: serve_body_def admitMessage_exact split: if_splits sum.splits prod.splits)

lemma admitted_conditions:
  assumes "handler_reach env h" and "ServeHTTP env h r run = (status, h', ms)"
    and "status = 200 \<or> h_admitter h' \<noteq> h_admitter h"
  shows "req_method r = ''POST'' \<and> \<not> h_closed h \<and>
    isJSONContentType (be_case env) (header_Get (req_header r) ''Content-Type'') \<and>
    (\<exists>target body st st' m err.
       authentic (be_case env) (h_token h) (5 * Minute) (at_headers run) r target body \<and>
       read_body (maxBodyBytes (h_options h)) r = Inr body \<and>
       h_nonceStore h = Some st \<and>
       be_IsDuplicate env st (at_nonce run) (store_key env r target) (10 * Minute) = (Inr False, st') \<and>
       h_nonceStore h' = Some st' \<and>
       DecodeMessage (be_Unmarshal env) body = Inr m \<and> wf_Message m \<and>
       message_id_of r (mj_MessageID (the (m_JSON m))) \<and>
       be_AdmitMessage env (h_admitter h) m body = (err, h_admitter h') \<and>
       (status = 200 \<longleftrightarrow> err \<in> {None, Some ErrAlreadyAdmitted}))"
proof -
  note ok = handler_reach_ok [OF assms(1)]
  then have win: "h_replayWindow h = 5 * Minute" by (simp add: handler_ok_def defaultReplayWindow_def)
  have post: "req_method r = ''POST''"
    using assms(2,3) by (auto simp: ServeHTTP_body split: if_splits)
  from ok show ?thesis
  proof (cases rule: authorizeRequest_cases [of "h_token h" h env r run])
    case (rejected h1)
    from rejected(2) have "h_admitter h1 = h_admitter h" by (rule rejected_stateE) simp
    with rejected(1) assms(2,3) post show ?thesis by (simp add: ServeHTTP_body)
  next
    case (unreadable e)
    with assms(2,3) post statusForDecodeError_range [of e] show ?thesis by (auto simp: ServeHTTP_body)
  next
    case (checked target body st s' ans st' h1)
    have fresh: "ans = Inr False"
      using checked(6,7) assms(2,3) post by (cases ans) (auto simp: ServeHTTP_body split: if_splits)
    with checked(7) assms(2) post obtain ms2 where sb: "serve_body env h1 r body = (status, h', ms2)"
      by (auto simp: ServeHTTP_body split: prod.splits)
    have same: "h_admitter h1 = h_admitter h" "h_closed h1 = h_closed h" by (simp_all add: checked(6))
    from serve_body_admits [OF sb] assms(3) same obtain m err where
      m: "DecodeMessage (be_Unmarshal env) body = Inr m" "message_id_of r (mj_MessageID (the (m_JSON m)))"
        "be_AdmitMessage env (h_admitter h) m body = (err, h_admitter h')"
        "status = 200 \<longleftrightarrow> err \<in> {None, Some ErrAlreadyAdmitted}"
      and j: "isJSONContentType (be_case env) (header_Get (req_header r) ''Content-Type'')" "\<not> h_closed h"
      by auto
    have "wf_Message m"
      using m(1) wf_buildMessage parsed_request_valid by (auto simp: DecodeMessage_def)
    moreover have "h_nonceStore h' = Some st'"
      using serve_body_store [OF sb] by (simp add: checked(6))
    ultimately show ?thesis using m j checked(1,2,3,5) fresh post win by fastforce
  qed
qed

text \<open>
  C1: in every reachable state of the handler, a request is answered 200 or reaches the admitter
  only if it is a POST of JSON whose signature, digest, message identifier and timestamp are
  authentic for the handler's secret within five minutes of the clock, whose body was read in full
  under the limit, whose nonce the store had not seen, and whose body decodes to a well-formed
  message with the identifier of the signed header; the admitter then got exactly that message and
  that body, and 200 is written exactly when it accepted or had already admitted the message.
\<close>

theorem admitted_only_if_authentic:
  assumes "handler_reach env h" and "ServeHTTP env h r run = (status, h', ms)"
    and "status = 200 \<or> h_admitter h' \<noteq> h_admitter h"
  shows "req_method r = ''POST'' \<and> \<not> h_closed h \<and>
    isJSONContentType (be_case env) (header_Get (req_header r) ''Content-Type'') \<and>
    (\<exists>target body st st' m err.
       authentic (be_case env) (h_token h) (5 * Minute) (at_headers run) r target body \<and>
       read_body (maxBodyBytes (h_options h)) r = Inr body \<and>
       h_nonceStore h = Some st \<and>
       be_IsDuplicate env st (at_nonce run) (store_key env r target) (10 * Minute) = (Inr False, st') \<and>
       h_nonceStore h' = Some st' \<and>
       DecodeMessage (be_Unmarshal env) body = Inr m \<and> wf_Message m \<and>
       message_id_of r (mj_MessageID (the (m_JSON m))) \<and>
       be_AdmitMessage env (h_admitter h) m body = (err, h_admitter h') \<and>
       (status = 200 \<longleftrightarrow> err \<in> {None, Some ErrAlreadyAdmitted}))"
  using assms by (rule admitted_conditions)

text \<open>
  C7: a request changes the nonce store only if it is authentic: without a valid signature nobody
  can make the handler record, and so burn, a nonce. The counter of validated signatures goes up
  by one, modulo 2 to the 64, for exactly the authentic requests that could be read.
\<close>

theorem nonces_burnt_only_if_authentic:
  assumes "handler_reach env h" and "ServeHTTP env h r run = (status, h', ms)"
  shows "(h_nonceStore h' \<noteq> h_nonceStore h \<longrightarrow>
      (\<exists>target body. authentic (be_case env) (h_token h) (5 * Minute) (at_headers run) r target body)) \<and>
    h_signatureV3Validated h' = h_signatureV3Validated h +
      (if req_method r = ''POST'' \<and> (\<exists>target body. read_body (maxBodyBytes (h_options h)) r = Inr body \<and>
          authentic (be_case env) (h_token h) (5 * Minute) (at_headers run) r target body) then 1 else 0)"
proof -
  note ok = handler_reach_ok [OF assms(1)]
  then have win: "h_replayWindow h = 5 * Minute" by (simp add: handler_ok_def defaultReplayWindow_def)
  have sb: "serve_body env h1 r body = (s, h2, ms2) \<Longrightarrow>
      h_nonceStore h2 = h_nonceStore h1 \<and> h_signatureV3Validated h2 = h_signatureV3Validated h1" for h1 body s h2 ms2
    by (drule serve_body_frame, erule ssubst) simp
  from ok show ?thesis
  proof (cases rule: authorizeRequest_cases [of "h_token h" h env r run])
    case (rejected h1)
    from rejected(2) have "h_nonceStore h1 = h_nonceStore h \<and> h_signatureV3Validated h1 = h_signatureV3Validated h"
      by (rule rejected_stateE) simp
    with rejected(1,3) assms(2) win show ?thesis by (auto simp: ServeHTTP_body split: if_splits)
  next
    case (unreadable e)
    with assms(2) show ?thesis by (auto simp: ServeHTTP_body split: if_splits)
  next
    case (checked target body st s' ans st' h1)
    have "h_signatureV3Validated h1 = h_signatureV3Validated h + 1" by (simp add: checked(6))
    moreover have "req_method r = ''POST'' \<Longrightarrow> h_signatureV3Validated h' = h_signatureV3Validated h1"
      using checked(7) assms(2) sb by (auto simp: ServeHTTP_body split: sum.splits prod.splits if_splits)
    moreover have "req_method r \<noteq> ''POST'' \<Longrightarrow> h' = h" using assms(2) by (simp add: ServeHTTP_body)
    moreover have "\<exists>target body. authentic (be_case env) (h_token h) (5 * Minute) (at_headers run) r target body"
      using checked(1) win by auto
    moreover have "\<exists>target body. read_body (maxBodyBytes (h_options h)) r = Inr body \<and>
        authentic (be_case env) (h_token h) (5 * Minute) (at_headers run) r target body"
      using checked(1,2) win by auto
    ultimately show ?thesis by (cases "req_method r = ''POST''") simp_all
  qed
qed


lemma authentic_target: "authentic uc secret w now r t b \<Longrightarrow> authentic uc secret w now r t' b' \<Longrightarrow> t = t'"
  by (auto simp: authentic_def)

lemma ServeHTTP_authentic:
  assumes "handler_ok secret h" and "req_method r = ''POST''"
    and "read_body (maxBodyBytes (h_options h)) r = Inr body"
    and "authentic (be_case env) secret (h_replayWindow h) (at_headers run) r target body"
    and "h_nonceStore h = Some st"
    and "be_IsDuplicate env st (at_nonce run) (store_key env r target) (2 * h_replayWindow h) = (ans, st')"
  obtains h1 where "h_admitter h1 = h_admitter h" and "h_closed h1 = h_closed h" and "h_nonceStore h1 = Some st'"
    and "ServeHTTP env h r run =
      (case ans of Inl _ \<Rightarrow> (503, h1, [ObserveRequest])
       | Inr dup \<Rightarrow> if dup then (401, h1, [ObserveRequest, ObserveUnauthorized])
           else (case serve_body env h1 r body of (status, h2, ms2) \<Rightarrow> (status, h2, ObserveRequest # ms2)))"
  using assms(1)
proof (cases rule: authorizeRequest_cases [of secret h env r run])
  case (rejected h1)
  with assms(3,4) show thesis by blast
next
  case (unreadable e)
  with assms(3) show thesis by simp
next
  case (checked target' body' st1 s' ans' st2 h1)
  have "body' = body" "st1 = st" using checked(2,3) assms(3,5) by auto
  moreover have "target' = target" by (rule authentic_target [OF checked(1) assms(4)])
  ultimately have eq: "ans' = ans" "st2 = st'" using checked(5) assms(6) by auto
  show thesis
    by (rule that [of h1])
      (use checked(6,7) assms(2) eq \<open>body' = body\<close> in \<open>auto simp: ServeHTTP_body split: sum.splits prod.splits\<close>)
qed

text \<open>
  C6: an authentic POST of JSON whose body decodes to a message with the signed identifier is
  answered by the state of the collaborators alone: 503 when the nonce store fails (never 401,
  which would make the sender give up), 401 when the nonce was seen, 503 when the handler is
  closed, the request's context has ended or the admitter fails, and otherwise 200, whether the
  admitter took the message or had it already.
\<close>

theorem authentic_request_outcome:
  assumes "handler_reach env h" and "req_method r = ''POST''"
    and "read_body (maxBodyBytes (h_options h)) r = Inr body"
    and "authentic (be_case env) (h_token h) (5 * Minute) (at_headers run) r target body"
    and "isJSONContentType (be_case env) (header_Get (req_header r) ''Content-Type'')"
    and "DecodeMessage (be_Unmarshal env) body = Inr m" and "message_id_of r (mj_MessageID (the (m_JSON m)))"
    and "h_nonceStore h = Some st"
    and "be_IsDuplicate env st (at_nonce run) (store_key env r target) (10 * Minute) = (ans, st')"
  shows "fst (ServeHTTP env h r run) =
    (case ans of Inl _ \<Rightarrow> 503
     | Inr dup \<Rightarrow>
         if dup then 401
         else if h_closed h \<or> req_ctx_done r then 503
         else if fst (be_AdmitMessage env (h_admitter h) m body) \<in> {None, Some ErrAlreadyAdmitted} then 200
         else 503)"
proof -
  note ok = handler_reach_ok [OF assms(1)]
  then have win: "h_replayWindow h = 5 * Minute" by (simp add: handler_ok_def defaultReplayWindow_def)
  from ok assms(2,3) obtain h1 where h1: "h_admitter h1 = h_admitter h" "h_closed h1 = h_closed h"
    "ServeHTTP env h r run =
      (case ans of Inl _ \<Rightarrow> (503, h1, [ObserveRequest])
       | Inr dup \<Rightarrow> if dup then (401, h1, [ObserveRequest, ObserveUnauthorized])
           else (case serve_body env h1 r body of (status, h2, ms2) \<Rightarrow> (status, h2, ObserveRequest # ms2)))"
    by (rule ServeHTTP_authentic [where env = env and run = run and target = target and st = st and ans = ans and st' = st'])
      (use assms win in auto)
  have "fst (serve_body env h1 r body) =
      (if h_closed h \<or> req_ctx_done r then 503
       else if fst (be_AdmitMessage env (h_admitter h) m body) \<in> {None, Some ErrAlreadyAdmitted} then 200 else 503)"
    using assms(5-7) h1 by (simp add: serve_body_def admitMessage_exact split_beta)
  with h1 show ?thesis by (auto simp: split_beta split: sum.splits)
qed

lemma serve_body_metrics:
  assumes "serve_body env h r body = (status, h', ms)"
  shows "(status, ms) \<in> {(415, []), (400, [ObserveDecodeLatency, ObserveBadRequest]),
    (200, [ObserveDecodeLatency, ObserveHandlerDuration, ObserveAccepted]),
    (200, [ObserveDecodeLatency, ObserveHandlerDuration, ObserveDuplicate]),
    (503, [ObserveDecodeLatency, ObserveHandlerDuration, ObserveEnqueueFailure])}"
  using assms by (auto simp: serve_body_def split: if_splits sum.splits prod.splits)

text \<open>
  The metrics of a request match its status: every request is observed once, a request is
  observed as unauthorised, bad, accepted or duplicate exactly when it is answered 401, with 400,
  408 or 413, or with 200, and a failed admission always comes with 503; no other status exists.
\<close>

theorem metrics_match_status:
  assumes "handler_reach env h" and "ServeHTTP env h r run = (status, h', ms)"
  shows "status \<in> {200, 400, 401, 405, 408, 413, 415, 503} \<and>
    (\<exists>rest. ms = ObserveRequest # rest \<and> ObserveRequest \<notin> set rest) \<and> distinct ms \<and>
    (ObserveUnauthorized \<in> set ms \<longleftrightarrow> status = 401) \<and>
    (ObserveBadRequest \<in> set ms \<longleftrightarrow> status \<in> {400, 408, 413}) \<and>
    (ObserveAccepted \<in> set ms \<or> ObserveDuplicate \<in> set ms \<longleftrightarrow> status = 200) \<and>
    \<not> (ObserveAccepted \<in> set ms \<and> ObserveDuplicate \<in> set ms) \<and>
    (ObserveEnqueueFailure \<in> set ms \<longrightarrow> status = 503)"
  using handler_reach_ok [OF assms(1)]
proof (cases rule: authorizeRequest_cases [of "h_token h" h env r run])
  case (rejected h1)
  with assms(2) show ?thesis by (auto simp: ServeHTTP_body split: if_splits)
next
  case (unreadable e)
  with assms(2) statusForDecodeError_range [of e] show ?thesis by (auto simp: ServeHTTP_body split: if_splits)
next
  case (checked target body st s' ans st' h1)
  obtain s2 h2 ms2 where sb: "serve_body env h1 r body = (s2, h2, ms2)" using prod_cases3 by blast
  show ?thesis
    using serve_body_metrics [OF sb] assms(2) checked(7)
    by (auto simp: ServeHTTP_body sb split: if_splits sum.splits)
qed


section \<open>Replays\<close>

lemma run_store_append:
  "snd (run_store f st (xs @ ys)) = snd (run_store f (snd (run_store f st xs)) ys)"
  by (induction f st xs rule: run_store.induct) (auto simp: split_beta prod_eq_iff)

lemma ServeHTTP_store:
  assumes "handler_ok secret h" and "ServeHTTP env h r run = (status, h', ms)" and "h_nonceStore h = Some st"
  shows "\<exists>calls. h_nonceStore h' = Some (snd (run_store (be_IsDuplicate env) st calls)) \<and>
    (\<forall>c \<in> set calls. fst c = at_nonce run)"
proof -
  have none: "h_nonceStore h' = Some st \<Longrightarrow> ?thesis" by (intro exI [of _ "[]"]) simp
  note sb = serve_body_store
  show ?thesis
    using assms(1)
  proof (cases rule: authorizeRequest_cases [of secret h env r run])
    case (rejected h1)
    from rejected(2) have "h_nonceStore h1 = h_nonceStore h" by (rule rejected_stateE) simp
    with rejected(1) assms(2,3) none show ?thesis by (auto simp: ServeHTTP_body split: if_splits)
  next
    case (unreadable e)
    with assms(2,3) none show ?thesis by (auto simp: ServeHTTP_body split: if_splits)
  next
    case (checked target body st1 s' ans st' h1)
    show ?thesis
    proof (cases "req_method r = ''POST''")
      case True
      with checked(7) assms(2) sb have "h_nonceStore h' = h_nonceStore h1"
        by (auto simp: ServeHTTP_body split: sum.splits prod.splits if_splits)
      then show ?thesis
        using checked(3,5,6) assms(3)
        by (intro exI [of _ "[(at_nonce run, store_key env r target, 2 * h_replayWindow h)]"]) simp
    next
      case False
      with assms(2,3) none show ?thesis by (auto simp: ServeHTTP_body)
    qed
  qed
qed

lemma serve_all_store:
  assumes "handler_ok secret h" and "serve_all env h reqs = (ss, h')" and "h_nonceStore h = Some st"
  shows "\<exists>calls. h_nonceStore h' = Some (snd (run_store (be_IsDuplicate env) st calls)) \<and>
    (\<forall>c \<in> set calls. \<exists>(r, run) \<in> set reqs. fst c = at_nonce run) \<and> handler_ok secret h'"
  using assms
proof (induction reqs arbitrary: h st ss)
  case Nil
  then show ?case by (intro exI [of _ "[]"]) simp
next
  case (Cons rr reqs)
  obtain r run where rr: "rr = (r, run)" by fastforce
  obtain status h1 ms where one: "ServeHTTP env h r run = (status, h1, ms)" using prod_cases3 by blast
  with Cons.prems(2) obtain ss' where rest: "serve_all env h1 reqs = (ss', h')"
    by (auto simp: rr split: prod.splits)
  from ServeHTTP_store [OF Cons.prems(1) one Cons.prems(3)] obtain c1 where
    c1: "h_nonceStore h1 = Some (snd (run_store (be_IsDuplicate env) st c1))" "\<forall>c \<in> set c1. fst c = at_nonce run"
    by blast
  from Cons.IH [OF ServeHTTP_frame(1) [OF Cons.prems(1) one] rest c1(1)] obtain c2 where
    c2: "h_nonceStore h' = Some (snd (run_store (be_IsDuplicate env) (snd (run_store (be_IsDuplicate env) st c1)) c2))"
      "\<forall>c \<in> set c2. \<exists>(r, run) \<in> set reqs. fst c = at_nonce run" "handler_ok secret h'"
    by blast
  show ?case
    by (rule exI [of _ "c1 @ c2"]) (use c1(2) c2 rr in \<open>auto simp: run_store_append\<close>)
qed

lemma serve_all_reach: "handler_reach env h \<Longrightarrow> serve_all env h reqs = (ss, h') \<Longrightarrow> handler_reach env h'"
proof (induction reqs arbitrary: h ss)
  case (Cons rr reqs)
  obtain r run where rr: "rr = (r, run)" by fastforce
  obtain status h1 ms where one: "ServeHTTP env h r run = (status, h1, ms)" using prod_cases3 by blast
  with Cons.prems(2) obtain ss' where "serve_all env h1 reqs = (ss', h')"
    by (auto simp: rr split: prod.splits)
  then show ?case by (rule Cons.IH [OF hr_serve [OF Cons.prems(1) one]])
qed simp

text \<open>
  With a set-once store that keeps a nonce for the requested ten minutes, a request that has
  been admitted once is never admitted again under the same method, target, timestamp and nonce,
  whatever is served in between, provided reading its body the second time takes no longer than
  five minutes less the lead of the sender's clock at the first receipt.
\<close>

theorem no_replay:
  assumes store: "set_once_store (be_IsDuplicate env) recorded covered" "10 * Minute \<le> covered (10 * Minute)"
    and reach: "handler_reach env h"
    and first: "ServeHTTP env h r1 run1 = (s1, h1, ms1)" "s1 = 200 \<or> h_admitter h1 \<noteq> h_admitter h"
    and between: "serve_all env h1 reqs = (ss, h2)"
    and second: "ServeHTTP env h2 r2 run2 = (s2, h3, ms3)"
    and same: "req_method r2 = req_method r1" "request_uri r2 = request_uri r1" "ts_of r2 = ts_of r1" "nonce_of r2 = nonce_of r1"
    and order: "\<forall>(r, run) \<in> set reqs. at_nonce run \<le> at_nonce run2" "at_nonce run1 \<le> at_nonce run2"
      "at_headers run1 \<le> at_nonce run1"
    and ts: "parse_int64 (ts_of r1) = Some ts"
    and delay: "at_nonce run2 - at_headers run2 \<le> 5 * Minute - (ts * Millisecond - at_headers run1)"
  shows "s2 \<noteq> 200 \<and> h_admitter h3 = h_admitter h2"
proof (rule ccontr)
  assume "\<not> ?thesis"
  then have again: "s2 = 200 \<or> h_admitter h3 \<noteq> h_admitter h2" by blast
  have reach1: "handler_reach env h1" by (rule hr_serve [OF reach first(1)])
  have reach2: "handler_reach env h2" by (rule serve_all_reach [OF reach1 between])
  from admitted_conditions [OF reach first] obtain t1 b1 st st1 where
    a1: "authentic (be_case env) (h_token h) (5 * Minute) (at_headers run1) r1 t1 b1"
    and d1: "be_IsDuplicate env st (at_nonce run1) (store_key env r1 t1) (10 * Minute) = (Inr False, st1)"
    and st1: "h_nonceStore h1 = Some st1"
    by metis
  from admitted_conditions [OF reach2 second again] obtain t2 b2 st2 st3 where
    a2: "authentic (be_case env) (h_token h2) (5 * Minute) (at_headers run2) r2 t2 b2"
    and d2: "be_IsDuplicate env st2 (at_nonce run2) (store_key env r2 t2) (10 * Minute) = (Inr False, st3)"
    and st2: "h_nonceStore h2 = Some st2"
    by metis
  have key: "store_key env r2 t2 = store_key env r1 t1"
    using a1 a2 same by (simp add: authentic_def)
  from serve_all_store [OF handler_reach_ok [OF reach1] between st1] obtain calls where
    calls: "st2 = snd (run_store (be_IsDuplicate env) st1 calls)" "\<forall>c \<in> set calls. \<exists>(r, run) \<in> set reqs. fst c = at_nonce run"
    using st2 by auto
  have "at_headers run2 \<le> ts * Millisecond + 5 * Minute"
    using a2 ts same(3) by (auto simp: authentic_def in_window_def)
  then have "at_nonce run2 \<le> at_nonce run1 + covered (10 * Minute)"
    using delay order(3) store(2) by linarith
  moreover have "\<forall>(now', k, ttl') \<in> set calls. now' \<le> at_nonce run2"
    using calls(2) order(1) by fastforce
  ultimately have "fst (be_IsDuplicate env st2 (at_nonce run2) (store_key env r1 t1) (10 * Minute)) \<noteq> Inr False"
    unfolding calls(1) by (intro set_once_store.fresh_once [OF store(1) d1 _ order(2)])
  with d2 key show False by simp
qed


section \<open>Signed requests are authentic\<close>

text \<open>
  What the server sees of a request the client sends: the authority is the request's \<open>Host\<close>, or the
  host of its URL when that is empty.
\<close>

definition deliver :: "http_request \<Rightarrow> http_request" where
  "deliver r = r\<lparr>req_host := (if req_host r = [] then (case req_url r of Some u \<Rightarrow> url_host u | None \<Rightarrow> []) else req_host r)\<rparr>"

lemma signRequest_result:
  assumes "signRequest uc (Some r) secret body ts n = Inr r'"
  obtains u i target c where "req_url r = Some u" and "req_method r = ''POST''" and "trim_space secret \<noteq> []"
    and "normalizedSigningMessageID (req_header r) = Inr i" and "trim_space ts \<noteq> []" and "trim_space n \<noteq> []"
    and "CanonicalTarget (RequestURI u) = Inr target"
    and "canonicalRequestV3 uc r u target (trim_space ts) (trim_space n) i (hex_encode (sha256 body)) = Inr c"
    and "r' = setSignedBody (r\<lparr>req_header := signed_headers (req_header r) (trim_space ts) (trim_space n)
          (hex_encode (sha256 body)) (hex_encode (hmac_sha256 (trim_space secret) c)) i\<rparr>) body"
  using assms
  by (cases "CanonicalTarget (RequestURI (the (req_url r)))")
    (auto simp: signRequest_def validateSigningRequest_def normalizedSigningSecret_def normalizedSigningTime_def
      SignHash_exact NewMAC_def hex_digest Let_def split: option.splits if_splits)

lemma canonicalRequestV3_host:
  assumes "canonicalRequestV3 uc r u target ts n i d = Inr c"
  shows "CanonicalWebhookRequestV3 uc (if req_host r = [] then url_host u else req_host r) (req_method r) target ts n i d = Inr c"
  using assms by (auto simp: canonicalRequestV3_def split: sum.splits if_splits)

lemma signing_message_id:
  assumes "normalizedSigningMessageID hdr = Inr i"
  shows "NormalizeMessageID i = (i, True)" and "i \<noteq> []"
  using assms
  by (auto simp: normalizedSigningMessageID_def NormalizeMessageID_def Let_def split: list.splits prod.splits if_splits)

lemma signed_request_authentic:
  assumes "signRequest uc (Some r) secret body ts n = Inr r'" and "in_window w now (trim_space ts)"
  shows "\<exists>target. authentic uc (trim_space secret) w now (deliver r') target body"
  using assms(1)
proof (rule signRequest_result)
  fix u i target c
  assume u: "req_url r = Some u" and ne: "trim_space ts \<noteq> []" "trim_space n \<noteq> []"
    and i: "normalizedSigningMessageID (req_header r) = Inr i" and tg: "CanonicalTarget (RequestURI u) = Inr target"
    and c: "canonicalRequestV3 uc r u target (trim_space ts) (trim_space n) i (hex_encode (sha256 body)) = Inr c"
    and r': "r' = setSignedBody (r\<lparr>req_header := signed_headers (req_header r) (trim_space ts) (trim_space n)
          (hex_encode (sha256 body)) (hex_encode (hmac_sha256 (trim_space secret) c)) i\<rparr>) body"
  note fields = r' setSignedBody_eq deliver_def ts_of_def nonce_of_def signed_headers_values
  have hex: "trim_space (hex_encode x) = hex_encode x" for x
    by (rule trim_space_all_visible) (use hex_encode_digits [of x] is_lower_hex_lower in \<open>auto simp: list_all_iff\<close>)
  have v3: "trim_space ''v3'' = ''v3''" by (rule trim_space_all_visible) (simp add: is_visible_def)
  have "to_lower uc ''v3'' = ''v3''"
    by (simp add: to_lower_ascii is_ascii_def ascii_lower_def is_upper_def less_eq_char_def)
  then have "version_ok uc (deliver r')" by (simp add: version_ok_def fields v3)
  moreover have "message_id_of (deliver r') i"
    using signing_message_id [OF i] by (simp add: message_id_of_def fields)
  moreover have "CanonicalWebhookRequestV3 uc (req_host (deliver r')) (req_method (deliver r')) target
      (ts_of (deliver r')) (nonce_of (deliver r')) i (hex_encode (sha256 body)) = Inr c"
    using canonicalRequestV3_host [OF c] u by (auto simp: fields split: if_splits)
  ultimately show ?thesis
    using assms(2) ne tg u
    by (intro exI [of _ target]) (auto simp: authentic_def fields hex request_uri_def)
qed

lemma signed_request_body:
  assumes "signRequest uc (Some r) secret body ts n = Inr r'" and "int (length body) \<le> limit"
  shows "read_body limit (deliver r') = Inr body"
  using assms(1) by (rule signRequest_result) (use assms(2) in \<open>auto simp: read_body_def read_all_max_def setSignedBody_eq
    deliver_def body_of_def\<close>)

lemma signed_request_admitted:
  assumes "handler_reach env h" and "trim_space secret = h_token h"
    and sign: "signRequest (be_case env) (Some r) secret body ts n = Inr r'"
    and window: "in_window (5 * Minute) (at_headers run) (trim_space ts)"
    and limit: "int (length body) \<le> maxBodyBytes (h_options h)"
    and json: "isJSONContentType (be_case env) (header_Get (req_header r) ''Content-Type'')"
    and decode: "DecodeMessage (be_Unmarshal env) body = Inr m"
    and ident: "normalizedSigningMessageID (req_header r) = Inr (mj_MessageID (the (m_JSON m)))"
    and store: "\<And>key. fst (be_IsDuplicate env (the (h_nonceStore h)) (at_nonce run) key (10 * Minute)) = Inr False"
    and open_ctx: "\<not> h_closed h" "\<not> req_ctx_done r"
    and admit: "fst (be_AdmitMessage env (h_admitter h) m body) = None"
  shows "fst (ServeHTTP env h (deliver r') run) = 200"
proof -
  note ok = handler_reach_ok [OF assms(1)]
  then have win: "h_replayWindow h = 5 * Minute" by (simp add: handler_ok_def defaultReplayWindow_def)
  from ok obtain st where st: "h_nonceStore h = Some st" by (auto simp: handler_ok_def)
  from signed_request_authentic [OF sign window] obtain target where
    auth: "authentic (be_case env) (h_token h) (5 * Minute) (at_headers run) (deliver r') target body"
    by (auto simp: assms(2))
  let ?dup = "be_IsDuplicate env st (at_nonce run) (store_key env (deliver r') target) (10 * Minute)"
  have dup: "?dup = (Inr False, snd ?dup)" using store st by (simp add: prod_eq_iff)
  from sign have same: "req_method (deliver r') = ''POST''" "req_ctx_done (deliver r') = req_ctx_done r"
      "header_Get (req_header (deliver r')) ''Content-Type'' = header_Get (req_header r) ''Content-Type''"
      "message_id_of (deliver r') (mj_MessageID (the (m_JSON m)))"
    using ident signing_message_id [OF ident]
    by (auto elim!: signRequest_result simp: setSignedBody_eq deliver_def signed_headers_values message_id_of_def)
  from ServeHTTP_authentic [OF ok same(1) signed_request_body [OF sign limit], of env run target st "Inr False" "snd ?dup"]
  obtain h1 where h1: "h_admitter h1 = h_admitter h" "h_closed h1 = h_closed h"
    "ServeHTTP env h (deliver r') run =
      (case serve_body env h1 (deliver r') body of (status, h2, ms2) \<Rightarrow> (status, h2, ObserveRequest # ms2))"
    using auth st dup by (auto simp: win)
  then show ?thesis
    using json decode same open_ctx admit by (simp add: serve_body_def admitMessage_exact split_beta)
qed

text \<open>
  C5: signer and verifier agree. A request signed with the handler's secret, delivered while its
  timestamp is within five minutes of the handler's clock, with a body within the limit and a nonce
  the store has not seen, is never rejected as unauthorised or too large; if its body is JSON for a
  message with the signed identifier and the admitter takes the message, it is answered 200.
\<close>

theorem signed_request_accepted:
  assumes "handler_reach env h" and "trim_space secret = h_token h"
    and sign: "signRequest (be_case env) (Some r) secret body ts n = Inr r'"
    and window: "in_window (5 * Minute) (at_headers run) (trim_space ts)"
    and limit: "int (length body) \<le> maxBodyBytes (h_options h)"
    and json: "isJSONContentType (be_case env) (header_Get (req_header r) ''Content-Type'')"
    and decode: "DecodeMessage (be_Unmarshal env) body = Inr m"
    and ident: "normalizedSigningMessageID (req_header r) = Inr (mj_MessageID (the (m_JSON m)))"
    and store: "\<And>key. fst (be_IsDuplicate env (the (h_nonceStore h)) (at_nonce run) key (10 * Minute)) = Inr False"
    and open_ctx: "\<not> h_closed h" "\<not> req_ctx_done r"
    and admit: "fst (be_AdmitMessage env (h_admitter h) m body) = None"
  shows "fst (ServeHTTP env h (deliver r') run) = 200"
  using assms by (rule signed_request_admitted)

section \<open>A handler and a signed request\<close>

definition empty_keyspace :: keyspace where
  "empty_keyspace = \<lparr>deadline = \<lambda>_. None, reachable = True\<rparr>"

text \<open>An admitter that stores every message, over the Valkey store; every body decodes to the sample payload.\<close>

definition sample_env :: "(keyspace, Message list) backend" where
  "sample_env = \<lparr>be_IsDuplicate = IsDuplicate keyspace_set, be_AdmitMessage = (\<lambda>inbox m body. (None, m # inbox)),
     be_Unmarshal = (\<lambda>_. Some sample_request), be_case = ascii_case\<rparr>"

definition sample_options :: "keyspace HandlerOption list" where
  "sample_options = [WithWebhookToken ''secret'', WithNonceStore (Some empty_keyspace)]"

definition sample_handler :: "(keyspace, Message list) Handler" where
  "sample_handler = (case NewDurableHandler (Some []) sample_options of Inr h \<Rightarrow> h | Inl _ \<Rightarrow> initial_handler [])"

definition sample_unsigned :: http_request where
  "sample_unsigned = \<lparr>req_method = ''POST'',
     req_url = Some \<lparr>url_scheme = ''http'', url_opaque = [], url_host = ''hub.local:80'', url_path = ''/hook'',
       url_force_query = False, url_query = []\<rparr>,
     req_host = [], req_header = [(''X-Iris-Message-Id'', [''m-1'']), (''Content-Type'', [''application/json''])],
     req_body = body_of [], req_get_body = None, req_content_length = 0, req_ctx_done = False\<rparr>"

abbreviation sample_sign :: "(sign_error, http_request) result" where
  "sample_sign \<equiv> signRequest ascii_case (Some sample_unsigned) ''secret'' ''{}'' ''1700000000000'' ''n1''"

definition sample_signed :: http_request where
  "sample_signed = (case sample_sign of Inr r \<Rightarrow> r | Inl _ \<Rightarrow> sample_unsigned)"

definition sample_at :: instant where
  "sample_at = 1700000000000 * Millisecond"

lemma sample_visible: "list_all is_visible s \<Longrightarrow> trim_space s = s"
  by (rule trim_space_all_visible)

lemma sample_new: "NewDurableHandler (Some []) sample_options = Inr sample_handler"
proof -
  have "trim_space ''secret'' = ''secret''" by (rule sample_visible) (simp add: is_visible_def)
  then have "isl (NewDurableHandler (Some ([] :: Message list)) sample_options) \<longleftrightarrow> False"
    by (simp add: NewDurableHandler_def sample_options_def initial_handler_def Let_def)
  then show ?thesis by (auto simp: sample_handler_def split: sum.splits)
qed

lemma sample_handler_fields:
  "h_token sample_handler = ''secret''" "h_closed sample_handler = False"
  "h_nonceStore sample_handler = Some empty_keyspace" "h_admitter sample_handler = []"
  "maxBodyBytes (h_options sample_handler) = 1048576"
proof -
  have t: "trim_space ''secret'' = ''secret''" by (rule sample_visible) (simp add: is_visible_def)
  show "h_token sample_handler = ''secret''" "h_closed sample_handler = False"
    "h_nonceStore sample_handler = Some empty_keyspace" "h_admitter sample_handler = []"
    "maxBodyBytes (h_options sample_handler) = 1048576"
    by (simp_all add: sample_handler_def NewDurableHandler_def sample_options_def initial_handler_def t Let_def
        normalizeHandlerOptions_def defaultHandlerOptions_def defaultAdmitTimeout_def defaultNonceTimeout_def
        defaultMaxBodyBytes_def Second_def Millisecond_def)
qed

lemma sample_reach: "handler_reach sample_env sample_handler"
  by (rule hr_new [OF sample_new])

lemma sample_message_id: "normalizedSigningMessageID (req_header sample_unsigned) = Inr ''m-1''"
proof -
  have "NormalizeMessageID ''m-1'' = (''m-1'', True)"
    by (simp add: NormalizeMessageID_def MaxMessageIDBytes_def validMessageIDByte_def is_lower_def is_digit_def
        less_eq_char_def sample_visible is_visible_def)
  moreover have "equal_fold_ascii ''X-Iris-Message-Id'' HeaderIrisMessageID"
    unfolding header_names by (rule equal_fold_refl) (simp add: is_ascii_def)
  ultimately show ?thesis
    using equal_fold_names(6)
    by (simp add: normalizedSigningMessageID_def messageIDHeaderValues_def sample_unsigned_def)
qed

lemma sample_authority: "canonicalWebhookAuthority ascii_case ''hub.local:80'' = Inr ''hub.local:80''"
  using canonical_authority_fixed [OF example_authority [of ascii_case]] by simp

lemma sample_sign_ok: "sample_sign = Inr sample_signed"
proof -
  have "\<exists>r'. sample_sign = Inr r'"
    using sample_message_id
    by (simp add: signRequest_def validateSigningRequest_def normalizedSigningSecret_def normalizedSigningTime_def
        sample_visible is_visible_def Let_def)
      (simp add: sample_unsigned_def RequestURI_def CanonicalTarget_def canonicalTarget_def canonicalRequestV3_def
        CanonicalWebhookRequestV3_def sample_authority Let_def)
  then show ?thesis by (auto simp: sample_signed_def)
qed

lemma sample_json: "isJSONContentType ascii_case (header_Get (req_header sample_unsigned) ''Content-Type'')"
proof -
  have ct: "header_Get (req_header sample_unsigned) ''Content-Type'' = ''application/json''"
    by (simp add: sample_unsigned_def header_Get_def header_Values_def canonical_key_eval)
  have lo: "to_lower ascii_case ''application/json'' = ''application/json''"
    by (simp add: to_lower_ascii is_ascii_def ascii_lower_def is_upper_def less_eq_char_def)
  have trim: "trim_space ''application/json'' = ''application/json''" by (rule sample_visible) (simp add: is_visible_def)
  have "media_params ascii_case n [] []" for n
    using trim_left_length [of "[]"] by (simp add: media_params.simps)
  then have "ParseMediaType ascii_case ''application/json'' = Some ''application/json''"
    by (simp add: ParseMediaType_def lo trim checkMediaTypeDisposition_def consumeToken_def mime_token_byte_def is_tspecial_def)
  then show ?thesis
    unfolding ct isJSONContentType_def
    by (simp add: equal_fold_refl is_ascii_def)
qed

lemma sample_decodes: "DecodeMessage (be_Unmarshal sample_env) body = Inr (buildMessage (Some sample_request))"
proof -
  have "parseWebhookRequest (\<lambda>_. Some sample_request) body = Inr sample_request"
    by (simp add: parse_accepts sample_request_valid) (simp add: sample_request_def empty_request_def)
  then show ?thesis by (simp add: DecodeMessage_def sample_env_def)
qed

lemma sample_decoded_id: "mj_MessageID (the (m_JSON (buildMessage (Some sample_request)))) = ''m-1''"
  using sample_request_valid(2) by (simp add: buildMessage_id)

lemma sample_timestamp:
  "trim_space ''1700000000000'' = ''1700000000000''" "parse_int64 ''1700000000000'' = Some 1700000000000"
proof -
  show "trim_space ''1700000000000'' = ''1700000000000''" by (rule sample_visible) (simp add: is_visible_def)
  show "parse_int64 ''1700000000000'' = Some 1700000000000"
    by (simp add: parse_int64_def parse_uint_def is_digit_def less_eq_char_def digits_val_def digit_val_def)
qed

abbreviation sample_key :: string where
  "sample_key \<equiv> nonce_key ascii_case ''POST'' ''/hook'' ''1700000000000'' ''n1''"

lemma signed_request_fields:
  assumes "signRequest uc (Some r) secret body ts n = Inr r'"
  shows "req_method (deliver r') = ''POST''" "ts_of (deliver r') = trim_space ts" "nonce_of (deliver r') = trim_space n"
    "request_uri (deliver r') = request_uri r"
  using assms
  by (auto elim!: signRequest_result simp: setSignedBody_eq deliver_def ts_of_def nonce_of_def signed_headers_values
      request_uri_def)

lemma sample_signed_fields:
  "req_method (deliver sample_signed) = ''POST''" "ts_of (deliver sample_signed) = ''1700000000000''"
  "nonce_of (deliver sample_signed) = ''n1''" "request_uri (deliver sample_signed) = ''/hook''"
  using sample_timestamp(1)
  by (simp_all add: signed_request_fields [OF sample_sign_ok] sample_visible is_visible_def)
    (simp add: sample_unsigned_def RequestURI_def request_uri_def)

text \<open>The signed request is admitted whenever its key is not live and its timestamp is in the window.\<close>

lemma sample_serve:
  assumes reach: "handler_reach sample_env h" and tok: "h_token h = ''secret''" "\<not> h_closed h"
    and st: "h_nonceStore h = Some ks" "reachable ks" and limit: "2 \<le> maxBodyBytes (h_options h)"
    and now: "\<bar>sample_at - at_headers run\<bar> \<le> 5 * Minute"
    and fresh: "\<And>key. \<not> live ks key (at_nonce run div Millisecond)"
  shows "\<exists>h' ms. ServeHTTP sample_env h (deliver sample_signed) run = (200, h', ms) \<and>
    h_nonceStore h' = Some (ks\<lparr>deadline := (deadline ks)(sample_key \<mapsto> at_nonce run div Millisecond + 600000)\<rparr>) \<and>
    h_admitter h' = buildMessage (Some sample_request) # h_admitter h"
proof -
  have env: "be_case sample_env = ascii_case" "be_IsDuplicate sample_env = IsDuplicate keyspace_set"
    "be_AdmitMessage sample_env = (\<lambda>inbox m body. (None, m # inbox))"
    by (simp_all add: sample_env_def)
  have ttl: "flooredTTL (10 * Minute) div Millisecond = 600000"
    by (simp add: flooredTTL_def Minute_def Millisecond_def)
  have dup: "IsDuplicate keyspace_set ks (at_nonce run) key (10 * Minute) =
      (Inr False, ks\<lparr>deadline := (deadline ks)(key \<mapsto> at_nonce run div Millisecond + 600000)\<rparr>)" for key
    using st(2) fresh by (simp add: IsDuplicate_def keyspace_set_def ttl)
  obtain h' ms status where res: "ServeHTTP sample_env h (deliver sample_signed) run = (status, h', ms)"
    using prod_cases3 by blast
  have "fst (ServeHTTP sample_env h (deliver sample_signed) run) = 200"
    by (rule signed_request_admitted [OF reach, where r = sample_unsigned and secret = "''secret''" and body = "''{}''"
          and ts = "''1700000000000''" and n = "''n1''" and m = "buildMessage (Some sample_request)"])
      (use tok limit st now sample_sign_ok sample_json sample_message_id in
        \<open>simp_all add: env dup sample_decodes sample_decoded_id sample_visible is_visible_def
          in_window_def sample_timestamp sample_at_def sample_unsigned_def\<close>)
  with res have s: "status = 200" by simp
  from admitted_conditions [OF reach res] s obtain target body st' m err where
    "authentic (be_case sample_env) (h_token h) (5 * Minute) (at_headers run) (deliver sample_signed) target body"
    "be_IsDuplicate sample_env ks (at_nonce run) (store_key sample_env (deliver sample_signed) target) (10 * Minute) = (Inr False, st')"
    "h_nonceStore h' = Some st'" "DecodeMessage (be_Unmarshal sample_env) body = Inr m"
    "be_AdmitMessage sample_env (h_admitter h) m body = (err, h_admitter h')"
    using st(1) by auto
  then show ?thesis
    using res s by (auto simp: env dup sample_decodes sample_signed_fields authentic_def CanonicalTarget_def canonicalTarget_def)
qed


abbreviation run_at :: "instant \<Rightarrow> instant \<Rightarrow> serve_run" where
  "run_at t t' \<equiv> \<lparr>at_headers = t, at_nonce = t', pool_choice = None\<rparr>"

text \<open>The first delivery to a new handler.\<close>

lemma sample_first:
  assumes "\<bar>sample_at - t\<bar> \<le> 5 * Minute"
  obtains h1 ms where "ServeHTTP sample_env sample_handler (deliver sample_signed) (run_at t t') = (200, h1, ms)"
    and "h_nonceStore h1 = Some \<lparr>deadline = [sample_key \<mapsto> t' div Millisecond + 600000], reachable = True\<rparr>"
    and "h_admitter h1 = [buildMessage (Some sample_request)]"
    and "handler_reach sample_env h1" and "h_token h1 = ''secret''" and "\<not> h_closed h1" and "2 \<le> maxBodyBytes (h_options h1)"
proof -
  obtain h1 ms where res: "ServeHTTP sample_env sample_handler (deliver sample_signed) (run_at t t') = (200, h1, ms)"
    and st: "h_nonceStore h1 = Some (empty_keyspace\<lparr>deadline := (deadline empty_keyspace)(sample_key \<mapsto> t' div Millisecond + 600000)\<rparr>)"
    and ad: "h_admitter h1 = [buildMessage (Some sample_request)]"
    using sample_serve [OF sample_reach sample_handler_fields(1) _ sample_handler_fields(3), of "run_at t t'"]
      assms sample_handler_fields
    by (auto simp: empty_keyspace_def live_def)
  note fr = ServeHTTP_frame [OF handler_reach_ok [OF sample_reach] res]
  show thesis
    by (rule that [OF res _ ad hr_serve [OF sample_reach res]])
      (use st fr sample_handler_fields in \<open>simp_all add: empty_keyspace_def\<close>)
qed

lemma sample_near: "\<bar>sample_at - sample_at\<bar> \<le> 5 * Minute"
  by (simp add: Minute_def)

theorem admitted_only_if_authentic_witness:
  "\<exists>target body. authentic ascii_case ''secret'' (5 * Minute) sample_at (deliver sample_signed) target body"
proof -
  obtain h1 ms where res: "ServeHTTP sample_env sample_handler (deliver sample_signed) (run_at sample_at sample_at) = (200, h1, ms)"
    using sample_first [OF sample_near] by metis
  from admitted_only_if_authentic [OF sample_reach res] show ?thesis
    by (auto simp: sample_handler_fields sample_env_def)
qed

theorem nonces_burnt_only_if_authentic_witness:
  "\<exists>h1 ms. ServeHTTP sample_env sample_handler (deliver sample_signed) (run_at sample_at sample_at) = (200, h1, ms) \<and>
     h_nonceStore h1 \<noteq> h_nonceStore sample_handler \<and>
     (\<exists>target body. authentic ascii_case ''secret'' (5 * Minute) sample_at (deliver sample_signed) target body)"
proof -
  obtain h1 ms where res: "ServeHTTP sample_env sample_handler (deliver sample_signed) (run_at sample_at sample_at) = (200, h1, ms)"
    and st: "h_nonceStore h1 = Some \<lparr>deadline = [sample_key \<mapsto> sample_at div Millisecond + 600000], reachable = True\<rparr>"
    using sample_first [OF sample_near] by metis
  have "h_nonceStore h1 \<noteq> h_nonceStore sample_handler"
    by (auto simp: st sample_handler_fields empty_keyspace_def fun_eq_iff)
  with res nonces_burnt_only_if_authentic [OF sample_reach res] show ?thesis
    by (auto simp: sample_handler_fields sample_env_def)
qed

lemma sample_authentic:
  "authentic ascii_case ''secret'' (5 * Minute) sample_at (deliver sample_signed) ''/hook'' ''{}''"
  "read_body 1048576 (deliver sample_signed) = Inr ''{}''"
proof -
  have trim: "trim_space ''secret'' = ''secret''" by (rule sample_visible) (simp add: is_visible_def)
  have "in_window (5 * Minute) sample_at (trim_space ''1700000000000'')"
    by (simp add: in_window_def sample_timestamp sample_at_def Minute_def)
  from signed_request_authentic [OF sample_sign_ok this]
  obtain target where a: "authentic ascii_case ''secret'' (5 * Minute) sample_at (deliver sample_signed) target ''{}''"
    by (auto simp: trim)
  then have "CanonicalTarget ''/hook'' = Inr target" by (simp add: authentic_def sample_signed_fields)
  then have "target = ''/hook''" by (simp add: CanonicalTarget_def canonicalTarget_def)
  with a show "authentic ascii_case ''secret'' (5 * Minute) sample_at (deliver sample_signed) ''/hook'' ''{}''" by simp
  show "read_body 1048576 (deliver sample_signed) = Inr ''{}''"
    by (rule signed_request_body [OF sample_sign_ok]) simp
qed

lemma sample_signed_rest:
  "header_Get (req_header (deliver sample_signed)) ''Content-Type'' = header_Get (req_header sample_unsigned) ''Content-Type''"
  "message_id_of (deliver sample_signed) ''m-1''" "\<not> req_ctx_done (deliver sample_signed)"
proof -
  obtain u i target c where r': "sample_signed = setSignedBody (sample_unsigned\<lparr>req_header := signed_headers
      (req_header sample_unsigned) (trim_space ''1700000000000'') (trim_space ''n1'') (hex_encode (sha256 ''{}''))
      (hex_encode (hmac_sha256 (trim_space ''secret'') c)) i\<rparr>) ''{}''"
    and i: "normalizedSigningMessageID (req_header sample_unsigned) = Inr i"
    using signRequest_result [OF sample_sign_ok] by metis
  show "header_Get (req_header (deliver sample_signed)) ''Content-Type'' = header_Get (req_header sample_unsigned) ''Content-Type''"
    "message_id_of (deliver sample_signed) ''m-1''"
    using i sample_message_id signing_message_id [OF sample_message_id]
    by (simp_all add: r' setSignedBody_eq deliver_def signed_headers_values message_id_of_def)
  show "\<not> req_ctx_done (deliver sample_signed)" by (simp add: r' setSignedBody_eq deliver_def sample_unsigned_def)
qed

theorem authentic_request_outcome_witness:
  "fst (ServeHTTP (sample_env\<lparr>be_IsDuplicate := \<lambda>st now key ttl. (Inl (), st)\<rparr>) sample_handler
     (deliver sample_signed) (run_at sample_at sample_at)) = 503"
proof -
  let ?env = "sample_env\<lparr>be_IsDuplicate := \<lambda>st now key ttl. (Inl (), st)\<rparr>"
  have reach: "handler_reach ?env sample_handler" by (rule hr_new [OF sample_new])
  have dup: "be_IsDuplicate ?env empty_keyspace (at_nonce (run_at sample_at sample_at))
      (store_key ?env (deliver sample_signed) ''/hook'') (10 * Minute) = (Inl (), empty_keyspace)"
    by simp
  show ?thesis
    using authentic_request_outcome [OF reach sample_signed_fields(1) _ _ _ _ _ _ dup,
        of "''{}''" "buildMessage (Some sample_request)"]
      sample_authentic sample_json sample_signed_rest sample_decodes [of "''{}''"]
    by (simp add: sample_handler_fields sample_decoded_id sample_env_def)
qed


theorem signed_request_accepted_witness:
  "fst (ServeHTTP sample_env sample_handler (deliver sample_signed) (run_at sample_at sample_at)) = 200"
  by (rule signed_request_accepted [OF sample_reach, where r = sample_unsigned and secret = "''secret''" and body = "''{}''"
        and ts = "''1700000000000''" and n = "''n1''" and m = "buildMessage (Some sample_request)"])
    (use sample_sign_ok sample_json sample_message_id in
      \<open>simp_all add: sample_decodes [unfolded sample_env_def, simplified] sample_decoded_id sample_visible is_visible_def sample_env_def
        in_window_def sample_timestamp sample_at_def sample_unsigned_def sample_handler_fields Minute_def
        IsDuplicate_def keyspace_set_def empty_keyspace_def live_def flooredTTL_def Millisecond_def\<close>)

text \<open>
  C10: the margin in the replay bound is needed: the window is checked before the body is read and
  the nonce after it, so a copy of a request received five minutes early, whose headers arrive as
  its timestamp is about to leave the window and whose body takes a millisecond more, is checked
  when the record of the first copy has just expired, and both copies are admitted.
\<close>

theorem replay_after_slow_body:
  "\<exists>h1 ms1 h2 ms2.
     ServeHTTP sample_env sample_handler (deliver sample_signed)
       (run_at (sample_at - 5 * Minute) (sample_at - 5 * Minute)) = (200, h1, ms1) \<and>
     ServeHTTP sample_env h1 (deliver sample_signed)
       (run_at (sample_at + 5 * Minute) (sample_at + 5 * Minute + Millisecond)) = (200, h2, ms2) \<and>
     length (h_admitter h2) = 2"
proof -
  have "\<bar>sample_at - (sample_at - 5 * Minute)\<bar> \<le> 5 * Minute" by (simp add: Minute_def)
  from sample_first [OF this, of "sample_at - 5 * Minute"] obtain h1 ms1 where
    one: "ServeHTTP sample_env sample_handler (deliver sample_signed) (run_at (sample_at - 5 * Minute) (sample_at - 5 * Minute)) = (200, h1, ms1)"
    and h1: "h_nonceStore h1 = Some \<lparr>deadline = [sample_key \<mapsto> (sample_at - 5 * Minute) div Millisecond + 600000], reachable = True\<rparr>"
      "h_admitter h1 = [buildMessage (Some sample_request)]" "handler_reach sample_env h1" "h_token h1 = ''secret''"
      "\<not> h_closed h1" "2 \<le> maxBodyBytes (h_options h1)"
    by metis
  have fresh: "\<not> live \<lparr>deadline = [sample_key \<mapsto> (sample_at - 5 * Minute) div Millisecond + 600000], reachable = True\<rparr> key
      ((sample_at + 5 * Minute + Millisecond) div Millisecond)" for key
    by (simp add: live_def sample_at_def Minute_def Millisecond_def)
  have "\<exists>h2 ms2. ServeHTTP sample_env h1 (deliver sample_signed)
      (run_at (sample_at + 5 * Minute) (sample_at + 5 * Minute + Millisecond)) = (200, h2, ms2) \<and>
      h_admitter h2 = buildMessage (Some sample_request) # h_admitter h1"
    using sample_serve [OF h1(3,4,5,1) _ h1(6), of "run_at (sample_at + 5 * Minute) (sample_at + 5 * Minute + Millisecond)"]
      fresh by (auto simp: Minute_def)
  with one h1(2) show ?thesis by fastforce
qed


end
