(* ===== verification/Webhook_Admission.thy ===== *)
theory Webhook_Admission
  imports Webhook_Security
begin

text \<open>
  Admission and shutdown of the webhook handler as a state machine: goroutines run the parts of
  \<open>admitMessage\<close> in any interleaving with \<open>CloseContext\<close> and the goroutine \<open>beginClose\<close> starts. The
  lemmas show that the wait group counts the admissions in flight, that nothing is admitted after
  the handler reported itself closed, and that closing always can complete.
\<close>

section \<open>Steps\<close>

text \<open>
  Where a goroutine inside \<open>admitMessage\<close> is: between \<open>admissions.Add\<close> and the checks, before the
  admitter call, or before \<open>admissions.Done\<close>.
\<close>

datatype phase = Entered Message bytes bool | Calling Message bytes | Returning "admit_error option"

type_synonym ('st, 'ad) config = "('st, 'ad) Handler \<times> phase list"

inductive adm_step :: "('st, 'ad) backend \<Rightarrow> ('st, 'ad) config \<Rightarrow> ('st, 'ad) config \<Rightarrow> bool" for env where
  enter: "admit_enter h = Inr h' \<Longrightarrow> adm_step env (h, xs @ ys) (h', xs @ Entered msg body ctx_done # ys)"
| refused: "admit_enter h = Inl e \<Longrightarrow> adm_step env (h, fl) (h, fl)"
| check_failed: "admit_check h ctx_done = Some e \<Longrightarrow>
    adm_step env (h, xs @ Entered msg body ctx_done # ys) (h, xs @ Returning (Some e) # ys)"
| check_passed: "admit_check h ctx_done = None \<Longrightarrow>
    adm_step env (h, xs @ Entered msg body ctx_done # ys) (h, xs @ Calling msg body # ys)"
| call: "admit_call env h msg body = (err, h') \<Longrightarrow>
    adm_step env (h, xs @ Calling msg body # ys) (h', xs @ Returning err # ys)"
| finish: "adm_step env (h, xs @ Returning err # ys) (admit_done h, xs @ ys)"
| begin_close: "adm_step env (h, fl) (beginClose h, fl)"
| wait_over: "h_closed h \<Longrightarrow> h_admissions h = 0 \<Longrightarrow> adm_step env (h, fl) (close_wait h, fl)"
| grace_over: "h_closed h \<Longrightarrow> adm_step env (h, fl) (snd (close_interrupted h), fl)"

inductive adm_steps :: "('st, 'ad) backend \<Rightarrow> ('st, 'ad) config \<Rightarrow> ('st, 'ad) config \<Rightarrow> bool" for env where
  adm_refl: "adm_steps env c c"
| adm_trans: "adm_step env c c' \<Longrightarrow> adm_steps env c' c'' \<Longrightarrow> adm_steps env c c''"

lemma adm_steps_trans: "adm_steps env c c' \<Longrightarrow> adm_steps env c' c'' \<Longrightarrow> adm_steps env c c''"
  by (induction rule: adm_steps.induct) (auto intro: adm_steps.intros)

lemma adm_steps_one: "adm_step env c c' \<Longrightarrow> adm_steps env c c'"
  by (blast intro: adm_steps.intros)

text \<open>A new handler with nothing in flight.\<close>

definition adm_initial :: "('st, 'ad) config \<Rightarrow> bool" where
  "adm_initial c \<longleftrightarrow> (\<exists>admitter opts. NewDurableHandler (Some admitter) opts = Inr (fst c)) \<and> snd c = []"

definition adm_reach :: "('st, 'ad) backend \<Rightarrow> ('st, 'ad) config \<Rightarrow> bool" where
  "adm_reach env c \<longleftrightarrow> (\<exists>c0. adm_initial c0 \<and> adm_steps env c0 c)"

section \<open>Invariant\<close>

definition adm_ok :: "('st, 'ad) config \<Rightarrow> bool" where
  "adm_ok c \<longleftrightarrow>
     h_admissions (fst c) = length (snd c) \<and>
     (h_closeDone (fst c) \<longrightarrow> h_closed (fst c) \<and> snd c = [] \<and> h_runCancelled (fst c)) \<and>
     (h_runCancelled (fst c) \<longrightarrow> h_closed (fst c))"

lemmas adm_defs =
  admit_enter_def admit_check_def admit_done_def admit_call_def beginClose_def close_wait_def close_interrupted_def

lemma fold_option_admission:
  "h_admissions (fold apply_option opts h) = h_admissions h \<and> h_closeDone (fold apply_option opts h) = h_closeDone h \<and>
   h_runCancelled (fold apply_option opts h) = h_runCancelled h"
proof (induction opts arbitrary: h)
  case (Cons opt opts)
  have "h_admissions (apply_option opt h) = h_admissions h \<and> h_closeDone (apply_option opt h) = h_closeDone h \<and>
    h_runCancelled (apply_option opt h) = h_runCancelled h"
    by (cases opt) auto
  with Cons show ?case by simp
qed simp

lemma adm_initial_ok: "adm_initial c \<Longrightarrow> adm_ok c"
  by (cases c)
    (auto simp: adm_initial_def adm_ok_def NewDurableHandler_def Let_def fold_option_admission initial_handler_def
      split: if_splits)

lemma adm_step_ok: "adm_step env c c' \<Longrightarrow> adm_ok c \<Longrightarrow> adm_ok c'"
  by (induction rule: adm_step.induct)
    (auto simp: adm_ok_def adm_defs Let_def split: if_splits prod.splits)

lemma adm_steps_ok: "adm_steps env c c' \<Longrightarrow> adm_ok c \<Longrightarrow> adm_ok c'"
  by (induction rule: adm_steps.induct) (auto dest: adm_step_ok)

lemma adm_reach_ok: "adm_reach env c \<Longrightarrow> adm_ok c"
  by (auto simp: adm_reach_def dest: adm_initial_ok adm_steps_ok)

section \<open>After closing\<close>

lemma closed_step:
  "adm_step env c c' \<Longrightarrow> h_closed (fst c) \<Longrightarrow> h_closed (fst c') \<and> length (snd c') \<le> length (snd c)"
  by (induction rule: adm_step.induct) (auto simp: adm_defs Let_def split: if_splits prod.splits)

lemma closeDone_step:
  "adm_step env c c' \<Longrightarrow> adm_ok c \<Longrightarrow> h_closeDone (fst c) \<Longrightarrow>
     h_closeDone (fst c') \<and> h_admitter (fst c') = h_admitter (fst c)"
  by (induction rule: adm_step.induct) (auto simp: adm_ok_def adm_defs Let_def split: if_splits prod.splits)

lemma closeDone_steps:
  "adm_steps env c c' \<Longrightarrow> adm_ok c \<Longrightarrow> h_closeDone (fst c) \<Longrightarrow>
     h_closeDone (fst c') \<and> h_admitter (fst c') = h_admitter (fst c)"
proof (induction rule: adm_steps.induct)
  case (adm_trans c c' c'')
  from closeDone_step [OF adm_trans.hyps(1) adm_trans.prems] adm_trans.IH adm_step_ok [OF adm_trans.hyps(1) adm_trans.prems(1)]
  show ?case by simp
qed simp

text \<open>What is left for a goroutine to do.\<close>

fun phase_weight :: "phase \<Rightarrow> nat" where
  "phase_weight (Entered _ _ _) = 3"
| "phase_weight (Calling _ _) = 2"
| "phase_weight (Returning _) = 1"

definition flight_weight :: "phase list \<Rightarrow> nat" where
  "flight_weight fl = sum_list (map phase_weight fl)"

lemma drain_one:
  assumes "fl \<noteq> []" and "h_closed h"
  obtains h' fl' where "adm_step env (h, fl) (h', fl')" and "flight_weight fl' < flight_weight fl" and "h_closed h'"
proof -
  from assms(1) obtain p ys where fl: "fl = [] @ p # ys" by (cases fl) auto
  show thesis
  proof (cases p)
    case (Entered msg body ctx_done)
    show thesis
      by (rule that [of h "[] @ Returning (Some AdmitClosed) # ys"])
        (use fl Entered assms(2) adm_step.check_failed [of h ctx_done AdmitClosed env "[]" msg body ys] in
          \<open>auto simp: admit_check_def flight_weight_def\<close>)
  next
    case (Calling msg body)
    obtain err h' where c: "admit_call env h msg body = (err, h')" by fastforce
    then have "h_closed h'" using assms(2) by (auto simp: admit_call_def split: prod.splits)
    with fl Calling adm_step.call [OF c, of "[]" ys] show thesis
      by (intro that [of h' "[] @ Returning err # ys"]) (auto simp: flight_weight_def)
  next
    case (Returning err)
    show thesis
      by (rule that [of "admit_done h" "[] @ ys"])
        (use fl Returning assms(2) adm_step.finish [of env h "[]" err ys] in \<open>auto simp: flight_weight_def admit_done_def\<close>)
  qed
qed

lemma drain_all:
  "h_closed h \<Longrightarrow> \<exists>h'. adm_steps env (h, fl) (h', []) \<and> h_closed h'"
proof (induction "flight_weight fl" arbitrary: h fl rule: less_induct)
  case less
  show ?case
  proof (cases "fl = []")
    case True
    with less.prems show ?thesis by (auto intro: adm_refl)
  next
    case False
    from drain_one [OF False less.prems] obtain h1 fl1 where
      "adm_step env (h, fl) (h1, fl1)" "flight_weight fl1 < flight_weight fl" "h_closed h1"
      by metis
    with less.hyps show ?thesis by (meson adm_trans)
  qed
qed

section \<open>Claims\<close>

text \<open>
  In every interleaving of admissions with closing, the wait group counts exactly the
  admissions in flight; once the handler has reported itself closed no admission is in flight, the
  run context is cancelled, and from then on nothing ever reaches the admitter.
\<close>

theorem closed_handler_is_quiescent:
  assumes "adm_reach env c"
  shows "h_admissions (fst c) = length (snd c) \<and>
    (h_closeDone (fst c) \<longrightarrow> snd c = [] \<and> h_runCancelled (fst c) \<and>
       (\<forall>c'. adm_steps env c c' \<longrightarrow> snd c' = [] \<and> h_admitter (fst c') = h_admitter (fst c)))"
  using adm_reach_ok [OF assms] closeDone_steps [of env c] adm_steps_ok [of env c]
  by (auto simp: adm_ok_def)

text \<open>
  C24: closing completes: from every reachable state in which closing has begun the admissions in
  flight can run to their end and the closing goroutine then reports the handler closed, while no
  step lets the number of admissions in flight grow again.
\<close>

theorem close_completes:
  assumes "adm_reach env c" and "h_closed (fst c)"
  shows "(\<exists>c'. adm_steps env c c' \<and> h_closeDone (fst c')) \<and>
    (\<forall>c'. adm_step env c c' \<longrightarrow> h_closed (fst c') \<and> length (snd c') \<le> length (snd c))"
proof -
  obtain h fl where c: "c = (h, fl)" by fastforce
  from drain_all [of h env fl] assms(2) c obtain h' where h': "adm_steps env c (h', [])" "h_closed h'" by auto
  from adm_steps_ok [OF h'(1) adm_reach_ok [OF assms(1)]] have z: "h_admissions h' = 0" by (simp add: adm_ok_def)
  have "adm_steps env c (close_wait h', [])"
    using h'(1) adm_steps_one [OF adm_step.wait_over [OF h'(2) z, of env "[]"]] by (rule adm_steps_trans)
  moreover have "h_closeDone (close_wait h')" using h'(2) z by (simp add: close_wait_def)
  ultimately show ?thesis using closed_step [OF _ assms(2)] by fastforce
qed

text \<open>A handler that is closed while one message is in flight.\<close>

lemma sample_flight:
  "adm_reach sample_env (beginClose (sample_handler\<lparr>h_admissions := h_admissions sample_handler + 1\<rparr>),
     [Entered (buildMessage (Some sample_request)) ''{}'' False])"
proof -
  have "adm_initial (sample_handler, [])" using sample_new by (auto simp: adm_initial_def)
  moreover have "admit_enter sample_handler = Inr (sample_handler\<lparr>h_admissions := h_admissions sample_handler + 1\<rparr>)"
    by (simp add: admit_enter_def sample_handler_fields)
  then have "adm_steps sample_env (sample_handler, [])
      (beginClose (sample_handler\<lparr>h_admissions := h_admissions sample_handler + 1\<rparr>),
       [Entered (buildMessage (Some sample_request)) ''{}'' False])"
    using adm_trans [OF adm_step.enter [of _ _ _ "[]" "[]"] adm_steps_one [OF adm_step.begin_close]] by simp
  ultimately show ?thesis by (auto simp: adm_reach_def)
qed

theorem close_completes_witness:
  "\<exists>c'. adm_steps sample_env (beginClose (sample_handler\<lparr>h_admissions := h_admissions sample_handler + 1\<rparr>),
     [Entered (buildMessage (Some sample_request)) ''{}'' False]) c' \<and> h_closeDone (fst c')"
proof -
  have "h_closed (fst (beginClose (sample_handler\<lparr>h_admissions := h_admissions sample_handler + 1\<rparr>),
     [Entered (buildMessage (Some sample_request)) ''{}'' False]))"
    by (simp add: beginClose_def)
  from close_completes [OF sample_flight this] show ?thesis by (rule conjunct1)
qed

end
