(* ===== verification/Single_Flight.thy ===== *)
theory Single_Flight
  imports Iris_Prelude
begin

text \<open>
  Work that several callers share: the first caller that needs it opens a channel and does it, the
  others wait on that channel until it is closed. The epoch cache and the refresh of the dial guard
  are both of this kind. The contract is a locale over a step relation; its lemmas say that at most
  one worker is busy and that nobody waits on a channel no worker will close.
\<close>

inductive reachable :: "('s \<Rightarrow> 's \<Rightarrow> bool) \<Rightarrow> ('s \<Rightarrow> bool) \<Rightarrow> 's \<Rightarrow> bool" for step init where
  reach_init: "init s \<Longrightarrow> reachable step init s"
| reach_step: "reachable step init s \<Longrightarrow> step s s' \<Longrightarrow> reachable step init s'"

abbreviation sole :: "nat option \<Rightarrow> nat list" where
  "sole loading \<equiv> (case loading of None \<Rightarrow> [] | Some ch \<Rightarrow> [ch])"

locale single_flight =
  fixes step :: "'s \<Rightarrow> 's \<Rightarrow> bool"
    and init :: "'s \<Rightarrow> bool"
    and loading :: "'s \<Rightarrow> nat option"
    and closed :: "'s \<Rightarrow> nat set"
    and workers :: "'s \<Rightarrow> nat list"
    and waits :: "'s \<Rightarrow> nat set"
  assumes idle: "init s \<Longrightarrow> loading s = None \<and> workers s = [] \<and> waits s = {}"
    and kept: "step s s' \<Longrightarrow> workers s = sole (loading s) \<Longrightarrow> workers s' = sole (loading s')"
    and never_reopened: "step s s' \<Longrightarrow> closed s \<subseteq> closed s'"
    and closed_when_done: "step s s' \<Longrightarrow> workers s = sole (loading s) \<Longrightarrow> loading s = Some ch \<Longrightarrow>
      loading s' = Some ch \<or> ch \<in> closed s'"
    and joins: "step s s' \<Longrightarrow> waits s' \<subseteq> waits s \<union> set_option (loading s')"
begin

lemma shared: "reachable step init s \<Longrightarrow> workers s = sole (loading s) \<and> waits s \<subseteq> closed s \<union> set_option (loading s)"
proof (induction rule: reachable.induct)
  case (reach_init s)
  then show ?case by (simp add: idle)
next
  case (reach_step s s')
  then have "waits s \<subseteq> closed s' \<union> set_option (loading s')"
    using never_reopened [OF reach_step.hyps(2)] closed_when_done [OF reach_step.hyps(2)] by (fastforce simp: set_option_def)
  with reach_step kept [OF reach_step.hyps(2)] joins [OF reach_step.hyps(2)] show ?case by blast
qed

lemma one_worker: "reachable step init s \<Longrightarrow> length (workers s) \<le> 1"
  using shared by (fastforce split: option.splits)

lemma no_lost_waiter: "reachable step init s \<Longrightarrow> ch \<in> waits s \<Longrightarrow> ch \<in> closed s \<or> workers s = [ch]"
  using shared by fastforce

end

end
