(* ===== verification/Webhook_Cluster.thy ===== *)
theory Webhook_Cluster
  imports Webhook_Admission Single_Flight "HOL-Library.Multiset"
begin

text \<open>
  Replicas of the webhook handler that serve any number of requests concurrently over one nonce
  store (\<open>webhook/handler.go\<close>, \<open>handler_validation.go\<close>). A request is a goroutine that runs the parts of
  \<open>ServeHTTP\<close> one after the other; the parts of all requests, the passing of time and the closing of
  replicas interleave in any order. A part ends where the source touches state that goroutines
  share: the pool of hashes, the store, the admission counter, the admitter. The lemmas are the
  invariant of the cluster, what each part of a request establishes for the next, and, in the
  locale \<open>webhook_cluster\<close>, that a store that keeps its contract grants a nonce once and so lets
  one call of an admitter through.
\<close>

section \<open>Requests under way\<close>

text \<open>What a goroutine of \<open>ServeHTTP\<close> holds, with the times of its two clock readings.\<close>

record ticket =
  tk_req :: http_request
  tk_headers :: hmacHeaders
  tk_headers_at :: instant
  tk_body :: bytes
  tk_nonce_at :: instant

text \<open>
  Where it is: arrived, past the header checks, with its body read, holding a hash of the pool for
  a transcript, with its signature verified, with its nonce recorded, inside \<open>admitMessage\<close>, or
  answered with a status.
\<close>

datatype flight =
    Arrived http_request
  | Passed ticket
  | Buffered ticket
  | Hashing ticket string mac
  | Verified ticket
  | Authorized ticket
  | Admitting ticket phase
  | Answered http_request nat

section \<open>The parts of a request\<close>

definition flight_headers ::
  "('st, 'ad) backend \<Rightarrow> instant \<Rightarrow> ('st, 'ad) Handler \<Rightarrow> http_request \<Rightarrow> flight \<times> ('st, 'ad) Handler" where
  "flight_headers env now h r =
     (if \<not> isPOST (req_method r) then (Answered r 405, h)
      else if \<not> hasSignatureHeaders (req_header r) then (Answered r 401, h)
      else case authorizeHMACHeaders env h r now of
        (None, h1) \<Rightarrow> (Answered r 401, h1)
      | (Some headers, h1) \<Rightarrow>
          (Passed \<lparr>tk_req = r, tk_headers = headers, tk_headers_at = now, tk_body = [], tk_nonce_at = 0\<rparr>, h1))"

definition flight_body :: "('st, 'ad) Handler \<Rightarrow> ticket \<Rightarrow> flight" where
  "flight_body h t =
     (case fst (bufferBodyForHMAC h (tk_req t)) of
        Inl status \<Rightarrow> Answered (tk_req t) status
      | Inr body \<Rightarrow> Buffered (t\<lparr>tk_body := body\<rparr>))"

definition flight_acquire ::
  "('st, 'ad) backend \<Rightarrow> nat option \<Rightarrow> ('st, 'ad) Handler \<Rightarrow> ticket \<Rightarrow> flight \<times> ('st, 'ad) Handler" where
  "flight_acquire env choice h t =
     (let r = tk_req t; headers = tk_headers t; gotBodySHA256 = SHA256HexBytes (tk_body t) in
      if \<not> constantTimeEqualString (hh_bodySHA256 headers) gotBodySHA256 then (Answered r 401, h)
      else case CanonicalWebhookRequestV3 (be_case env) (req_host r) (req_method r) (hh_target headers)
          (hh_timestamp headers) (hh_nonce headers) (hh_messageID headers) gotBodySHA256 of
        Inl _ \<Rightarrow> (Answered r 401, h)
      | Inr canonical \<Rightarrow>
          (case Sign_acquire choice (h_webhookSigner h) of (m, signer') \<Rightarrow>
             (Hashing t canonical m, h\<lparr>h_webhookSigner := signer'\<rparr>)))"

definition flight_verify :: "('st, 'ad) Handler \<Rightarrow> ticket \<Rightarrow> string \<Rightarrow> mac \<Rightarrow> flight \<times> ('st, 'ad) Handler" where
  "flight_verify h t canonical m =
     (case SignHash m canonical of (expected, m') \<Rightarrow>
        let h1 = h\<lparr>h_webhookSigner := pool_Put m' (h_webhookSigner h)\<rparr> in
        if \<not> constantTimeEqualString (hh_signature (tk_headers t)) expected then (Answered (tk_req t) 401, h1)
        else (Verified t, h1\<lparr>h_signatureV3Validated := h_signatureV3Validated h1 + 1\<rparr>))"

definition flight_nonce ::
  "('st, 'ad) backend \<Rightarrow> instant \<Rightarrow> 'st \<Rightarrow> ('st, 'ad) Handler \<Rightarrow> ticket \<Rightarrow> hmacAuthOutcome \<times> ('st, 'ad) Handler" where
  "flight_nonce env now st h t =
     checkNonce env (h\<lparr>h_nonceStore := Some st\<rparr>) now (req_method (tk_req t)) (hh_target (tk_headers t))
       (hh_timestamp (tk_headers t)) (hh_nonce (tk_headers t))"

text \<open>Up to \<open>admitMessage\<close>: the status of a request that is not for admission, or the message.\<close>

definition flight_decode :: "('st, 'ad) backend \<Rightarrow> ticket \<Rightarrow> (nat, Message) result" where
  "flight_decode env t =
     (if \<not> isJSONContentType (be_case env) (header_Get (req_header (tk_req t)) ''Content-Type'') then Inl 415
      else case fst (decodeAndValidate (be_Unmarshal env) (tk_body t)) of
        Inl status \<Rightarrow> Inl status
      | Inr req \<Rightarrow> if \<not> reconcileMessageID (tk_req t) req then Inl 400 else Inr (buildMessage (Some req)))"

definition admission_status :: "admit_error option \<Rightarrow> nat" where
  "admission_status err = (if err = Some ErrAlreadyAdmitted then 200 else if err \<noteq> None then 503 else 200)"

text \<open>
  One part of a request on its replica and the shared store; the label records that the store took
  a nonce for new and that an admitter was called.
\<close>

datatype label = Quiet | Granted ticket | Called ticket

inductive flight_step ::
  "('st, 'ad) backend \<Rightarrow> instant \<Rightarrow> ('st, 'ad) Handler \<times> 'st \<Rightarrow> flight \<Rightarrow> label \<Rightarrow> ('st, 'ad) Handler \<times> 'st \<Rightarrow> flight \<Rightarrow> bool"
  for env now where
  fs_headers: "flight_headers env now h r = (f, h') \<Longrightarrow> flight_step env now (h, st) (Arrived r) Quiet (h', st) f"
| fs_body: "flight_step env now (h, st) (Passed t) Quiet (h, st) (flight_body h t)"
| fs_acquire: "flight_acquire env choice h t = (f, h') \<Longrightarrow> flight_step env now (h, st) (Buffered t) Quiet (h', st) f"
| fs_verify: "flight_verify h t canonical m = (f, h') \<Longrightarrow> flight_step env now (h, st) (Hashing t canonical m) Quiet (h', st) f"
| fs_fresh: "flight_nonce env now st h t = (hmacAuthAccept, h') \<Longrightarrow> h_nonceStore h' = Some st' \<Longrightarrow>
    flight_step env now (h, st) (Verified t) (Granted (t\<lparr>tk_nonce_at := now\<rparr>)) (h', st') (Authorized (t\<lparr>tk_nonce_at := now\<rparr>))"
| fs_refused: "flight_nonce env now st h t = (outcome, h') \<Longrightarrow> outcome \<noteq> hmacAuthAccept \<Longrightarrow> h_nonceStore h' = Some st' \<Longrightarrow>
    flight_step env now (h, st) (Verified t) Quiet (h', st')
      (Answered (tk_req t) (if outcome = hmacAuthUnavailable then 503 else 401))"
| fs_undecoded: "flight_decode env t = Inl status \<Longrightarrow>
    flight_step env now (h, st) (Authorized t) Quiet (h, st) (Answered (tk_req t) status)"
| fs_closed: "flight_decode env t = Inr msg \<Longrightarrow> admit_enter h = Inl e \<Longrightarrow>
    flight_step env now (h, st) (Authorized t) Quiet (h, st) (Answered (tk_req t) (admission_status (Some e)))"
| fs_enter: "flight_decode env t = Inr msg \<Longrightarrow> admit_enter h = Inr h' \<Longrightarrow>
    flight_step env now (h, st) (Authorized t) Quiet (h', st) (Admitting t (Entered msg (tk_body t) ctx_done))"
| fs_check_failed: "admit_check h ctx_done = Some e \<Longrightarrow>
    flight_step env now (h, st) (Admitting t (Entered msg body ctx_done)) Quiet (h, st) (Admitting t (Returning (Some e)))"
| fs_check_passed: "admit_check h ctx_done = None \<Longrightarrow>
    flight_step env now (h, st) (Admitting t (Entered msg body ctx_done)) Quiet (h, st) (Admitting t (Calling msg body))"
| fs_call: "admit_call env h msg body = (err, h') \<Longrightarrow>
    flight_step env now (h, st) (Admitting t (Calling msg body)) (Called t) (h', st) (Admitting t (Returning err))"
| fs_finish: "flight_step env now (h, st) (Admitting t (Returning err)) Quiet (admit_done h, st)
    (Answered (tk_req t) (admission_status err))"

section \<open>The cluster\<close>

text \<open>
  \<open>cl_grants\<close> and \<open>cl_calls\<close> record the nonces taken for new and the calls of admitters, newest first, with
  their replica; they are not part of the program's state. The replicas and the store read one
  clock. A request may come from anybody.
\<close>

record ('st, 'ad) cluster =
  cl_handlers :: "nat \<Rightarrow> ('st, 'ad) Handler"
  cl_store :: 'st
  cl_now :: instant
  cl_flights :: "(nat \<times> flight) list"
  cl_grants :: "(nat \<times> ticket) list"
  cl_calls :: "(nat \<times> ticket) list"

fun granted_by :: "nat \<Rightarrow> label \<Rightarrow> (nat \<times> ticket) list" where
  "granted_by i (Granted t) = [(i, t)]"
| "granted_by i _ = []"

fun called_by :: "nat \<Rightarrow> label \<Rightarrow> (nat \<times> ticket) list" where
  "called_by i (Called t) = [(i, t)]"
| "called_by i _ = []"

text \<open>A replica over the shared store.\<close>

definition replica :: "('st, 'ad) cluster \<Rightarrow> nat \<Rightarrow> ('st, 'ad) Handler" where
  "replica s i = (cl_handlers s i)\<lparr>h_nonceStore := Some (cl_store s)\<rparr>"

inductive cluster_step :: "('st, 'ad) backend \<Rightarrow> ('st, 'ad) cluster \<Rightarrow> ('st, 'ad) cluster \<Rightarrow> bool" for env where
  cs_tick: "cl_now s \<le> t \<Longrightarrow> cluster_step env s (s\<lparr>cl_now := t\<rparr>)"
| cs_arrive: "cluster_step env s (s\<lparr>cl_flights := (i, Arrived r) # cl_flights s\<rparr>)"
| cs_advance: "cl_flights s = xs @ (i, f) # ys \<Longrightarrow>
    flight_step env (cl_now s) (replica s i, cl_store s) f l (h', st') f' \<Longrightarrow>
    cluster_step env s (s\<lparr>cl_handlers := (cl_handlers s)(i := h'), cl_store := st', cl_flights := xs @ (i, f') # ys,
      cl_grants := granted_by i l @ cl_grants s, cl_calls := called_by i l @ cl_calls s\<rparr>)"
| cs_begin_close: "cluster_step env s (s\<lparr>cl_handlers := (cl_handlers s)(i := beginClose (cl_handlers s i))\<rparr>)"
| cs_wait_over: "h_closed (cl_handlers s i) \<Longrightarrow> h_admissions (cl_handlers s i) = 0 \<Longrightarrow>
    cluster_step env s (s\<lparr>cl_handlers := (cl_handlers s)(i := close_wait (cl_handlers s i))\<rparr>)"
| cs_grace_over: "h_closed (cl_handlers s i) \<Longrightarrow>
    cluster_step env s (s\<lparr>cl_handlers := (cl_handlers s)(i := snd (close_interrupted (cl_handlers s i)))\<rparr>)"

definition cluster_init :: "('st, 'ad) cluster \<Rightarrow> bool" where
  "cluster_init s \<longleftrightarrow>
     (\<forall>i. \<exists>admitter opts. NewDurableHandler (Some admitter) opts = Inr (cl_handlers s i)) \<and>
     cl_flights s = [] \<and> cl_grants s = [] \<and> cl_calls s = []"

abbreviation cluster_reach :: "('st, 'ad) backend \<Rightarrow> ('st, 'ad) cluster \<Rightarrow> bool" where
  "cluster_reach env \<equiv> Single_Flight.reachable (cluster_step env) cluster_init"

inductive_cases flight_stepE: "flight_step env now (h, st) f l (h', st') f'"

section \<open>What requests under way have passed\<close>

definition passed :: "('st, 'ad) backend \<Rightarrow> instant \<Rightarrow> ticket \<Rightarrow> bool" where
  "passed env now t \<longleftrightarrow>
     req_method (tk_req t) = ''POST'' \<and> version_ok (be_case env) (tk_req t) \<and>
     in_window (5 * Minute) (tk_headers_at t) (ts_of (tk_req t)) \<and> nonce_of (tk_req t) \<noteq> [] \<and> tk_headers_at t \<le> now \<and>
     (\<exists>target i. CanonicalTarget (request_uri (tk_req t)) = Inr target \<and> message_id_of (tk_req t) i \<and>
        tk_headers t = headers_of (tk_req t) target i)"

definition body_read :: "('st, 'ad) Handler \<Rightarrow> ticket \<Rightarrow> bool" where
  "body_read h t \<longleftrightarrow> read_body (maxBodyBytes (h_options h)) (tk_req t) = Inr (tk_body t)"

definition transcript_ok :: "('st, 'ad) backend \<Rightarrow> ticket \<Rightarrow> string \<Rightarrow> bool" where
  "transcript_ok env t c \<longleftrightarrow>
     hh_bodySHA256 (tk_headers t) = hex_encode (sha256 (tk_body t)) \<and>
     CanonicalWebhookRequestV3 (be_case env) (req_host (tk_req t)) (req_method (tk_req t)) (hh_target (tk_headers t))
       (hh_timestamp (tk_headers t)) (hh_nonce (tk_headers t)) (hh_messageID (tk_headers t)) (hex_encode (sha256 (tk_body t))) = Inr c"

definition genuine :: "('st, 'ad) backend \<Rightarrow> ('st, 'ad) Handler \<Rightarrow> instant \<Rightarrow> ticket \<Rightarrow> bool" where
  "genuine env h now t \<longleftrightarrow> passed env now t \<and> body_read h t \<and>
     authentic (be_case env) (h_token h) (5 * Minute) (tk_headers_at t) (tk_req t) (hh_target (tk_headers t)) (tk_body t)"

definition granted :: "('st, 'ad) backend \<Rightarrow> ('st, 'ad) Handler \<Rightarrow> instant \<Rightarrow> ticket \<Rightarrow> bool" where
  "granted env h now t \<longleftrightarrow> genuine env h now t \<and> tk_headers_at t \<le> tk_nonce_at t \<and> tk_nonce_at t \<le> now"

definition decoded :: "('st, 'ad) backend \<Rightarrow> ticket \<Rightarrow> Message \<Rightarrow> bytes \<Rightarrow> bool" where
  "decoded env t m b \<longleftrightarrow> b = tk_body t \<and>
     isJSONContentType (be_case env) (header_Get (req_header (tk_req t)) ''Content-Type'') \<and>
     DecodeMessage (be_Unmarshal env) b = Inr m \<and> message_id_of (tk_req t) (mj_MessageID (the (m_JSON m)))"

fun flight_ok :: "('st, 'ad) backend \<Rightarrow> ('st, 'ad) Handler \<Rightarrow> instant \<Rightarrow> flight \<Rightarrow> bool" where
  "flight_ok env h now (Arrived r) \<longleftrightarrow> True"
| "flight_ok env h now (Passed t) \<longleftrightarrow> passed env now t"
| "flight_ok env h now (Buffered t) \<longleftrightarrow> passed env now t \<and> body_read h t"
| "flight_ok env h now (Hashing t c m) \<longleftrightarrow> passed env now t \<and> body_read h t \<and> transcript_ok env t c \<and> mac_key m = h_token h"
| "flight_ok env h now (Verified t) \<longleftrightarrow> genuine env h now t"
| "flight_ok env h now (Authorized t) \<longleftrightarrow> granted env h now t"
| "flight_ok env h now (Admitting t (Entered m b ctx_done)) \<longleftrightarrow> granted env h now t \<and> decoded env t m b"
| "flight_ok env h now (Admitting t (Calling m b)) \<longleftrightarrow> granted env h now t \<and> decoded env t m b"
| "flight_ok env h now (Admitting t (Returning e)) \<longleftrightarrow> granted env h now t"
| "flight_ok env h now (Answered r status) \<longleftrightarrow> True"

lemma flight_ok_later: "flight_ok env h now f \<Longrightarrow> now \<le> now' \<Longrightarrow> flight_ok env h now' f"
  by (induction env h now f rule: flight_ok.induct) (auto simp: passed_def genuine_def granted_def)

text \<open>What a replica never changes, and what it keeps.\<close>

definition same_setup :: "('st, 'ad) Handler \<Rightarrow> ('st, 'ad) Handler \<Rightarrow> bool" where
  "same_setup h h' \<longleftrightarrow> h_token h' = h_token h \<and> h_options h' = h_options h \<and> h_replayWindow h' = h_replayWindow h"

lemma flight_ok_setup: "same_setup h h' \<Longrightarrow> flight_ok env h' now f = flight_ok env h now f"
  by (induction env h now f rule: flight_ok.induct) (auto simp: same_setup_def body_read_def genuine_def granted_def)

lemma checkNonce_state:
  "checkNonce env h now meth target ts n = (outcome, h') \<Longrightarrow> h' = h\<lparr>h_nonceStore := h_nonceStore h'\<rparr> \<and> (h_nonceStore h \<noteq> None \<longrightarrow> h_nonceStore h' \<noteq> None)"
  by (auto simp: checkNonce_def split: option.splits prod.splits sum.splits bool.splits)

lemmas flight_defs = flight_headers_def flight_body_def flight_acquire_def flight_verify_def flight_nonce_def

lemma flight_step_setup: "flight_step env now (h, st) f l (h', st') f' \<Longrightarrow> same_setup h h'"
  by (erule flight_stepE)
    (auto simp: same_setup_def flight_defs adm_defs Let_def authorizeHMACHeaders_def
      split: if_splits option.splits sum.splits prod.splits signatureVersionStatus.splits dest!: checkNonce_state)

lemma flight_step_handler:
  assumes "flight_step env now (h, st) f l (h', st') f'" and "handler_ok (h_token h) h" and "flight_ok env h now f"
  shows "handler_ok (h_token h') h'"
  using assms(1)
proof (rule flight_stepE)
  fix r
  assume "flight_headers env now h r = (f', h')"
  with assms(2) show ?thesis
    by (auto simp: flight_headers_def authorizeHMACHeaders_def handler_ok_def
        split: if_splits option.splits prod.splits signatureVersionStatus.splits sum.splits)
next
  fix choice t
  assume "flight_acquire env choice h t = (f', h')"
  with assms(2) show ?thesis
    by (auto simp: flight_acquire_def Let_def handler_ok_def signer_ok_def split: if_splits sum.splits prod.splits
        dest!: Sign_acquire_ok [where held = "[]" and secret = "h_token h"])
next
  fix t c m
  assume "f = Hashing t c m" and "flight_verify h t c m = (f', h')"
  with assms(2,3) show ?thesis
    by (auto simp: flight_verify_def SignHash_exact Let_def handler_ok_def signer_ok_def pool_Put_def split: if_splits)
next
  fix t
  assume n: "flight_nonce env now st h t = (hmacAuthAccept, h')" and "h_nonceStore h' = Some st'"
  with checkNonce_state [OF n [unfolded flight_nonce_def]] assms(2) show ?thesis by (auto simp: handler_ok_def)
next
  fix t outcome
  assume n: "flight_nonce env now st h t = (outcome, h')" and "h_nonceStore h' = Some st'"
  with checkNonce_state [OF n [unfolded flight_nonce_def]] assms(2) show ?thesis by (auto simp: handler_ok_def)
qed (use assms(2) in \<open>auto simp: handler_ok_def adm_defs split: if_splits prod.splits\<close>)

text \<open>Each part establishes what the next relies on.\<close>

lemma headers_passed:
  assumes "flight_headers env now h r = (f, h')" and "handler_ok (h_token h) h"
  shows "flight_ok env h now f"
proof -
  have w: "h_replayWindow h = 5 * Minute" using assms(2) by (simp add: handler_ok_def defaultReplayWindow_def)
  show ?thesis
  proof (cases "\<exists>hs h1. authorizeHMACHeaders env h r now = (Some hs, h1) \<and> isPOST (req_method r) \<and> hasSignatureHeaders (req_header r)")
    case True
    then obtain hs h1 where hs: "authorizeHMACHeaders env h r now = (Some hs, h1)" "isPOST (req_method r)" "hasSignatureHeaders (req_header r)"
      by blast
    with assms(1) authorizeHMACHeaders_exact [of env h r now hs h1] w show ?thesis
      by (auto simp: flight_headers_def passed_def isPOST_def)
  next
    case False
    with assms(1) show ?thesis by (auto simp: flight_headers_def split: if_splits option.splits prod.splits)
  qed
qed

lemma body_passed: "passed env now t \<Longrightarrow> flight_ok env h now (flight_body h t)"
  by (auto simp: flight_body_def bufferBody_read body_read_def passed_def split: sum.splits)

lemma acquire_passed:
  assumes "flight_acquire env choice h t = (f, h')" and "handler_ok (h_token h) h" and "passed env now t" and "body_read h t"
  shows "flight_ok env h now f"
proof (cases f)
  case (Hashing t' c m)
  with assms(1) have t: "t' = t" "transcript_ok env t c" and m: "\<exists>s'. Sign_acquire choice (h_webhookSigner h) = (m, s')"
    by (auto simp: flight_acquire_def transcript_ok_def constantTimeEqualString_def hex_digest Let_def split: if_splits sum.splits prod.splits)
  from m obtain s' where "Sign_acquire choice (h_webhookSigner h) = (m, s')" by blast
  from Sign_acquire_ok [OF this, of "h_token h" "[]"] assms(2) have "mac_key m = h_token h"
    by (auto simp: handler_ok_def signer_ok_def)
  with Hashing t assms(3,4) show ?thesis by simp
qed (use assms(1) in \<open>auto simp: flight_acquire_def Let_def split: if_splits sum.splits prod.splits\<close>)

lemma verify_genuine:
  assumes "flight_verify h t c m = (f, h')" and "passed env now t" and "body_read h t" and "transcript_ok env t c" and "mac_key m = h_token h"
  shows "flight_ok env h now f"
proof (cases f)
  case (Verified t')
  with assms(1,5) have t: "t' = t" "hh_signature (tk_headers t) = hex_encode (hmac_sha256 (h_token h) c)"
    by (auto simp: flight_verify_def SignHash_exact constantTimeEqualString_def Let_def split: if_splits)
  from assms(2) obtain target i where r: "CanonicalTarget (request_uri (tk_req t)) = Inr target" "message_id_of (tk_req t) i"
      "tk_headers t = headers_of (tk_req t) target i"
    and pre: "version_ok (be_case env) (tk_req t)" "in_window (5 * Minute) (tk_headers_at t) (ts_of (tk_req t))" "nonce_of (tk_req t) \<noteq> []"
    by (auto simp: passed_def)
  have "signature_ok (be_case env) (h_token h) (tk_req t) target i (tk_body t)"
    using t(2) assms(4) by (auto simp: signature_ok_def transcript_ok_def r(3) headers_of_def)
  then have "authentic (be_case env) (h_token h) (5 * Minute) (tk_headers_at t) (tk_req t) (hh_target (tk_headers t)) (tk_body t)"
    unfolding authentic_iff using r pre by (auto simp: headers_of_def)
  with Verified t(1) assms(2,3) show ?thesis by (simp add: genuine_def)
qed (use assms(1) in \<open>auto simp: flight_verify_def SignHash_exact Let_def split: if_splits\<close>)

lemma decode_decoded: "flight_decode env t = Inr m \<Longrightarrow> decoded env t m (tk_body t)"
proof -
  assume f: "flight_decode env t = Inr m"
  then obtain req where req: "parseWebhookRequest (be_Unmarshal env) (tk_body t) = Inr req" "reconcileMessageID (tk_req t) req"
    "m = buildMessage (Some req)"
    by (auto simp: flight_decode_def decodeAndValidate_def split: if_splits sum.splits)
  from parsed_request_valid(3) [OF req(1)] f req show "decoded env t m (tk_body t)"
    by (auto simp: decoded_def DecodeMessage_def reconcile_exact buildMessage_id flight_decode_def split: if_splits)
qed

lemma fresh_granted: "genuine env h now t \<Longrightarrow> granted env h now (t\<lparr>tk_nonce_at := now\<rparr>)"
  by (simp add: granted_def genuine_def passed_def body_read_def)

lemma flight_step_ok:
  assumes "flight_step env now (h, st) f l (h', st') f'" and "handler_ok (h_token h) h" and "flight_ok env h now f"
  shows "flight_ok env h' now f'"
proof -
  have "flight_ok env h now f'"
    using assms(1) by (rule flight_stepE)
      (use assms(2,3) in \<open>auto intro: fresh_granted headers_passed body_passed acquire_passed verify_genuine decode_decoded\<close>)
  with flight_ok_setup [OF flight_step_setup [OF assms(1)]] show ?thesis by simp
qed

section \<open>The invariant of the cluster\<close>

text \<open>A grant is spent by one call of an admitter: the tickets that may still lead to a call.\<close>

fun pending_of :: "flight \<Rightarrow> ticket list" where
  "pending_of (Authorized t) = [t]"
| "pending_of (Admitting t (Entered m b ctx_done)) = [t]"
| "pending_of (Admitting t (Calling m b)) = [t]"
| "pending_of _ = []"

definition pending :: "(nat \<times> flight) list \<Rightarrow> (nat \<times> ticket) multiset" where
  "pending fl = mset (concat (map (\<lambda>(i, f). map (Pair i) (pending_of f)) fl))"

lemma pending_simps [simp]:
  "pending [] = {#}" "pending ((i, f) # fl) = mset (map (Pair i) (pending_of f)) + pending fl"
  "pending (xs @ ys) = pending xs + pending ys"
  by (simp_all add: pending_def)

lemma flight_step_spends:
  assumes "flight_step env now (h, st) f l (h', st') f'"
  shows "mset (called_by i l) + mset (map (Pair i) (pending_of f')) \<subseteq># mset (granted_by i l) + mset (map (Pair i) (pending_of f))"
  using assms
  by (rule flight_stepE)
    (auto simp: flight_headers_def flight_body_def flight_acquire_def flight_verify_def Let_def
      split: if_splits option.splits sum.splits prod.splits)

definition cluster_ok :: "('st, 'ad) backend \<Rightarrow> ('st, 'ad) cluster \<Rightarrow> bool" where
  "cluster_ok env s \<longleftrightarrow>
     (\<forall>i. handler_ok (h_token (cl_handlers s i)) (cl_handlers s i)) \<and>
     (\<forall>(i, f) \<in> set (cl_flights s). flight_ok env (cl_handlers s i) (cl_now s) f) \<and>
     (\<forall>(i, t) \<in> set (cl_grants s). granted env (cl_handlers s i) (cl_now s) t) \<and>
     (\<forall>(i, t) \<in> set (cl_calls s). \<exists>m. decoded env t m (tk_body t)) \<and>
     mset (cl_calls s) + pending (cl_flights s) \<subseteq># mset (cl_grants s)"

lemma granted_later: "granted env h now t \<Longrightarrow> now \<le> now' \<Longrightarrow> granted env h now' t"
  using flight_ok_later [of env h now "Authorized t"] by simp

lemma granted_setup: "same_setup h h' \<Longrightarrow> granted env h' now t = granted env h now t"
  using flight_ok_setup [of h h' env now "Authorized t"] by simp

lemma flight_step_labels:
  assumes "flight_step env now (h, st) f l (h', st') f'" and "flight_ok env h now f"
  shows "\<forall>(j, t) \<in> set (granted_by i l). j = i \<and> granted env h now t"
    and "\<forall>(j, t) \<in> set (called_by i l). j = i \<and> (\<exists>m. decoded env t m (tk_body t))"
proof -
  have "(\<forall>(j, t) \<in> set (granted_by i l). j = i \<and> granted env h now t) \<and>
      (\<forall>(j, t) \<in> set (called_by i l). j = i \<and> (\<exists>m. decoded env t m (tk_body t)))"
    using assms(1)
  proof (rule flight_stepE)
    fix t h'' st''
    assume "f = Verified t" "l = Granted (t\<lparr>tk_nonce_at := now\<rparr>)"
    with assms(2) fresh_granted show ?thesis by auto
  next
    fix msg body err t
    assume "f = Admitting t (Calling msg body)" "l = Called t"
    with assms(2) show ?thesis by (auto simp: decoded_def)
  qed auto
  then show "\<forall>(j, t) \<in> set (granted_by i l). j = i \<and> granted env h now t"
    and "\<forall>(j, t) \<in> set (called_by i l). j = i \<and> (\<exists>m. decoded env t m (tk_body t))" by auto
qed

lemma same_setup_close:
  "same_setup h (beginClose h)" "same_setup h (close_wait h)" "same_setup h (snd (close_interrupted h))"
  by (simp_all add: same_setup_def adm_defs Let_def)

lemma handler_ok_close:
  "handler_ok secret h \<Longrightarrow> handler_ok secret (beginClose h)" "handler_ok secret h \<Longrightarrow> handler_ok secret (close_wait h)"
  "handler_ok secret h \<Longrightarrow> handler_ok secret (snd (close_interrupted h))"
  by (simp_all add: handler_ok_def adm_defs Let_def)

text \<open>Changing one replica without changing its setup.\<close>

lemma cluster_ok_replica:
  assumes "cluster_ok env s" and "same_setup (cl_handlers s i) h'" and "handler_ok (h_token h') h'"
  shows "cluster_ok env (s\<lparr>cl_handlers := (cl_handlers s)(i := h')\<rparr>)"
  using assms flight_ok_setup [OF assms(2)] granted_setup [OF assms(2)] by (auto simp: cluster_ok_def)

lemma spend_mset:
  assumes "a + b \<subseteq># g + p" and "c + (x + (p + y)) \<subseteq># gs"
  shows "(a + c) + (x + (b + y)) \<subseteq># g + gs"
proof (rule mset_subset_eqI)
  fix z
  show "count ((a + c) + (x + (b + y))) z \<le> count (g + gs) z"
    using mset_subset_eq_count [OF assms(1), of z] mset_subset_eq_count [OF assms(2), of z] by simp
qed

lemma replica_setup: "same_setup (cl_handlers s i) (replica s i)"
  by (simp add: same_setup_def replica_def)

lemma replica_ok:
  "handler_ok (h_token (cl_handlers s i)) (cl_handlers s i) \<Longrightarrow> handler_ok (h_token (replica s i)) (replica s i)"
  by (simp add: handler_ok_def replica_def)

lemma cluster_step_ok: "cluster_step env s s' \<Longrightarrow> cluster_ok env s \<Longrightarrow> cluster_ok env s'"
proof (induction rule: cluster_step.induct)
  case (cs_tick s t)
  then show ?case using flight_ok_later granted_later by (fastforce simp: cluster_ok_def)
next
  case (cs_arrive s i r)
  then show ?case by (auto simp: cluster_ok_def)
next
  case (cs_advance s xs i f ys l h' st' f')
  let ?h = "cl_handlers s i"
  note step = cs_advance.hyps(2) and same = replica_setup [of s i]
  have ok: "handler_ok (h_token (replica s i)) (replica s i)" "flight_ok env (replica s i) (cl_now s) f"
    using cs_advance flight_ok_setup [OF same, of env "cl_now s" f] by (auto simp: cluster_ok_def replica_ok)
  have kept: "same_setup ?h h'" using same flight_step_setup [OF step] by (simp add: same_setup_def)
  have r: "cluster_ok env (s\<lparr>cl_handlers := (cl_handlers s)(i := h')\<rparr>)"
    by (rule cluster_ok_replica [OF cs_advance.prems kept flight_step_handler [OF step ok]])
  have "mset (called_by i l @ cl_calls s) + pending (xs @ (i, f') # ys) \<subseteq># mset (granted_by i l @ cl_grants s)"
    using spend_mset [OF flight_step_spends [OF step, of i]] cs_advance.prems cs_advance.hyps(1) by (simp add: cluster_ok_def)
  then show ?case
    using r cs_advance.hyps(1) flight_step_ok [OF step ok] flight_step_labels [OF step ok(2), of i]
      granted_setup [OF kept] granted_setup [OF same]
    by (auto simp: cluster_ok_def)
next
  case (cs_begin_close s i)
  then show ?case by (intro cluster_ok_replica same_setup_close handler_ok_close) (auto simp: cluster_ok_def beginClose_def)
next
  case (cs_wait_over s i)
  then show ?case by (intro cluster_ok_replica same_setup_close handler_ok_close) (auto simp: cluster_ok_def close_wait_def)
next
  case (cs_grace_over s i)
  then show ?case by (intro cluster_ok_replica same_setup_close handler_ok_close) (auto simp: cluster_ok_def close_interrupted_def Let_def)
qed

lemma cluster_reach_ok: "cluster_reach env s \<Longrightarrow> cluster_ok env s"
proof (induction rule: Single_Flight.reachable.induct)
  case (reach_init s)
  then have "handler_ok (h_token (cl_handlers s i)) (cl_handlers s i)" for i
    using NewDurableHandler_ok by (metis cluster_init_def)
  with reach_init show ?case by (simp add: cluster_ok_def cluster_init_def)
qed (rule cluster_step_ok)

section \<open>One nonce, one grant\<close>

definition ticket_key :: "('st, 'ad) backend \<Rightarrow> ticket \<Rightarrow> string" where
  "ticket_key env t =
     nonce_key (be_case env) (req_method (tk_req t)) (hh_target (tk_headers t)) (hh_timestamp (tk_headers t)) (hh_nonce (tk_headers t))"

lemma flight_nonce_exact:
  assumes "flight_nonce env now st h t = (outcome, h')" and "h_nonceStore h' = Some st'" and "handler_ok (h_token h) h"
  shows "st' = snd (be_IsDuplicate env st now (ticket_key env t) (10 * Minute))"
    and "outcome = hmacAuthAccept \<longleftrightarrow> fst (be_IsDuplicate env st now (ticket_key env t) (10 * Minute)) = Inr False"
  using assms
  by (auto simp: flight_nonce_def checkNonce_def ticket_key_def nonceReplayTTL_def handler_ok_def defaultReplayWindow_def
      split: prod.splits sum.splits bool.splits)

text \<open>How a part uses the store.\<close>

lemma flight_step_store:
  assumes "flight_step env now (h, st) f l (h', st') f'" and "handler_ok (h_token h) h"
  obtains (untouched) "st' = st" "granted_by i l = []"
  | (asked) t where "st' = snd (be_IsDuplicate env st now (ticket_key env t) (10 * Minute))"
      "granted_by i l = (if fst (be_IsDuplicate env st now (ticket_key env t) (10 * Minute)) = Inr False
         then [(i, t\<lparr>tk_nonce_at := now\<rparr>)] else [])"
  using assms(1)
proof (rule flight_stepE)
  fix t
  assume "l = Granted (t\<lparr>tk_nonce_at := now\<rparr>)" and n: "flight_nonce env now st h t = (hmacAuthAccept, h')" "h_nonceStore h' = Some st'"
  with flight_nonce_exact [OF n assms(2)] show thesis by (intro asked [of t]) auto
next
  fix t outcome
  assume "l = Quiet" and n: "flight_nonce env now st h t = (outcome, h')" "outcome \<noteq> hmacAuthAccept" "h_nonceStore h' = Some st'"
  with flight_nonce_exact [OF n(1,3) assms(2)] show thesis by (intro asked [of t]) auto
qed (auto intro: untouched)

text \<open>
  A cluster over a store that keeps the contract: while a grant is recent the store knows its key,
  and two grants of one key are further apart than the store's guarantee.
\<close>

locale webhook_cluster = set_once_store isDuplicate recorded covered
  for isDuplicate :: "('st, unit) nonce_store" and recorded :: "'st \<Rightarrow> string \<Rightarrow> instant \<Rightarrow> bool" and covered :: "duration \<Rightarrow> duration" +
  fixes env :: "('st, 'ad) backend"
  assumes uses_store: "be_IsDuplicate env = isDuplicate"
    and lasting: "10 * Minute \<le> covered (10 * Minute)"
begin

definition apart :: "nat \<times> ticket \<Rightarrow> nat \<times> ticket \<Rightarrow> bool" where
  "apart b a \<longleftrightarrow> (ticket_key env (snd a) = ticket_key env (snd b) \<longrightarrow>
     tk_nonce_at (snd a) + covered (10 * Minute) < tk_nonce_at (snd b))"

definition store_ok :: "('st, 'ad) cluster \<Rightarrow> bool" where
  "store_ok s \<longleftrightarrow>
     (\<forall>(i, t) \<in> set (cl_grants s). \<forall>u. cl_now s \<le> u \<and> u \<le> tk_nonce_at t + covered (10 * Minute) \<longrightarrow>
        recorded (cl_store s) (ticket_key env t) u) \<and>
     sorted_wrt apart (cl_grants s)"

lemma ticket_key_nonce_at [simp]: "ticket_key env (t\<lparr>tk_nonce_at := now\<rparr>) = ticket_key env t"
  by (simp add: ticket_key_def)

lemma store_ok_asked:
  assumes "store_ok s" and "isDuplicate (cl_store s) (cl_now s) k (10 * Minute) = (ans, st')"
    and "ticket_key env t' = k" and "tk_nonce_at t' = cl_now s"
  shows "store_ok (s\<lparr>cl_store := st', cl_grants := (if ans = Inr False then [(i, t')] else []) @ cl_grants s\<rparr>)"
proof -
  have kept: "recorded st' (ticket_key env t) u"
    if "(j, t) \<in> set (cl_grants s)" "cl_now s \<le> u" "u \<le> tk_nonce_at t + covered (10 * Minute)" for j t u
    using that assms(1) recorded_kept [of "cl_store s" "ticket_key env t" u "cl_now s" k "10 * Minute"] assms(2)
    by (fastforce simp: store_ok_def)
  have new: "tk_nonce_at t + covered (10 * Minute) < cl_now s"
    if "ans = Inr False" "(j, t) \<in> set (cl_grants s)" "ticket_key env t = k" for j t
  proof (rule ccontr)
    assume "\<not> tk_nonce_at t + covered (10 * Minute) < cl_now s"
    then have "recorded (cl_store s) k (cl_now s)" using that assms(1) by (fastforce simp: store_ok_def)
    from recorded_refused [OF this] assms(2) that(1) show False by (metis fst_conv)
  qed
  have "recorded st' k u" if "ans = Inr False" "cl_now s \<le> u" "u \<le> cl_now s + covered (10 * Minute)" for u
    using fresh_recorded assms(2) that by blast
  with kept new assms(1,3,4) show ?thesis by (auto simp: store_ok_def apart_def)
qed

lemma cluster_step_store:
  assumes "cluster_step env s s'" and "store_ok s" and "cluster_ok env s"
  shows "store_ok s'"
  using assms
proof (induction rule: cluster_step.induct)
  case (cs_advance s xs i f ys l h' st' f')
  have ok: "handler_ok (h_token (replica s i)) (replica s i)" using cs_advance.prems by (auto simp: cluster_ok_def replica_ok)
  from cs_advance.hyps(2) ok show ?case
  proof (cases rule: flight_step_store [where i = i])
    case untouched
    with cs_advance.prems(1) show ?thesis by (simp add: store_ok_def)
  next
    case (asked t)
    let ?ans = "isDuplicate (cl_store s) (cl_now s) (ticket_key env t) (10 * Minute)"
    have ans: "?ans = (fst ?ans, st')" using asked(1) by (simp add: uses_store prod_eq_iff)
    have "store_ok (s\<lparr>cl_store := st', cl_grants := granted_by i l @ cl_grants s\<rparr>)"
      using store_ok_asked [OF cs_advance.prems(1) ans, of "t\<lparr>tk_nonce_at := cl_now s\<rparr>" i] by (simp add: asked(2) uses_store)
    then show ?thesis by (simp add: store_ok_def)
  qed
qed (fastforce simp: store_ok_def)+

lemma cluster_reach_store: "cluster_reach env s \<Longrightarrow> store_ok s"
proof (induction rule: Single_Flight.reachable.induct)
  case (reach_init s)
  then show ?case by (simp add: store_ok_def cluster_init_def)
next
  case (reach_step s s')
  then show ?case using cluster_step_store cluster_reach_ok by blast
qed

end

section \<open>One request, one call\<close>

lemma sorted_wrt_pair: "sorted_wrt R l \<Longrightarrow> {#x, y#} \<subseteq># mset l \<Longrightarrow> R x y \<or> R y x"
proof (induction l)
  case (Cons z l)
  show ?case
  proof (cases "x = z \<or> y = z")
    case True
    then have "{#x#} \<subseteq># mset l \<and> y = z \<or> {#y#} \<subseteq># mset l \<and> x = z"
      using Cons.prems(2) by (auto simp: add_mset_commute)
    with Cons.prems(1) show ?thesis by auto
  next
    case False
    then have "{#x, y#} \<subseteq># mset l"
      using Cons.prems(2) by (auto simp: subseteq_mset_def split: if_splits)
    with Cons show ?thesis by simp
  qed
qed simp

lemma nth_pair_mset:
  assumes "p \<noteq> q" and "p < length l" and "q < length l"
  shows "{#l ! p, l ! q#} \<subseteq># mset l"
proof -
  have "image_mset ((!) l) (mset_set {p, q}) \<subseteq># image_mset ((!) l) (mset_set {..<length l})"
    by (rule image_mset_subseteq_mono, rule subset_imp_msubset_mset_set) (use assms in auto)
  moreover have "image_mset ((!) l) (mset_set {..<length l}) = mset l"
    by (metis lessThan_atLeast0 map_nth mset_map mset_upt)
  ultimately show ?thesis using assms(1) by simp
qed

lemma ticket_key_exact:
  assumes "passed env now t" and "CanonicalTarget (request_uri (tk_req t)) = Inr target"
  shows "ticket_key env t = store_key env (tk_req t) target"
  using assms by (auto simp: passed_def ticket_key_def headers_of_def)

lemma granted_key:
  assumes "granted env h now a" and "granted env h' now b" and "req_method (tk_req a) = req_method (tk_req b)"
    and "request_uri (tk_req a) = request_uri (tk_req b)" and "ts_of (tk_req a) = ts_of (tk_req b)"
    and "nonce_of (tk_req a) = nonce_of (tk_req b)"
  shows "ticket_key env a = ticket_key env b"
proof -
  have p: "passed env now a" "passed env now b" using assms(1,2) by (auto simp: granted_def genuine_def)
  then obtain target where t: "CanonicalTarget (request_uri (tk_req a)) = Inr target" by (auto simp: passed_def)
  with ticket_key_exact [OF p(1) t] ticket_key_exact [OF p(2), of target] assms(3-6) show ?thesis by simp
qed

lemma cluster_ok_calls:
  assumes "cluster_ok env s" and "(i, t) \<in> set (cl_calls s)"
  shows "granted env (cl_handlers s i) (cl_now s) t" and "\<exists>m. decoded env t m (tk_body t)"
proof -
  have "mset (cl_calls s) \<subseteq># mset (cl_grants s)"
    using assms(1) by (auto simp: cluster_ok_def intro: subset_mset.order_trans [OF mset_subset_eq_add_left])
  then have "(i, t) \<in> set (cl_grants s)" using assms(2) by (metis mset_subset_eqD set_mset_mset)
  with assms show "granted env (cl_handlers s i) (cl_now s) t" and "\<exists>m. decoded env t m (tk_body t)"
    by (auto simp: cluster_ok_def)
qed

context webhook_cluster begin

lemma calls_apart:
  assumes "cluster_reach env s" and "p \<noteq> q" and "p < length (cl_calls s)" and "q < length (cl_calls s)"
  shows "apart (cl_calls s ! p) (cl_calls s ! q) \<or> apart (cl_calls s ! q) (cl_calls s ! p)"
proof -
  have "mset (cl_calls s) \<subseteq># mset (cl_grants s)"
    using cluster_reach_ok [OF assms(1)] by (auto simp: cluster_ok_def intro: subset_mset.order_trans [OF mset_subset_eq_add_left])
  with nth_pair_mset [OF assms(2-4)] have "{#cl_calls s ! p, cl_calls s ! q#} \<subseteq># mset (cl_grants s)"
    by (rule subset_mset.order_trans)
  then show ?thesis by (rule sorted_wrt_pair [rotated]) (use cluster_reach_store [OF assms(1)] in \<open>simp add: store_ok_def\<close>)
qed

lemma no_second_call:
  assumes reach: "cluster_reach env s" and pq: "p \<noteq> q" "p < length (cl_calls s)" "q < length (cl_calls s)"
    and calls: "cl_calls s ! p = (i, a)" "cl_calls s ! q = (j, b)"
    and same: "req_method (tk_req a) = req_method (tk_req b)" "request_uri (tk_req a) = request_uri (tk_req b)"
      "ts_of (tk_req a) = ts_of (tk_req b)" "nonce_of (tk_req a) = nonce_of (tk_req b)"
    and order: "tk_nonce_at a \<le> tk_nonce_at b" and ts: "parse_int64 (ts_of (tk_req a)) = Some ts"
  shows "5 * Minute - (ts * Millisecond - tk_headers_at a) < tk_nonce_at b - tk_headers_at b"
proof -
  note ok = cluster_reach_ok [OF reach]
  have ab: "granted env (cl_handlers s i) (cl_now s) a" "granted env (cl_handlers s j) (cl_now s) b"
    using cluster_ok_calls(1) [OF ok] pq calls nth_mem by metis+
  have key: "ticket_key env a = ticket_key env b" by (rule granted_key [OF ab same])
  have late: "tk_nonce_at a + covered (10 * Minute) < tk_nonce_at b"
    using calls_apart [OF reach pq] key order lasting by (auto simp: apart_def calls Minute_def Millisecond_def Second_def)
  have "in_window (5 * Minute) (tk_headers_at b) (ts_of (tk_req a))" "tk_headers_at a \<le> tk_nonce_at a"
    using ab same(3) by (auto simp: granted_def genuine_def passed_def)
  then have "tk_headers_at b \<le> ts * Millisecond + 5 * Minute" using ts by (auto simp: in_window_def)
  with late lasting \<open>tk_headers_at a \<le> tk_nonce_at a\<close> show ?thesis by linarith
qed

end


lemma valkey_cluster:
  assumes "valkey_server set_nx_px exists_at" and "be_IsDuplicate env = IsDuplicate set_nx_px"
  shows "webhook_cluster (IsDuplicate set_nx_px) (\<lambda>db key t. exists_at db key (t div Millisecond)) whole_ms env"
  by (intro webhook_cluster.intro webhook_cluster_axioms.intro valkey_server.valkey_set_once assms)
    (simp add: whole_ms_def flooredTTL_def Minute_def Millisecond_def)

interpretation kc: webhook_cluster "IsDuplicate keyspace_set" "\<lambda>db key t. live db key (t div Millisecond)" whole_ms
  "\<lparr>be_IsDuplicate = IsDuplicate keyspace_set, be_AdmitMessage = ad, be_Unmarshal = um, be_case = uc\<rparr>" for ad um uc
  by (rule valkey_cluster [OF ks.valkey_server_axioms]) simp

end
