(* ===== verification/Cluster_Refinement.thy ===== *)
theory Cluster_Refinement
  imports Webhook_Cluster
begin

text \<open>
  What a cluster of webhook handlers promises, and how its steps relate to the sequential handler
  and to the admission machine: a request that is served alone is served as \<open>ServeHTTP\<close> says, each
  replica runs the machine of \<open>Webhook_Admission\<close>, only authentic requests reach an admitter, no
  request reaches two within the replay window, and a closed replica stays quiet.
\<close>

section \<open>Serving alone\<close>

text \<open>The cluster as one request sees it: its replica, the store, the clock, where it is, and the records.\<close>

definition focus ::
  "(nat \<Rightarrow> ('st, 'ad) Handler) \<Rightarrow> nat \<Rightarrow> (nat \<times> flight) list \<Rightarrow> (nat \<times> flight) list \<Rightarrow> ('st, 'ad) Handler \<times> 'st \<Rightarrow> instant \<Rightarrow> flight
     \<Rightarrow> (nat \<times> ticket) list \<Rightarrow> (nat \<times> ticket) list \<Rightarrow> ('st, 'ad) cluster" where
  "focus H i xs ys hst now f gs cs =
     \<lparr>cl_handlers = H(i := fst hst), cl_store = snd hst, cl_now = now, cl_flights = xs @ (i, f) # ys, cl_grants = gs, cl_calls = cs\<rparr>"

abbreviation cluster_steps :: "('st, 'ad) backend \<Rightarrow> ('st, 'ad) cluster \<Rightarrow> ('st, 'ad) cluster \<Rightarrow> bool" where
  "cluster_steps env \<equiv> (cluster_step env)\<^sup>*\<^sup>*"

lemma flight_step_synced:
  "flight_step env now (h, st) f l (h', st') f' \<Longrightarrow> h_nonceStore h = Some st \<Longrightarrow> h_nonceStore h' = Some st'"
  by (erule flight_stepE)
    (auto simp: flight_headers_def flight_acquire_def flight_verify_def adm_defs Let_def authorizeHMACHeaders_def
      split: if_splits option.splits sum.splits prod.splits signatureVersionStatus.splits)

lemma focus_step:
  assumes "flight_step env now hst f l hst' f'" and "h_nonceStore (fst hst) = Some (snd hst)"
  shows "cluster_steps env (focus H i xs ys hst now f gs cs) (focus H i xs ys hst' now f' (granted_by i l @ gs) (called_by i l @ cs))"
proof -
  have "replica (focus H i xs ys hst now f gs cs) i = fst hst" using assms(2) by (simp add: focus_def replica_def)
  with cs_advance [of "focus H i xs ys hst now f gs cs" xs i f ys env l "fst hst'" "snd hst'" f'] assms(1) show ?thesis
    by (simp add: focus_def r_into_rtranclp)
qed

lemma focus_tick: "now \<le> now' \<Longrightarrow> cluster_steps env (focus H i xs ys hst now f gs cs) (focus H i xs ys hst now' f gs cs)"
  using cs_tick [of "focus H i xs ys hst now f gs cs" now' env] by (simp add: focus_def r_into_rtranclp)

lemma focus_back:
  "cl_flights s = xs @ (i, f) # ys \<Longrightarrow>
     focus (cl_handlers s) i xs ys (cl_handlers s i, cl_store s) (cl_now s) f (cl_grants s) (cl_calls s) = s"
  by (cases s) (simp add: focus_def)

text \<open>
  A request alone on its replica, which is over the shared store, gets from one place to another,
  with these records.
\<close>

definition solo ::
  "('st, 'ad) backend \<Rightarrow> ('st, 'ad) Handler \<times> 'st \<Rightarrow> instant \<Rightarrow> flight \<Rightarrow> ticket list \<Rightarrow> ticket list
     \<Rightarrow> ('st, 'ad) Handler \<times> 'st \<Rightarrow> instant \<Rightarrow> flight \<Rightarrow> bool" where
  "solo env hst now f new_grants new_calls hst' now' f' \<longleftrightarrow>
     (h_nonceStore (fst hst) = Some (snd hst) \<longrightarrow> h_nonceStore (fst hst') = Some (snd hst') \<and>
        (\<forall>H i xs ys gs cs. cluster_steps env (focus H i xs ys hst now f gs cs)
           (focus H i xs ys hst' now' f' (map (Pair i) new_grants @ gs) (map (Pair i) new_calls @ cs))))"

lemma solo_quiet: "flight_step env now hst f Quiet hst' f' \<Longrightarrow> solo env hst now f [] [] hst' now f'"
  using focus_step [of env now hst f Quiet hst'] flight_step_synced [of env now "fst hst" "snd hst" f Quiet "fst hst'" "snd hst'"]
  by (auto simp: solo_def)

lemma solo_granted: "flight_step env now hst f (Granted t) hst' f' \<Longrightarrow> solo env hst now f [t] [] hst' now f'"
  using focus_step [of env now hst f "Granted t" hst'] flight_step_synced [of env now "fst hst" "snd hst" f "Granted t" "fst hst'" "snd hst'"]
  by (auto simp: solo_def)

lemma solo_called: "flight_step env now hst f (Called t) hst' f' \<Longrightarrow> solo env hst now f [] [t] hst' now f'"
  using focus_step [of env now hst f "Called t" hst'] flight_step_synced [of env now "fst hst" "snd hst" f "Called t" "fst hst'" "snd hst'"]
  by (auto simp: solo_def)

lemma solo_tick: "now \<le> now' \<Longrightarrow> solo env hst now f [] [] hst now' f"
  by (auto simp: solo_def intro: focus_tick)

lemma solo_refl: "solo env hst now f [] [] hst now f"
  by (simp add: solo_def)

lemma solo_trans:
  "solo env hst now f g c hst' now' f' \<Longrightarrow> solo env hst' now' f' g' c' hst'' now'' f'' \<Longrightarrow>
     solo env hst now f (g' @ g) (c' @ c) hst'' now'' f''"
  unfolding solo_def by (simp add: rtranclp_trans) (meson rtranclp_trans)

lemma solo_admission:
  assumes "flight_decode env t = Inr msg" and "admitMessage env h ctx_done msg (tk_body t) = (err, h')"
  shows "\<exists>c. solo env (h, st) now (Authorized t) [] c (h', st) now (Answered (tk_req t) (admission_status err)) \<and>
    (admission_status err = 200 \<longrightarrow> c = [t])"
proof (cases "admit_enter h")
  case (Inl e)
  then have e: "err = Some e" "h' = h" "e = AdmitClosed" using assms(2) by (auto simp: admitMessage_def admit_enter_def split: if_splits)
  show ?thesis
    by (rule exI [of _ "[]"]) (use solo_quiet [OF fs_closed [OF assms(1) Inl]] e in \<open>auto simp: admission_status_def\<close>)
next
  case (Inr h1)
  note enter = solo_quiet [OF fs_enter [OF assms(1) Inr, of now st ctx_done]]
  show ?thesis
  proof (cases "admit_check h1 ctx_done")
    case (Some e)
    then have e: "err = Some e" "h' = admit_done h1" "e \<noteq> ErrAlreadyAdmitted"
      using assms(2) Inr by (auto simp: admitMessage_def admit_check_def split: if_splits)
    from solo_trans [OF solo_trans [OF enter solo_quiet [OF fs_check_failed [OF Some]]] solo_quiet [OF fs_finish]] e
    show ?thesis by (intro exI [of _ "[]"]) (simp add: admission_status_def)
  next
    case None
    obtain h2 where call: "admit_call env h1 msg (tk_body t) = (err, h2)" "h' = admit_done h2"
      using assms(2) Inr None by (auto simp: admitMessage_def split: prod.splits)
    from solo_trans [OF solo_trans [OF solo_trans [OF enter solo_quiet [OF fs_check_passed [OF None]]]
        solo_called [OF fs_call [OF call(1)]]] solo_quiet [OF fs_finish]] call(2)
    show ?thesis by (intro exI [of _ "[t]"]) simp
  qed
qed

lemma solo_later: "solo env hst now f g c hst' now' f' \<Longrightarrow> now' \<le> later \<Longrightarrow> solo env hst now f g c hst' later f'"
  using solo_trans [of env hst now f g c hst' now' f' "[]" "[]" hst' later f'] solo_tick by fastforce

definition after_nonce :: "ticket \<Rightarrow> instant \<Rightarrow> hmacAuthOutcome \<Rightarrow> flight" where
  "after_nonce t now outcome =
     (if outcome = hmacAuthAccept then Authorized (t\<lparr>tk_nonce_at := now\<rparr>)
      else Answered (tk_req t) (if outcome = hmacAuthUnavailable then 503 else 401))"

lemma solo_nonce:
  assumes "checkNonce env h now (req_method (tk_req t)) (hh_target (tk_headers t)) (hh_timestamp (tk_headers t)) (hh_nonce (tk_headers t)) = (outcome, h')"
    and "h_nonceStore h = Some st" and "h_nonceStore h' = Some st'"
  shows "\<exists>g. solo env (h, st) now (Verified t) g [] (h', st') now (after_nonce t now outcome)"
proof -
  have h: "h\<lparr>h_nonceStore := Some st\<rparr> = h" using assms(2) by simp
  have n: "flight_nonce env now st h t = (outcome, h')" using assms(1) by (simp add: flight_nonce_def h)
  show ?thesis
  proof (cases "outcome = hmacAuthAccept")
    case True
    with fs_fresh [of env now st h t h' st'] n assms(3) show ?thesis by (auto simp: after_nonce_def intro!: exI solo_granted)
  next
    case False
    with fs_refused [OF n False assms(3)] show ?thesis by (auto simp: after_nonce_def intro!: exI [of _ "[]"] solo_quiet)
  qed
qed

lemma solo_authorize:
  assumes "authorizeHMACBody env h (tk_req t) (tk_headers t) (tk_body t) run = (outcome, h')"
    and "h_nonceStore h = Some st" and "h_nonceStore h' = Some st'" and "now \<le> at_nonce run"
  shows "\<exists>g. solo env (h, st) now (Buffered t) g [] (h', st') (at_nonce run) (after_nonce t (at_nonce run) outcome)"
proof (cases "\<exists>c m h1. flight_acquire env (pool_choice run) h t = (Hashing t c m, h1)")
  case False
  then have "outcome = hmacAuthReject" "h' = h" "st' = st" "flight_acquire env (pool_choice run) h t = (Answered (tk_req t) 401, h)"
    using assms(1-3) by (auto simp: authorizeHMACBody_def flight_acquire_def Let_def split: if_splits sum.splits prod.splits)
  with fs_acquire [of env "pool_choice run" h t "Answered (tk_req t) 401" h now st] assms(4) show ?thesis
    by (auto simp: after_nonce_def intro!: exI [of _ "[]"] solo_later [OF solo_quiet])
next
  case True
  then obtain c m h1 where acq: "flight_acquire env (pool_choice run) h t = (Hashing t c m, h1)" by blast
  obtain f2 h2 where ver: "flight_verify h1 t c m = (f2, h2)" by fastforce
  note first = solo_trans [OF solo_quiet [OF fs_acquire [OF acq, of now st]] solo_quiet [OF fs_verify [OF ver]]]
  have out: "(f2 = Answered (tk_req t) 401 \<and> outcome = hmacAuthReject \<and> h' = h2 \<and> st' = st) \<or>
     (f2 = Verified t \<and> h_nonceStore h2 = Some st \<and>
      checkNonce env h2 (at_nonce run) (req_method (tk_req t)) (hh_target (tk_headers t)) (hh_timestamp (tk_headers t)) (hh_nonce (tk_headers t)) = (outcome, h'))"
    using assms(1-3) acq ver
    by (auto simp: authorizeHMACBody_def flight_acquire_def flight_verify_def Sign_def Let_def split: if_splits sum.splits prod.splits)
  then show ?thesis
  proof (elim disjE conjE)
    assume "f2 = Answered (tk_req t) 401" "outcome = hmacAuthReject" "h' = h2" "st' = st"
    with solo_later [OF first assms(4)] show ?thesis by (auto simp: after_nonce_def intro!: exI [of _ "[]"])
  next
    assume v: "f2 = Verified t" "h_nonceStore h2 = Some st"
      "checkNonce env h2 (at_nonce run) (req_method (tk_req t)) (hh_target (tk_headers t)) (hh_timestamp (tk_headers t)) (hh_nonce (tk_headers t)) = (outcome, h')"
    from solo_nonce [OF v(3,2) assms(3)] obtain g where
      "solo env (h2, st) (at_nonce run) (Verified t) g [] (h', st') (at_nonce run)
         (after_nonce t (at_nonce run) outcome)" by blast
    from solo_trans [OF solo_later [OF first assms(4)], unfolded v(1), OF this] show ?thesis by auto
  qed
qed

lemma flight_decode_exact:
  assumes "serve_body env h (tk_req t) (tk_body t) = (status, h', ms)"
  shows "case flight_decode env t of
      Inl s \<Rightarrow> status = s \<and> h' = h
    | Inr m \<Rightarrow> \<exists>err. admitMessage env h (req_ctx_done (tk_req t)) m (tk_body t) = (err, h') \<and> status = admission_status err"
proof -
  have st: "statusForDecodeError ReadFailed = 400"
    by (simp add: statusForDecodeError_def isBodyTooLarge_def)
  have id: "parseWebhookRequest u b = Inr req \<Longrightarrow> trim_space (wr_MessageID req) = wr_MessageID req" for u b req
    by (rule parsed_request_valid(3))
  from assms show ?thesis
    by (auto simp: serve_body_def flight_decode_def decodeAndValidate_def st reconcile_exact DecodeMessage_def buildMessage_id id
        admission_status_def split: sum.splits prod.splits if_splits)
qed

lemma flight_decode_not_200: "flight_decode env t = Inl s \<Longrightarrow> s \<noteq> 200"
  by (auto simp: flight_decode_def decodeAndValidate_def statusForDecodeError_def split: if_splits sum.splits)

lemma solo_rest:
  assumes "serve_body env h (tk_req t) (tk_body t) = (status, h', ms)"
  shows "\<exists>c. solo env (h, st) now (Authorized t) [] c (h', st) now (Answered (tk_req t) status) \<and> (status = 200 \<longrightarrow> c = [t])"
proof (cases "flight_decode env t")
  case (Inl s)
  with flight_decode_exact [OF assms] fs_undecoded [OF Inl, of now h st] flight_decode_not_200 [OF Inl] show ?thesis
    by (auto intro!: exI [of _ "[]"] solo_quiet)
next
  case (Inr m)
  with flight_decode_exact [OF assms] obtain err where
    a: "admitMessage env h (req_ctx_done (tk_req t)) m (tk_body t) = (err, h')" "status = admission_status err" by auto
  from solo_admission [OF Inr a(1), of st now] a(2) show ?thesis by blast
qed

lemma authorizeHMACBody_store: 
  "h_nonceStore h = Some st \<Longrightarrow> authorizeHMACBody env h r hs body run = (outcome, h') \<Longrightarrow> \<exists>st'. h_nonceStore h' = Some st'"
  by (auto simp: authorizeHMACBody_def checkNonce_def Let_def split: if_splits sum.splits prod.splits option.splits bool.splits)

text \<open>The ticket of a request that is alone from its header checks to its nonce.\<close>

definition ticket_of :: "http_request \<Rightarrow> serve_run \<Rightarrow> ticket \<Rightarrow> bool" where
  "ticket_of r run t \<longleftrightarrow> tk_req t = r \<and> tk_headers_at t = at_headers run \<and> tk_nonce_at t = at_nonce run"

lemma solo_passed:
  assumes serve: "ServeHTTP env h r run = (status, h', ms)" and st: "h_nonceStore h1 = Some st" and times: "at_headers run \<le> at_nonce run"
    and fl: "flight_headers env (at_headers run) h r = (Passed t, h1)"
  shows "\<exists>g c st'. h_nonceStore h' = Some st' \<and>
    solo env (h1, st) (at_headers run) (Passed t) g c (h', st') (at_nonce run) (Answered r status) \<and>
    (status = 200 \<longrightarrow> (\<exists>t. ticket_of r run t \<and> c = [t]))"
proof -
  from fl have tk: "tk_req t = r" "tk_headers_at t = at_headers run" and au: "isPOST (req_method r)" "hasSignatureHeaders (req_header r)"
      "authorizeHMACHeaders env h r (at_headers run) = (Some (tk_headers t), h1)"
    by (auto simp: flight_headers_def split: if_splits option.splits prod.splits)
  note read = solo_later [OF solo_quiet [OF fs_body [of env "at_headers run" h1 st t]]]
  show ?thesis
  proof (cases "fst (bufferBodyForHMAC h1 r)")
    case (Inl e)
    then have "status = e" "h' = h1" "e \<noteq> 200"
      using serve au by (auto simp: ServeHTTP_body isPOST_def authorizeRequest_def bufferBody_read statusForDecodeError_def split: sum.splits prod.splits if_splits)
    moreover have "flight_body h1 t = Answered r e" using Inl tk by (simp add: flight_body_def)
    ultimately show ?thesis using read [OF times] st by (intro exI [of _ "[]"] exI [of _ st]) simp
  next
    case (Inr body)
    let ?t = "t\<lparr>tk_body := body\<rparr>"
    have fb: "flight_body h1 t = Buffered ?t" using Inr tk by (simp add: flight_body_def)
    obtain outcome h2 where ah: "authorizeHMACBody env h1 r (tk_headers t) body run = (outcome, h2)" by fastforce
    obtain st2 where st2: "h_nonceStore h2 = Some st2" using authorizeHMACBody_store [OF st ah] by blast
    from solo_authorize [of env h1 ?t run outcome h2 st st2 "at_headers run"] ah st st2 times tk
    obtain g where "solo env (h1, st) (at_headers run) (Buffered ?t) g [] (h2, st2) (at_nonce run) (after_nonce ?t (at_nonce run) outcome)" by auto
    from solo_trans [OF solo_quiet [OF fs_body [of env "at_headers run" h1 st t], unfolded fb] this]
    have auth: "solo env (h1, st) (at_headers run) (Passed t) g [] (h2, st2) (at_nonce run) (after_nonce ?t (at_nonce run) outcome)" by simp
    show ?thesis
    proof (cases "outcome = hmacAuthAccept")
      case False
      then have "status = (if outcome = hmacAuthUnavailable then 503 else 401)" "h' = h2"
        using serve au ah Inr by (cases outcome; auto simp: ServeHTTP_body isPOST_def authorizeRequest_def bufferBody_read split: sum.splits prod.splits)+
      with False auth st2 tk show ?thesis by (intro exI [of _ g] exI [of _ "[]"] exI [of _ st2]) (simp add: after_nonce_def split: if_splits)
    next
      case True
      let ?u = "?t\<lparr>tk_nonce_at := at_nonce run\<rparr>"
      obtain ms2 where sb: "serve_body env h2 (tk_req ?u) (tk_body ?u) = (status, h', ms2)"
        using serve au ah Inr True tk by (auto simp: ServeHTTP_body isPOST_def authorizeRequest_def bufferBody_read split: sum.splits prod.splits)
      from solo_rest [OF sb, of st2 "at_nonce run"] obtain c where
        c: "solo env (h2, st2) (at_nonce run) (Authorized ?u) [] c (h', st2) (at_nonce run) (Answered r status)" "status = 200 \<longrightarrow> c = [?u]"
        using tk by auto
      have "solo env (h1, st) (at_headers run) (Passed t) g [] (h2, st2) (at_nonce run) (Authorized ?u)"
        using auth True by (simp add: after_nonce_def)
      with c(2) solo_trans [OF this c(1)] serve_body_store [OF sb] st2 tk show ?thesis
        by (intro exI [of _ g] exI [of _ c] exI [of _ st2]) (auto simp: ticket_of_def)
    qed
  qed
qed

lemma serve_alone:
  assumes serve: "ServeHTTP env h r run = (status, h', ms)" and st: "h_nonceStore h = Some st" and times: "at_headers run \<le> at_nonce run"
    and first: "flight_headers env (at_headers run) h r = (f, h1)"
  shows "\<exists>g c st'. h_nonceStore h' = Some st' \<and>
    solo env (h1, st) (at_headers run) f g c (h', st') (at_nonce run) (Answered r status) \<and>
    (status = 200 \<longrightarrow> (\<exists>t. ticket_of r run t \<and> c = [t]))"
proof -
  have store: "h_nonceStore h1 = Some st"
    using first st by (auto simp: flight_headers_def authorizeHMACHeaders_def
      split: if_splits option.splits prod.splits signatureVersionStatus.splits sum.splits)
  show ?thesis
  proof (cases "\<exists>t. f = Passed t")
    case False
    then have "f = Answered r status" "h' = h1" "status \<noteq> 200"
      using serve first by (auto simp: ServeHTTP_body isPOST_def authorizeRequest_def flight_headers_def split: if_splits option.splits prod.splits)
    with solo_tick [OF times] store show ?thesis by (intro exI [of _ "[]"] exI [of _ st]) simp
  next
    case True
    then obtain t where "f = Passed t" by blast
    with solo_passed [OF serve store times] first show ?thesis by simp
  qed
qed

section \<open>Each replica runs the admission machine\<close>

text \<open>
  The fields of a handler the admission machine is about, over a handler that supplies the others,
  and the goroutines of a replica that are inside \<open>admitMessage\<close>.
\<close>

definition adm_view :: "('st, 'ad) Handler \<Rightarrow> ('st, 'ad) Handler \<Rightarrow> ('st, 'ad) Handler" where
  "adm_view h0 h = h0\<lparr>h_admitter := h_admitter h, h_closed := h_closed h, h_admissions := h_admissions h,
     h_runCancelled := h_runCancelled h, h_closeDone := h_closeDone h\<rparr>"

fun phase_of :: "flight \<Rightarrow> phase list" where
  "phase_of (Admitting t p) = [p]"
| "phase_of _ = []"

definition phases_at :: "nat \<Rightarrow> (nat \<times> flight) list \<Rightarrow> phase list" where
  "phases_at i fl = concat (map (\<lambda>(j, f). if j = i then phase_of f else []) fl)"

lemma phases_at_simps [simp]:
  "phases_at i [] = []" "phases_at i ((j, f) # fl) = (if j = i then phase_of f else []) @ phases_at i fl"
  "phases_at i (xs @ ys) = phases_at i xs @ phases_at i ys"
  by (simp_all add: phases_at_def)

lemma adm_view_fields [simp]:
  "h_admitter (adm_view h0 h) = h_admitter h" "h_closed (adm_view h0 h) = h_closed h"
  "h_admissions (adm_view h0 h) = h_admissions h" "h_runCancelled (adm_view h0 h) = h_runCancelled h"
  "h_closeDone (adm_view h0 h) = h_closeDone h"
  by (simp_all add: adm_view_def)

lemma adm_view_self [simp]: "adm_view h h = h"
  by (simp add: adm_view_def)

text \<open>The operations of the machine do not see the other fields.\<close>

lemma adm_view_ops:
  "admit_enter (adm_view h0 h) = map_sum id (adm_view h0) (admit_enter h)"
  "admit_check (adm_view h0 h) ctx_done = admit_check h ctx_done"
  "admit_call env (adm_view h0 h) msg body = map_prod id (adm_view h0) (admit_call env h msg body)"
  "admit_done (adm_view h0 h) = adm_view h0 (admit_done h)"
  "beginClose (adm_view h0 h) = adm_view h0 (beginClose h)"
  "close_wait (adm_view h0 h) = adm_view h0 (close_wait h)"
  "snd (close_interrupted (adm_view h0 h)) = adm_view h0 (snd (close_interrupted h))"
  by (simp_all add: adm_defs adm_view_def Let_def split: prod.splits)

lemma adm_view_replica: "adm_view h0 (replica s i) = adm_view h0 (cl_handlers s i)"
  by (simp add: adm_view_def replica_def)

text \<open>A part of a request is a step of the machine of its replica, or leaves it alone.\<close>

lemma flight_view:
  "flight_headers env now h r = (f, h') \<Longrightarrow> adm_view h0 h' = adm_view h0 h \<and> phase_of f = []"
  "phase_of (flight_body h t) = []"
  "flight_acquire env choice h t = (f, h') \<Longrightarrow> adm_view h0 h' = adm_view h0 h \<and> phase_of f = []"
  "flight_verify h t c m = (f, h') \<Longrightarrow> adm_view h0 h' = adm_view h0 h \<and> phase_of f = []"
  "flight_nonce env now st h t = (outcome, h') \<Longrightarrow> adm_view h0 h' = adm_view h0 h"
proof -
  show "flight_headers env now h r = (f, h') \<Longrightarrow> adm_view h0 h' = adm_view h0 h \<and> phase_of f = []"
    by (auto simp: flight_headers_def authorizeHMACHeaders_def adm_view_def
        split: if_splits option.splits prod.splits signatureVersionStatus.splits sum.splits)
qed (auto simp: flight_body_def flight_acquire_def flight_verify_def flight_nonce_def checkNonce_def Let_def adm_view_def
    split: if_splits sum.splits prod.splits bool.splits)

lemma flight_step_admission:
  assumes "flight_step env now (h, st) f l (h', st') f'"
  shows "adm_step env (adm_view h0 h, ps @ phase_of f @ qs) (adm_view h0 h', ps @ phase_of f' @ qs) \<or>
    adm_view h0 h' = adm_view h0 h \<and> phase_of f' = phase_of f"
  using assms
proof (cases rule: flight_step.cases)
  case (fs_enter t msg ctx_done)
  then show ?thesis using adm_step.enter [of "adm_view h0 h" "adm_view h0 h'" env ps qs] by (simp add: adm_view_ops)
next
  case (fs_check_failed ctx_done e t msg body)
  then show ?thesis using adm_step.check_failed [of "adm_view h0 h" ctx_done e env ps] by (simp add: adm_view_ops)
next
  case (fs_check_passed ctx_done t msg body)
  then show ?thesis using adm_step.check_passed [of "adm_view h0 h" ctx_done env ps] by (simp add: adm_view_ops)
next
  case (fs_call msg body err t)
  then show ?thesis using adm_step.call [of env "adm_view h0 h" msg body err "adm_view h0 h'" ps qs] by (simp add: adm_view_ops)
next
  case (fs_finish t err)
  then show ?thesis using adm_step.finish [of env "adm_view h0 h" ps err qs] by (simp add: adm_view_ops)
qed (auto simp: flight_view)

lemma cluster_step_admission:
  assumes "cluster_step env s s'"
  shows "adm_steps env (adm_view h0 (cl_handlers s i), phases_at i (cl_flights s)) (adm_view h0 (cl_handlers s' i), phases_at i (cl_flights s'))"
  using assms
proof (cases rule: cluster_step.cases)
  case (cs_advance xs j f ys l h' st' f')
  with flight_step_admission [OF cs_advance(3), of h0 "phases_at i xs" "phases_at i ys"] show ?thesis
    by (cases "j = i") (auto simp: adm_view_replica intro: adm_steps_one adm_refl)
next
  case (cs_begin_close j)
  then show ?thesis
    using adm_steps_one [OF adm_step.begin_close [of env "adm_view h0 (cl_handlers s i)" "phases_at i (cl_flights s)"]]
    by (auto simp: adm_view_ops intro: adm_refl)
next
  case (cs_wait_over j)
  then show ?thesis
    using adm_steps_one [OF adm_step.wait_over [of "adm_view h0 (cl_handlers s i)" env "phases_at i (cl_flights s)"]]
    by (auto simp: adm_view_ops intro: adm_refl)
next
  case (cs_grace_over j)
  then show ?thesis
    using adm_steps_one [OF adm_step.grace_over [of "adm_view h0 (cl_handlers s i)" env "phases_at i (cl_flights s)"]]
    by (auto simp: adm_view_ops intro: adm_refl)
qed (auto intro: adm_refl)

lemma cluster_steps_admission:
  "cluster_steps env s s' \<Longrightarrow>
     adm_steps env (adm_view h0 (cl_handlers s i), phases_at i (cl_flights s)) (adm_view h0 (cl_handlers s' i), phases_at i (cl_flights s'))"
proof (induction rule: rtranclp_induct)
  case (step s' s'')
  then show ?case using adm_steps_trans cluster_step_admission by blast
qed (rule adm_refl)

lemma cluster_reach_admission:
  "cluster_reach env s \<Longrightarrow> \<exists>h0. adm_reach env (adm_view h0 (cl_handlers s i), phases_at i (cl_flights s))"
proof (induction rule: Single_Flight.reachable.induct)
  case (reach_init s)
  then have "adm_initial (adm_view (cl_handlers s i) (cl_handlers s i), phases_at i (cl_flights s))"
    by (auto simp: cluster_init_def adm_initial_def)
  then show ?case by (metis adm_view_self adm_refl adm_reach_def)
next
  case (reach_step s s')
  then obtain h0 where "adm_reach env (adm_view h0 (cl_handlers s i), phases_at i (cl_flights s))" by blast
  then show ?case using cluster_step_admission [OF reach_step.hyps(2)] adm_steps_trans by (fastforce simp: adm_reach_def)
qed

lemma undisturbed_serving:
  assumes "cl_flights s = xs @ (i, Arrived r) # ys" and "cl_now s = at_headers run" and "at_headers run \<le> at_nonce run"
    and "ServeHTTP env (replica s i) r run = (status, h', ms)"
  shows "\<exists>s'. cluster_steps env s s' \<and> cl_flights s' = xs @ (i, Answered r status) # ys \<and>
    cl_handlers s' = (cl_handlers s)(i := h') \<and> h_nonceStore h' = Some (cl_store s') \<and> cl_now s' = at_nonce run \<and>
    (status = 200 \<longrightarrow> (\<exists>t. ticket_of r run t \<and> cl_calls s' = (i, t) # cl_calls s))"
proof -
  let ?st = "cl_store s"
  obtain f h1 where fh: "flight_headers env (at_headers run) (replica s i) r = (f, h1)" by fastforce
  have st: "h_nonceStore (replica s i) = Some ?st" by (simp add: replica_def)
  from serve_alone [OF assms(4) st assms(3) fh] obtain g c st' where
    rest: "h_nonceStore h' = Some st'" "solo env (h1, ?st) (at_headers run) f g c (h', st') (at_nonce run) (Answered r status)"
      "status = 200 \<longrightarrow> (\<exists>t. ticket_of r run t \<and> c = [t])" by blast
  note step = fs_headers [OF fh, of ?st]
  let ?s1 = "focus (cl_handlers s) i xs ys (h1, ?st) (at_headers run) f (cl_grants s) (cl_calls s)"
  let ?s2 = "focus (cl_handlers s) i xs ys (h', st') (at_nonce run) (Answered r status) (map (Pair i) g @ cl_grants s) (map (Pair i) c @ cl_calls s)"
  have "cluster_step env s ?s1"
    using cs_advance [OF assms(1) step [folded assms(2)]] assms(2) by (cases s) (simp add: focus_def)
  moreover have "cluster_steps env ?s1 ?s2"
    using rest(2) flight_step_synced [OF step st] by (simp add: solo_def)
  ultimately have "cluster_steps env s ?s2" by (rule converse_rtranclp_into_rtranclp)
  then show ?thesis using rest by (intro exI [of _ ?s2]) (auto simp: focus_def)
qed

lemma flight_step_admitter:
  assumes "flight_step env now (h, st) f l (h', st') f'"
  shows "h_admitter h' = h_admitter h \<or>
    (\<exists>t m b err. f = Admitting t (Calling m b) \<and> l = Called t \<and> be_AdmitMessage env (h_admitter h) m b = (err, h_admitter h'))"
proof -
  have same: "h_admitter h' = h_admitter h" if "adm_view h h' = adm_view h h"
    using that by (metis adm_view_fields(1))
  from assms show ?thesis
  proof (cases rule: flight_step.cases)
    case (fs_call msg body err t)
    then show ?thesis by (auto simp: admit_call_def split: prod.splits)
  qed (auto simp: adm_defs split: if_splits dest!: flight_view(1,3,4,5) [where ?h0.0 = h] intro: same)
qed

lemma cluster_reach_steps: "cluster_steps env s s' \<Longrightarrow> cluster_reach env s \<Longrightarrow> cluster_reach env s'"
  by (induction rule: rtranclp_induct) (auto intro: reach_step)

lemma steps_change:
  "r\<^sup>*\<^sup>* s s' \<Longrightarrow> g s' \<noteq> g s \<Longrightarrow> \<exists>u u'. r\<^sup>*\<^sup>* s u \<and> r u u' \<and> g u' \<noteq> g u"
proof (induction rule: rtranclp_induct)
  case (step y z)
  then show ?case by (cases "g y = g s") force+
qed simp

section \<open>Two replicas and a request delivered to both\<close>

definition sample_cluster :: "(keyspace, Message list) cluster" where
  "sample_cluster = \<lparr>cl_handlers = \<lambda>_. sample_handler, cl_store = empty_keyspace, cl_now = sample_at - 5 * Minute, cl_flights = [],
     cl_grants = [], cl_calls = []\<rparr>"

lemma sample_cluster_reach: "cluster_reach sample_env sample_cluster"
  by (rule reach_init) (use sample_new in \<open>auto simp: cluster_init_def sample_cluster_def\<close>)

lemma sample_over:
  "NewDurableHandler (Some []) [WithWebhookToken ''secret'', WithNonceStore (Some ks)] = Inr (sample_handler\<lparr>h_nonceStore := Some ks\<rparr>)"
proof -
  have "trim_space ''secret'' = ''secret''" by (rule sample_visible) (simp add: is_visible_def)
  then show ?thesis
    by (simp add: NewDurableHandler_def sample_handler_def sample_options_def initial_handler_def Let_def)
qed

lemma sample_delivery:
  assumes i: "cl_handlers s i = sample_handler" and ks: "keyspace.reachable (cl_store s)"
    and fresh: "\<And>key. \<not> live (cl_store s) key (t' div Millisecond)"
    and times: "cl_now s \<le> t" "t \<le> t'" "\<bar>sample_at - t\<bar> \<le> 5 * Minute"
  obtains s' a where "cluster_steps sample_env s s'" and "cl_now s' = t'" and "cl_calls s' = (i, a) # cl_calls s"
    and "ticket_of (deliver sample_signed) (run_at t t') a"
    and "cl_store s' = (cl_store s)\<lparr>deadline := (deadline (cl_store s))(sample_key \<mapsto> t' div Millisecond + 600000)\<rparr>"
    and "\<forall>j. j \<noteq> i \<longrightarrow> cl_handlers s' j = cl_handlers s j" and "h_admitter (cl_handlers s' i) \<noteq> []"
proof -
  let ?r = "deliver sample_signed"
  let ?s1 = "s\<lparr>cl_now := t\<rparr>"
  let ?s2 = "?s1\<lparr>cl_flights := (i, Arrived ?r) # cl_flights ?s1\<rparr>"
  have arrive: "cluster_steps sample_env s ?s2"
    using cs_tick [OF times(1), of sample_env] cs_arrive [of sample_env ?s1 i ?r] by (meson r_into_rtranclp rtranclp.rtrancl_into_rtrancl)
  have rep: "replica ?s2 i = sample_handler\<lparr>h_nonceStore := Some (cl_store s)\<rparr>" by (simp add: replica_def i)
  have reach: "handler_reach sample_env (replica ?s2 i)" unfolding rep by (rule hr_new [OF sample_over])
  obtain h' ms where res: "ServeHTTP sample_env (replica ?s2 i) ?r (run_at t t') = (200, h', ms)"
    "h_nonceStore h' = Some ((cl_store s)\<lparr>deadline := (deadline (cl_store s))(sample_key \<mapsto> t' div Millisecond + 600000)\<rparr>)"
    "h_admitter h' \<noteq> []"
    using sample_serve [OF reach, of "cl_store s" "run_at t t'"] fresh times ks unfolding rep by (auto simp: sample_handler_fields)
  have "\<exists>s'. cluster_steps sample_env ?s2 s' \<and> cl_flights s' = [] @ (i, Answered ?r 200) # cl_flights s \<and>
    cl_handlers s' = (cl_handlers ?s2)(i := h') \<and> h_nonceStore h' = Some (cl_store s') \<and> cl_now s' = at_nonce (run_at t t') \<and>
    ((200 :: nat) = 200 \<longrightarrow> (\<exists>a. ticket_of ?r (run_at t t') a \<and> cl_calls s' = (i, a) # cl_calls ?s2))"
    by (rule undisturbed_serving [OF _ _ _ res(1)]) (use times in simp_all)
  then obtain s' a where "cluster_steps sample_env ?s2 s'" "cl_handlers s' = (cl_handlers s)(i := h')" "h_nonceStore h' = Some (cl_store s')"
    "cl_now s' = t'" "ticket_of ?r (run_at t t') a" "cl_calls s' = (i, a) # cl_calls s"
    by auto
  with arrive res show thesis by (intro that [of s' a]) (auto intro: rtranclp_trans)
qed

lemma cluster_call:
  assumes "cluster_reach env s" and "cluster_step env s s'" and "h_admitter (cl_handlers s' i) \<noteq> h_admitter (cl_handlers s i)"
  obtains t m err where "cl_calls s' = (i, t) # cl_calls s" and "decoded env t m (tk_body t)"
    and "granted env (cl_handlers s i) (cl_now s) t" and "(i, t) \<in> set (cl_grants s)"
    and "be_AdmitMessage env (h_admitter (cl_handlers s i)) m (tk_body t) = (err, h_admitter (cl_handlers s' i))"
  using assms(2)
proof (cases rule: cluster_step.cases)
  case (cs_advance xs j f ys l h' st' f')
  have j: "j = i" using assms(3) cs_advance(1) by (auto split: if_splits)
  have new: "h_admitter h' \<noteq> h_admitter (replica s i)" using assms(3) cs_advance(1) j by (simp add: replica_def)
  from flight_step_admitter [OF cs_advance(3)] new j obtain t m b err where
    c: "f = Admitting t (Calling m b)" "l = Called t" "be_AdmitMessage env (h_admitter (replica s i)) m b = (err, h_admitter h')" by auto
  have ok: "flight_ok env (cl_handlers s i) (cl_now s) f"
    using cluster_reach_ok [OF assms(1)] cs_advance(2) j by (auto simp: cluster_ok_def)
  then have "b = tk_body t" "decoded env t m b" "granted env (cl_handlers s i) (cl_now s) t"
    using c(1) by (auto simp: decoded_def)
  moreover have "(i, t) \<in># pending (cl_flights s)" using cs_advance(2) c(1) j by simp
  then have "(i, t) \<in> set (cl_grants s)"
    using cluster_reach_ok [OF assms(1)] by (auto simp: cluster_ok_def dest!: mset_subset_eqD [where x = "(i, t)"])
  ultimately show thesis using c cs_advance(1) j by (intro that [of t m err]) (auto simp: replica_def)
qed (use assms(3) in \<open>auto simp: adm_defs Let_def split: if_splits\<close>)

section \<open>Claims\<close>

text \<open>
  C2: a webhook request is admitted once by the whole cluster. However many replicas share a Valkey
  server that behaves as documented, and however the parts of their requests interleave, two calls
  of admitters for requests with the same method, target, timestamp and nonce can only both have
  happened if the body of the later one kept its nonce check waiting for longer than five minutes
  less the lead of the sender's clock over the first one's header check.
\<close>

theorem cluster_no_replay:
  assumes "valkey_server set_nx_px exists_at" and "be_IsDuplicate env = IsDuplicate set_nx_px"
    and "cluster_reach env s"
    and "p \<noteq> q" and "p < length (cl_calls s)" and "q < length (cl_calls s)"
    and "cl_calls s ! p = (i, a)" and "cl_calls s ! q = (j, b)"
    and "req_method (tk_req a) = req_method (tk_req b)" and "request_uri (tk_req a) = request_uri (tk_req b)"
    and "ts_of (tk_req a) = ts_of (tk_req b)" and "nonce_of (tk_req a) = nonce_of (tk_req b)"
    and "tk_nonce_at a \<le> tk_nonce_at b" and "parse_int64 (ts_of (tk_req a)) = Some ts"
  shows "5 * Minute - (ts * Millisecond - tk_headers_at a) < tk_nonce_at b - tk_headers_at b"
  by (rule webhook_cluster.no_second_call [OF valkey_cluster [OF assms(1,2)] assms(3-14)])

text \<open>The request whose body comes slowly, delivered to the replicas 0 and 1 ten minutes apart.\<close>

theorem cluster_no_replay_witness:
  "\<exists>s a b. cluster_reach sample_env s \<and> cl_calls s = [(1, b), (0, a)] \<and>
     5 * Minute - (1700000000000 * Millisecond - tk_headers_at a) < tk_nonce_at b - tk_headers_at b"
proof -
  let ?t = "sample_at - 5 * Minute" and ?u = "sample_at + 5 * Minute"
  let ?u' = "?u + Millisecond"
  obtain s a where s: "cluster_steps sample_env sample_cluster s" "cl_now s = ?t" "cl_calls s = [(0, a)]"
    "ticket_of (deliver sample_signed) (run_at ?t ?t) a"
    "cl_store s = empty_keyspace\<lparr>deadline := (deadline empty_keyspace)(sample_key \<mapsto> ?t div Millisecond + 600000)\<rparr>"
    "cl_handlers s 1 = sample_handler"
    by (rule sample_delivery [of sample_cluster 0 ?t ?t])
      (auto simp: sample_cluster_def empty_keyspace_def live_def Minute_def)
  obtain s' b where s': "cluster_steps sample_env s s'" "cl_calls s' = [(1, b), (0, a)]" "ticket_of (deliver sample_signed) (run_at ?u ?u') b"
    by (rule sample_delivery [of s 1 ?u' ?u])
      (use s in \<open>auto simp: empty_keyspace_def live_def sample_at_def Minute_def Millisecond_def\<close>)
  have reach: "cluster_reach sample_env s'"
    using s(1) s'(1) by (rule cluster_reach_steps [OF rtranclp_trans sample_cluster_reach])
  have "5 * Minute - (1700000000000 * Millisecond - tk_headers_at a) < tk_nonce_at b - tk_headers_at b"
    by (rule cluster_no_replay [OF ks.valkey_server_axioms _ reach, of 1 0])
      (use s(4) s'(2,3) in \<open>auto simp: ticket_of_def sample_env_def sample_signed_fields sample_timestamp Minute_def Millisecond_def\<close>)
  with reach s'(2) show ?thesis by blast
qed

text \<open>
  C3: whatever the interleaving, an admitter's state changes only when it is called with the message
  of an authentic request: a POST of JSON, signed with the replica's secret, whose timestamp was
  within five minutes when its headers were checked, whose body was read in full under the limit
  and decodes to that message with the signed identifier, and whose nonce the store had taken for
  new after the headers were checked and before the call.
\<close>

theorem cluster_admits_authentic:
  assumes "cluster_reach env s" and "cluster_step env s s'" and "h_admitter (cl_handlers s' i) \<noteq> h_admitter (cl_handlers s i)"
  shows "\<exists>t m err. be_AdmitMessage env (h_admitter (cl_handlers s i)) m (tk_body t) = (err, h_admitter (cl_handlers s' i)) \<and>
    req_method (tk_req t) = ''POST'' \<and> isJSONContentType (be_case env) (header_Get (req_header (tk_req t)) ''Content-Type'') \<and>
    authentic (be_case env) (h_token (cl_handlers s i)) (5 * Minute) (tk_headers_at t) (tk_req t) (hh_target (tk_headers t)) (tk_body t) \<and>
    read_body (maxBodyBytes (h_options (cl_handlers s i))) (tk_req t) = Inr (tk_body t) \<and>
    DecodeMessage (be_Unmarshal env) (tk_body t) = Inr m \<and> message_id_of (tk_req t) (mj_MessageID (the (m_JSON m))) \<and>
    tk_headers_at t \<le> tk_nonce_at t \<and> tk_nonce_at t \<le> cl_now s \<and>
    (i, t) \<in> set (cl_grants s) \<and> cl_calls s' = (i, t) # cl_calls s"
proof -
  from cluster_call [OF assms] obtain t m err where t: "cl_calls s' = (i, t) # cl_calls s" "decoded env t m (tk_body t)"
    "granted env (cl_handlers s i) (cl_now s) t" "(i, t) \<in> set (cl_grants s)"
    "be_AdmitMessage env (h_admitter (cl_handlers s i)) m (tk_body t) = (err, h_admitter (cl_handlers s' i))" by metis
  then show ?thesis
    by (intro exI [of _ t] exI [of _ m] exI [of _ err]) (simp add: decoded_def granted_def genuine_def passed_def body_read_def)
qed



text \<open>
  C23: in the whole cluster the wait group of a replica counts its goroutines inside \<open>admitMessage\<close>,
  and once a replica has reported itself closed none is left there, its run context is cancelled,
  and whatever the cluster does from then on, requests to the replica included, its admitter is
  never called again.
\<close>

theorem closed_replica_is_quiescent:
  assumes "cluster_reach env s"
  shows "h_admissions (cl_handlers s i) = length (phases_at i (cl_flights s)) \<and>
    (h_closeDone (cl_handlers s i) \<longrightarrow> phases_at i (cl_flights s) = [] \<and> h_runCancelled (cl_handlers s i) \<and>
       (\<forall>s'. cluster_steps env s s' \<longrightarrow> phases_at i (cl_flights s') = [] \<and>
          h_admitter (cl_handlers s' i) = h_admitter (cl_handlers s i)))"
proof -
  from cluster_reach_admission [OF assms] obtain h0 where
    r: "adm_ok (adm_view h0 (cl_handlers s i), phases_at i (cl_flights s))" by (metis adm_reach_ok)
  have "phases_at i (cl_flights s') = [] \<and> h_admitter (cl_handlers s' i) = h_admitter (cl_handlers s i)"
    if "h_closeDone (cl_handlers s i)" and "cluster_steps env s s'" for s'
    using closeDone_steps [OF cluster_steps_admission [OF that(2), of h0 i] r] adm_steps_ok [OF cluster_steps_admission [OF that(2), of h0 i] r]
      that(1) by (simp add: adm_ok_def)
  moreover have "h_admissions (cl_handlers s i) = length (phases_at i (cl_flights s))"
    "h_closeDone (cl_handlers s i) \<Longrightarrow> phases_at i (cl_flights s) = [] \<and> h_runCancelled (cl_handlers s i)"
    using r by (simp_all add: adm_ok_def)
  ultimately show ?thesis by blast
qed

text \<open>A delivery to replica 0, up to a state reached by it.\<close>

lemma sample_delivered:
  obtains s a where "cluster_steps sample_env sample_cluster s" and "cl_calls s = [(0, a)]"
    and "h_admitter (cl_handlers s 0) \<noteq> h_admitter (cl_handlers sample_cluster 0)"
  by (rule sample_delivery [of sample_cluster 0 "sample_at - 5 * Minute" "sample_at - 5 * Minute"])
    (auto simp: sample_cluster_def empty_keyspace_def live_def Minute_def sample_handler_fields)

theorem cluster_admits_authentic_witness:
  "\<exists>s s' t. cluster_reach sample_env s \<and> cluster_step sample_env s s' \<and> cl_calls s' = (0, t) # cl_calls s \<and>
     authentic (be_case sample_env) (h_token (cl_handlers s 0)) (5 * Minute) (tk_headers_at t) (tk_req t) (hh_target (tk_headers t)) (tk_body t)"
proof -
  obtain s a where s: "cluster_steps sample_env sample_cluster s" "cl_calls s = [(0, a)]"
    "h_admitter (cl_handlers s 0) \<noteq> h_admitter (cl_handlers sample_cluster 0)" by (rule sample_delivered)
  obtain u u' where u: "cluster_steps sample_env sample_cluster u" "cluster_step sample_env u u'"
    "h_admitter (cl_handlers u' 0) \<noteq> h_admitter (cl_handlers u 0)"
    using steps_change [OF s(1), of "\<lambda>s. h_admitter (cl_handlers s 0)"] s(3) by blast
  have "cluster_reach sample_env u" by (rule cluster_reach_steps [OF u(1) sample_cluster_reach])
  with cluster_admits_authentic [OF this u(2,3)] u(2) show ?thesis by blast
qed



theorem closed_replica_is_quiescent_witness:
  "\<exists>s. cluster_reach sample_env s \<and> h_closeDone (cl_handlers s 0) \<and> \<not> h_closeDone (cl_handlers s 1) \<and>
     (\<forall>s'. cluster_steps sample_env s s' \<longrightarrow> h_admitter (cl_handlers s' 0) = h_admitter (cl_handlers s 0))"
proof -
  let ?s1 = "sample_cluster\<lparr>cl_handlers := (cl_handlers sample_cluster)(0 := beginClose (cl_handlers sample_cluster 0))\<rparr>"
  let ?s2 = "?s1\<lparr>cl_handlers := (cl_handlers ?s1)(0 := close_wait (cl_handlers ?s1 0))\<rparr>"
  have n: "adm_ok (sample_handler, [])" using sample_new by (intro adm_initial_ok) (auto simp: adm_initial_def)
  then have f: "h_admissions sample_handler = 0" "\<not> h_closeDone sample_handler"
    by (auto simp: adm_ok_def sample_handler_fields)
  have "cluster_reach sample_env ?s1" by (rule reach_step [OF sample_cluster_reach cs_begin_close])
  then have r: "cluster_reach sample_env ?s2"
    by (rule reach_step, intro cs_wait_over) (auto simp: sample_cluster_def beginClose_def f)
  have "h_closeDone (cl_handlers ?s2 0)" "\<not> h_closeDone (cl_handlers ?s2 1)"
    by (simp_all add: sample_cluster_def beginClose_def close_wait_def f)
  with r closed_replica_is_quiescent [OF r, of 0] show ?thesis by blast
qed

end
