(* ===== verification/Client_Errors.thy ===== *)
theory Client_Errors
  imports Go_Strings
begin

text \<open>
  The error surface of the client (\<open>internal/client/transport/errors.go\<close>): sentinels, HTTP and
  transport errors, their classification through \<open>errors.Is\<close>, machine-readable codes and the
  redaction of response bodies. A Go error value is a tree; \<open>errors.Is\<close> and \<open>errors.AsType\<close> walk it.
  The text of wrapping errors is kept only as a label.
\<close>

section \<open>Error values\<close>

datatype sentinel =
    ErrRetryable | ErrPermanent | ErrAuthFailed | ErrRateLimited | ErrTransport | ErrH3EgressDenied | ErrNotSent
  | ErrResponseTooLarge | ErrResponseDrainTimeout | errUnexpectedResponseBytes | errHTTP1ProbeOnly
  | ContextCanceled | ContextDeadlineExceeded

record HTTPError =
  he_StatusCode :: int
  he_URL :: string
  he_RetryAfter :: duration
  he_Body :: string
  he_code :: string

text \<open>
  \<open>Sentinel\<close> is one of the variables above, \<open>Opaque\<close> any other leaf error, \<open>WrapErr\<close> the result of
  \<open>fmt.Errorf\<close> with its \<open>%w\<close> operands or of \<open>errors.Join\<close>.
\<close>

datatype go_error =
    Sentinel sentinel
  | Opaque string
  | WrapErr string "go_error list"
  | HTTPErr HTTPError
  | TransportError (te_Op: string) (te_URL: string) (te_Err: go_error) (te_Idempotent: bool)
  | stopReplyRetryError go_error

definition httpStatusUnauthorized :: int where "httpStatusUnauthorized = 401"
definition httpStatusForbidden :: int where "httpStatusForbidden = 403"
definition httpStatusConflict :: int where "httpStatusConflict = 409"
definition httpStatusTooManyRequests :: int where "httpStatusTooManyRequests = 429"

definition authEpochMismatchCode :: string where "authEpochMismatchCode = ''AUTH_EPOCH_MISMATCH''"

lemmas http_status_defs = httpStatusUnauthorized_def httpStatusForbidden_def httpStatusConflict_def
  httpStatusTooManyRequests_def

definition HTTPError_Is :: "HTTPError \<Rightarrow> sentinel \<Rightarrow> bool" where
  "HTTPError_Is e target =
     (if he_StatusCode e = httpStatusUnauthorized \<and> he_code e = authEpochMismatchCode then
        target = ErrRetryable \<or> target = ErrNotSent
      else case target of
        ErrRetryable \<Rightarrow> he_StatusCode e \<ge> 500 \<or> he_StatusCode e = httpStatusTooManyRequests
      | ErrPermanent \<Rightarrow> he_StatusCode e \<ge> 400 \<and> he_StatusCode e < 500 \<and> he_StatusCode e \<noteq> httpStatusTooManyRequests
      | ErrAuthFailed \<Rightarrow> he_StatusCode e = httpStatusUnauthorized \<or> he_StatusCode e = httpStatusForbidden
      | ErrRateLimited \<Rightarrow> he_StatusCode e = httpStatusTooManyRequests
      | _ \<Rightarrow> False)"

text \<open>
  \<open>TransportError.Is\<close> given what \<open>errors.Is\<close> says of the wrapped error, then \<open>errors.Is\<close> itself: the
  value, its \<open>Is\<close> method, then what it unwraps to.
\<close>

definition TransportError_Is :: "bool \<Rightarrow> bool \<Rightarrow> bool \<Rightarrow> bool \<Rightarrow> sentinel \<Rightarrow> bool" where
  "TransportError_Is notSent egressDenied tooLarge idempotent target =
     (case target of
        ErrTransport \<Rightarrow> \<not> notSent
      | ErrRetryable \<Rightarrow> (notSent \<or> idempotent) \<and> \<not> egressDenied \<and> \<not> tooLarge
      | _ \<Rightarrow> False)"

fun errors_Is :: "go_error \<Rightarrow> sentinel \<Rightarrow> bool" where
  "errors_Is (Sentinel s) target \<longleftrightarrow> s = target"
| "errors_Is (Opaque _) target \<longleftrightarrow> False"
| "errors_Is (WrapErr _ es) target \<longleftrightarrow> (\<exists>e \<in> set es. errors_Is e target)"
| "errors_Is (HTTPErr e) target \<longleftrightarrow> HTTPError_Is e target"
| "errors_Is (TransportError _ _ e idempotent) target \<longleftrightarrow>
     TransportError_Is (errors_Is e ErrNotSent) (errors_Is e ErrH3EgressDenied) (errors_Is e ErrResponseTooLarge)
       idempotent target \<or> errors_Is e target"
| "errors_Is (stopReplyRetryError e) target \<longleftrightarrow> errors_Is e target"

text \<open>\<open>errors.AsType[*HTTPError]\<close>: the first in depth-first order.\<close>

fun first_some :: "'a option list \<Rightarrow> 'a option" where
  "first_some [] = None"
| "first_some (None # xs) = first_some xs"
| "first_some (Some x # xs) = Some x"

fun as_HTTPError :: "go_error \<Rightarrow> HTTPError option" where
  "as_HTTPError (Sentinel _) = None"
| "as_HTTPError (Opaque _) = None"
| "as_HTTPError (WrapErr _ es) = first_some (map as_HTTPError es)"
| "as_HTTPError (HTTPErr e) = Some e"
| "as_HTTPError (TransportError _ _ e _) = as_HTTPError e"
| "as_HTTPError (stopReplyRetryError e) = as_HTTPError e"

fun is_stop :: "go_error \<Rightarrow> bool" where
  "is_stop (Sentinel _) \<longleftrightarrow> False"
| "is_stop (Opaque _) \<longleftrightarrow> False"
| "is_stop (WrapErr _ es) \<longleftrightarrow> (\<exists>e \<in> set es. is_stop e)"
| "is_stop (HTTPErr _) \<longleftrightarrow> False"
| "is_stop (TransportError _ _ e _) \<longleftrightarrow> is_stop e"
| "is_stop (stopReplyRetryError _) \<longleftrightarrow> True"

section \<open>Machine-readable codes\<close>

definition HTTPErrorCodeClientRequestIDPayloadMismatch :: string where
  "HTTPErrorCodeClientRequestIDPayloadMismatch = ''CLIENT_REQUEST_ID_PAYLOAD_MISMATCH''"
definition HTTPErrorCodeClientRequestIDFailed :: string where
  "HTTPErrorCodeClientRequestIDFailed = ''CLIENT_REQUEST_ID_FAILED''"
definition HTTPErrorCodeClientRequestIDOutcomeUnknown :: string where
  "HTTPErrorCodeClientRequestIDOutcomeUnknown = ''CLIENT_REQUEST_ID_OUTCOME_UNKNOWN''"
definition HTTPErrorCodeClientRequestIDAlreadyExists :: string where
  "HTTPErrorCodeClientRequestIDAlreadyExists = ''CLIENT_REQUEST_ID_ALREADY_EXISTS''"

definition client_request_id_codes :: "string list" where
  "client_request_id_codes =
     [HTTPErrorCodeClientRequestIDPayloadMismatch, HTTPErrorCodeClientRequestIDFailed,
      HTTPErrorCodeClientRequestIDOutcomeUnknown, HTTPErrorCodeClientRequestIDAlreadyExists]"

definition HTTPErrorCode :: "go_error \<Rightarrow> string" where
  "HTTPErrorCode err = (case as_HTTPError err of Some e \<Rightarrow> he_code e | None \<Rightarrow> [])"

definition ClientRequestIDConflictCode :: "go_error \<Rightarrow> string" where
  "ClientRequestIDConflictCode err =
     (case as_HTTPError err of
        None \<Rightarrow> []
      | Some e \<Rightarrow>
          if he_StatusCode e \<noteq> httpStatusConflict then []
          else if HTTPErrorCode err \<in> set client_request_id_codes then HTTPErrorCode err else [])"

definition httpErrorCodeMaxLen :: nat where "httpErrorCodeMaxLen = 128"
definition httpErrorBodyMaxLen :: nat where "httpErrorBodyMaxLen = 512"
definition httpErrorBodyParseMaxLen :: nat where "httpErrorBodyParseMaxLen = 65536"

definition code_byte :: "char \<Rightarrow> bool" where
  "code_byte c \<longleftrightarrow> is_alnum c \<or> c = CHR ''_'' \<or> c = CHR ''-'' \<or> c = CHR ''.''"

text \<open>The decoder of the \<open>code\<close> member is an argument; \<open>None\<close> is a decoding error.\<close>

definition parseHTTPErrorCode :: "(string \<Rightarrow> string option) \<Rightarrow> string \<Rightarrow> string" where
  "parseHTTPErrorCode unmarshal body =
     (case unmarshal body of
        None \<Rightarrow> []
      | Some raw \<Rightarrow>
          let code = trim_space raw in
          if code = authEpochMismatchCode \<and> code \<noteq> raw then []
          else if code = [] \<or> httpErrorCodeMaxLen < length code then []
          else if \<not> list_all code_byte code then []
          else code)"

section \<open>Redaction\<close>

text \<open>\<open>strings.Index(s, p)\<close> and \<open>strings.IndexFunc(s, f)\<close>; \<open>None\<close> for -1.\<close>

fun index_sub :: "string \<Rightarrow> string \<Rightarrow> nat option" where
  "index_sub p [] = (if p = [] then Some 0 else None)"
| "index_sub p (c # s) = (if prefix p (c # s) then Some 0 else map_option Suc (index_sub p s))"

fun index_rune :: "(nat \<Rightarrow> bool) \<Rightarrow> nat \<Rightarrow> (nat \<times> nat) list \<Rightarrow> nat option" where
  "index_rune f off [] = None"
| "index_rune f off ((r, w) # rs) = (if f r then Some off else index_rune f (off + w) rs)"

definition index_func :: "(nat \<Rightarrow> bool) \<Rightarrow> string \<Rightarrow> nat option" where
  "index_func f s = index_rune f 0 (runes s)"

definition value_end :: "bool \<Rightarrow> nat \<Rightarrow> bool" where
  "value_end redactLine r =
     (if redactLine then r = 13 \<or> r = 10
      else is_space_rune r \<or> r = 44 \<or> r = 59 \<or> r = 34 \<or> r = 39)"

text \<open>
  The loop of \<open>redactPrefix\<close>: the indices are found in the lower-cased string and used on the
  string itself. \<open>None\<close> is the run-time panic of a slice bound past the end. The prefixes the
  program passes are not empty; with an empty one the loop would not advance.
\<close>

definition redact_step :: "ucase \<Rightarrow> string \<Rightarrow> bool \<Rightarrow> string \<Rightarrow> nat \<Rightarrow> (string option, string \<times> nat) result" where
  "redact_step uc p redactLine s searchFrom =
     (case index_sub p (drop searchFrom (to_lower uc s)) of
        None \<Rightarrow> Inl (Some s)
      | Some idx \<Rightarrow>
          let restStart = idx + searchFrom + length p in
          if length s < restStart then Inl None
          else (case index_func (\<lambda>r. \<not> is_space_rune r) (drop restStart s) of
            None \<Rightarrow> Inl (Some s)
          | Some v \<Rightarrow>
              let valueStart = v + restStart;
                  valueEnd = (case index_func (value_end redactLine) (drop valueStart s) of
                      None \<Rightarrow> length s | Some e \<Rightarrow> e + valueStart);
                  s' = take valueStart s @ ''***'' @ drop valueEnd s
              in Inr (s', min (valueStart + 3) (length (to_lower uc s')))))"

lemma index_rune_bound:
  "index_rune f off rs = Some i \<Longrightarrow> off \<le> i \<and> i < off + sum_list (map snd rs) + (if list_all (\<lambda>rw. 0 < snd rw) rs then 0 else 1)"
  by (induction f off rs rule: index_rune.induct) (auto split: if_splits)

lemma runes_width: "sum_list (map snd (runes s)) = length s \<and> list_all (\<lambda>rw. 0 < snd rw) (runes s)"
proof (induction s rule: runes.induct)
  case (1 s)
  show ?case
  proof (cases "s = []")
    case False
    with 1 decode_rune_width [OF False] show ?thesis by (simp add: runes.simps [of s])
  qed simp
qed

lemma index_func_bound: "index_func f s = Some i \<Longrightarrow> i < length s"
  using index_rune_bound [of f 0 "runes s" i] runes_width [of s] by (auto simp: index_func_def)

lemma index_sub_bound: "index_sub p s = Some i \<Longrightarrow> i + length p \<le> length s"
  by (induction p s arbitrary: i rule: index_sub.induct) (auto split: if_splits dest: prefix_length_le)

definition redact_measure :: "ucase \<Rightarrow> string \<Rightarrow> nat \<Rightarrow> nat" where
  "redact_measure uc s searchFrom = (if length (to_lower uc s) \<le> searchFrom then 0 else Suc (length s - searchFrom))"

lemma redact_step_decreases:
  assumes "p \<noteq> []" and "redact_step uc p redactLine s searchFrom = Inr (s', searchFrom')"
  shows "redact_measure uc s' searchFrom' < redact_measure uc s searchFrom"
proof -
  obtain idx where idx: "index_sub p (drop searchFrom (to_lower uc s)) = Some idx"
    and rs: "idx + searchFrom + length p \<le> length s"
    using assms(2) by (auto simp: redact_step_def Let_def split: option.splits if_splits)
  obtain v where v: "index_func (\<lambda>r. \<not> is_space_rune r) (drop (idx + searchFrom + length p) s) = Some v"
    using assms(2) idx rs by (auto simp: redact_step_def Let_def split: option.splits if_splits)
  define vs where "vs = v + (idx + searchFrom + length p)"
  define ve where "ve = (case index_func (value_end redactLine) (drop vs s) of None \<Rightarrow> length s | Some e \<Rightarrow> e + vs)"
  have s': "s' = take vs s @ ''***'' @ drop ve s" and sf: "searchFrom' = min (vs + 3) (length (to_lower uc s'))"
    unfolding ve_def vs_def using assms(2) idx rs v by (auto simp: redact_step_def Let_def not_less [symmetric])
  have vsl: "vs < length s" using index_func_bound [OF v] rs by (simp add: vs_def)
  have vse: "vs \<le> ve" using vsl by (auto simp: ve_def split: option.splits)
  have pos: "0 < length p" using assms(1) by simp
  have sf0: "searchFrom < length (to_lower uc s)" "searchFrom < vs"
    using index_sub_bound [OF idx] pos unfolding vs_def length_drop by linarith+
  have "length s' - (vs + 3) \<le> length s - vs" using vsl vse by (simp add: s')
  then show ?thesis
    using sf0 vsl by (auto simp: redact_measure_def sf)
qed

function redact_loop :: "ucase \<Rightarrow> string \<Rightarrow> bool \<Rightarrow> string \<Rightarrow> nat \<Rightarrow> string option" where
  "redact_loop uc p redactLine s searchFrom =
     (if p = [] then Some s
      else case redact_step uc p redactLine s searchFrom of
        Inl r \<Rightarrow> r
      | Inr (s', searchFrom') \<Rightarrow> redact_loop uc p redactLine s' searchFrom')"
  by pat_completeness auto
termination
  by (relation "measure (\<lambda>(uc, p, redactLine, s, searchFrom). redact_measure uc s searchFrom)")
    (auto dest: redact_step_decreases)

declare redact_loop.simps [simp del]

definition redactPrefix :: "ucase \<Rightarrow> string \<Rightarrow> string \<Rightarrow> bool \<Rightarrow> string option" where
  "redactPrefix uc s p redactLine = redact_loop uc p redactLine s 0"

definition redact_prefixes :: "(string \<times> bool) list" where
  "redact_prefixes =
     [(''authorization:'', True), (''x-iris-secret:'', True), (''x-iris-token:'', True), (''x-api-key:'', True),
      (''cookie:'', True), (''set-cookie:'', True), (''bearer '', False), (''signature='', False)]"

definition redactSensitiveTokens :: "ucase \<Rightarrow> string \<Rightarrow> string option" where
  "redactSensitiveTokens uc s =
     fold (\<lambda>(p, redactLine) acc. case acc of None \<Rightarrow> None | Some t \<Rightarrow> redactPrefix uc t p redactLine)
       redact_prefixes (Some s)"

definition truncateErrorBody :: "ucase \<Rightarrow> bytes \<Rightarrow> string option" where
  "truncateErrorBody uc payload =
     map_option trim_space (redactSensitiveTokens uc (if httpErrorBodyMaxLen < length payload then take httpErrorBodyMaxLen payload else payload))"

section \<open>Texts\<close>

text \<open>\<open>HTTPError.Error\<close> and \<open>HTTPError.LogValue\<close> redact the body once more; \<open>None\<close> is the panic of the redaction.\<close>

definition HTTPError_Error :: "ucase \<Rightarrow> HTTPError \<Rightarrow> string option" where
  "HTTPError_Error uc e =
     (let target = trim_space (he_URL e); shown = (if target = [] then ''request'' else target) in
      map_option (\<lambda>body. ''iris '' @ shown @ '' returned '' @ format_int (he_StatusCode e) @ (if body \<noteq> [] then '': '' @ body else []))
        (redactSensitiveTokens uc (he_Body e)))"

datatype log_value = LogInt int | LogString string

definition HTTPError_LogValue :: "ucase \<Rightarrow> HTTPError \<Rightarrow> (string \<times> log_value) list option" where
  "HTTPError_LogValue uc e =
     map_option (\<lambda>body. [(''StatusCode'', LogInt (he_StatusCode e)), (''URL'', LogString (he_URL e)),
         (''Code'', LogString (he_code e)), (''Body'', LogString body)])
       (redactSensitiveTokens uc (he_Body e))"

section \<open>Laws of classification\<close>

lemma TransportError_transport:
  "errors_Is (TransportError op u e idem) ErrTransport \<longleftrightarrow> \<not> errors_Is e ErrNotSent \<or> errors_Is e ErrTransport"
  by (simp add: TransportError_Is_def)

lemma TransportError_other:
  "target \<noteq> ErrTransport \<Longrightarrow> target \<noteq> ErrRetryable \<Longrightarrow>
     errors_Is (TransportError op u e idem) target \<longleftrightarrow> errors_Is e target"
  by (cases target) (simp_all add: TransportError_Is_def)

text \<open>An error is decided when it does not claim at once that nothing was sent and that the outcome is unknown.\<close>

definition decided :: "go_error \<Rightarrow> bool" where
  "decided e \<longleftrightarrow> \<not> (errors_Is e ErrTransport \<and> errors_Is e ErrNotSent)"

lemma decided_transport: "decided e \<Longrightarrow> decided (TransportError op u e idem)"
  by (auto simp: decided_def TransportError_Is_def)

lemma decided_http: "decided (HTTPErr e)"
  by (simp add: decided_def HTTPError_Is_def)

section \<open>Claims\<close>

text \<open>
  Every HTTP error status from 400 on is classified as retryable or permanent and never both;
  it is never reported as an unknown outcome; and only a 401 that carries the epoch mismatch code
  is reported as not sent, in which case it is retryable and not an authentication failure.
\<close>

theorem http_error_classes:
  assumes "400 \<le> he_StatusCode e"
  shows "(errors_Is (HTTPErr e) ErrRetryable \<longleftrightarrow> \<not> errors_Is (HTTPErr e) ErrPermanent) \<and>
    \<not> errors_Is (HTTPErr e) ErrTransport \<and>
    (errors_Is (HTTPErr e) ErrNotSent \<longleftrightarrow> he_StatusCode e = 401 \<and> he_code e = ''AUTH_EPOCH_MISMATCH'') \<and>
    (errors_Is (HTTPErr e) ErrNotSent \<longrightarrow> errors_Is (HTTPErr e) ErrRetryable \<and> \<not> errors_Is (HTTPErr e) ErrAuthFailed) \<and>
    (errors_Is (HTTPErr e) ErrRateLimited \<longleftrightarrow> he_StatusCode e = 429)"
  using assms by (auto simp: HTTPError_Is_def http_status_defs authEpochMismatchCode_def)


text \<open>
  A code taken from an error body is empty or a token of 1 to 128 letters, digits, underscores,
  hyphens and dots; the epoch mismatch code is only ever reported when the body carried it without
  surrounding space.
\<close>

theorem parsed_code_token:
  "parseHTTPErrorCode unmarshal body = [] \<or>
   (length (parseHTTPErrorCode unmarshal body) \<le> 128 \<and> list_all code_byte (parseHTTPErrorCode unmarshal body) \<and>
    (parseHTTPErrorCode unmarshal body = authEpochMismatchCode \<longrightarrow> unmarshal body = Some authEpochMismatchCode))"
  by (auto simp: parseHTTPErrorCode_def httpErrorCodeMaxLen_def Let_def split: option.splits)


section \<open>Redaction and panics\<close>

lemma redact_step_ascii:
  assumes "list_all is_ascii s"
  shows "p \<noteq> [] \<Longrightarrow> redact_step uc p redactLine s k \<noteq> Inl None"
    and "redact_step uc p redactLine s k = Inl (Some t) \<Longrightarrow> t = s"
    and "redact_step uc p redactLine s k = Inr (s', k') \<Longrightarrow> list_all is_ascii s'"
proof -
  have len: "length (to_lower uc s) = length s" using assms by (simp add: to_lower_ascii)
  have "index_sub p (drop k (to_lower uc s)) = Some idx \<Longrightarrow> idx + k + length p \<le> length s \<or> k > length s" for idx
    using index_sub_bound [of p "drop k (to_lower uc s)" idx] by (auto simp: len)
  moreover have "k > length s \<Longrightarrow> index_sub p (drop k (to_lower uc s)) = Some idx \<Longrightarrow> p = [] \<and> idx = 0" for idx
    by (auto simp: len split: if_splits)
  ultimately show "p \<noteq> [] \<Longrightarrow> redact_step uc p redactLine s k \<noteq> Inl None"
    by (fastforce simp: redact_step_def Let_def split: option.splits)
  show "redact_step uc p redactLine s k = Inl (Some t) \<Longrightarrow> t = s"
    by (auto simp: redact_step_def Let_def split: option.splits if_splits)
  show "redact_step uc p redactLine s k = Inr (s', k') \<Longrightarrow> list_all is_ascii s'"
    using assms by (auto simp: redact_step_def Let_def list_all_iff is_ascii_def split: option.splits if_splits
        dest!: in_set_takeD in_set_dropD)
qed

lemma redact_loop_ascii:
  "list_all is_ascii s \<Longrightarrow> \<exists>t. redact_loop uc p redactLine s k = Some t \<and> list_all is_ascii t"
proof (induction uc p redactLine s k rule: redact_loop.induct)
  case (1 uc p redactLine s k)
  note asc = redact_step_ascii [OF 1(2), where p = p and uc = uc and redactLine = redactLine and k = k]
  show ?case
  proof (cases "p = []")
    case True
    then show ?thesis using 1(2) by (simp add: redact_loop.simps)
  next
    case False
    show ?thesis
    proof (cases "redact_step uc p redactLine s k")
      case (Inl r)
      then show ?thesis using asc False 1(2) by (cases r) (auto simp: redact_loop.simps [of uc p _ s])
    next
      case (Inr sk)
      then obtain s' k' where sk: "redact_step uc p redactLine s k = Inr (s', k')" by (cases sk) auto
      from 1(1) [OF False sk refl asc(3) [OF sk]] sk False show ?thesis
        by (simp add: redact_loop.simps [of uc p _ s])
    qed
  qed
qed

lemma redactSensitiveTokens_ascii:
  assumes "list_all is_ascii s"
  shows "\<exists>t. redactSensitiveTokens uc s = Some t"
proof -
  have "\<exists>t. fold (\<lambda>(p, redactLine) acc. case acc of None \<Rightarrow> None | Some t \<Rightarrow> redactPrefix uc t p redactLine) ps (Some u)
      = Some t" if "list_all is_ascii u" for ps u
    using that
  proof (induction ps arbitrary: u)
    case (Cons q ps)
    obtain p l where q: "q = (p, l)" by fastforce
    obtain t where "redactPrefix uc u p l = Some t" "list_all is_ascii t"
      using redact_loop_ascii [OF Cons.prems, of uc p l 0] by (auto simp: redactPrefix_def)
    with Cons.IH q show ?case by simp
  qed simp
  from this [OF assms] show ?thesis by (simp add: redactSensitiveTokens_def)
qed

lemma error_texts_total:
  "list_all is_ascii (he_Body e) \<Longrightarrow> HTTPError_Error uc e \<noteq> None \<and> HTTPError_LogValue uc e \<noteq> None"
  using redactSensitiveTokens_ascii [of "he_Body e" uc] by (auto simp: HTTPError_Error_def HTTPError_LogValue_def Let_def)

lemma redact_empty: "p \<noteq> [] \<Longrightarrow> redactPrefix uc [] p line = Some []"
  by (cases p) (simp_all add: redactPrefix_def redact_loop.simps redact_step_def)

lemma redactSensitiveTokens_empty: "redactSensitiveTokens uc [] = Some []"
  by (simp add: redactSensitiveTokens_def redact_prefixes_def redact_empty)

text \<open>
  C25: redacting the body of an error response never fails on ASCII bodies, of whatever length; but
  it is not total: the loop takes positions in the lower-cased copy for positions in the body, and
  a byte that is not UTF-8 is three bytes longer there, so the eight bits 255 in front of a header
  name make the slice expression run past the end and the client panic.
\<close>

theorem redaction_panics_off_ascii:
  "(\<forall>body. list_all is_ascii body \<longrightarrow> truncateErrorBody uc body \<noteq> None) \<and>
   truncateErrorBody uc (CHR 0xFF # ''authorization:'') = None"
proof
  show "\<forall>body. list_all is_ascii body \<longrightarrow> truncateErrorBody uc body \<noteq> None"
    using redactSensitiveTokens_ascii by (force simp: truncateErrorBody_def list_all_iff dest: in_set_takeD)
  have asc: "list_all is_ascii ''authorization:''" by (simp add: is_ascii_def)
  have "runes (CHR 0xFF # ''authorization:'') = (rune_error, 1) # runes ''authorization:''"
    by (simp add: runes.simps [of "CHR 0xFF # _"] decode_rune_def)
  moreover have "\<not> list_all is_ascii (CHR 0xFF # ''authorization:'')" by (simp add: is_ascii_def)
  ultimately have low: "to_lower uc (CHR 0xFF # ''authorization:'') = [CHR 0xEF, CHR 0xBF, CHR 0xBD] @ ''authorization:''"
    by (simp add: to_lower_def runes_ascii [OF asc] rune_error_def encode_rune_def ascii_lower_def is_upper_def
        less_eq_char_def char_of_nat_eq)
  have "redact_step uc ''authorization:'' True (CHR 0xFF # ''authorization:'') 0 = Inl None"
    unfolding redact_step_def low by simp
  then have "redactPrefix uc (CHR 0xFF # ''authorization:'') ''authorization:'' True = None"
    by (simp add: redactPrefix_def redact_loop.simps)
  then show "truncateErrorBody uc (CHR 0xFF # ''authorization:'') = None"
    by (simp add: truncateErrorBody_def httpErrorBodyMaxLen_def redactSensitiveTokens_def redact_prefixes_def)
qed

theorem redaction_panics_off_ascii_witness:
  "list_all is_ascii ''bearer x'' \<and> truncateErrorBody ascii_case ''bearer x'' \<noteq> None"
  using redaction_panics_off_ascii [of ascii_case] by (simp add: is_ascii_def)

end
