(* ===== verification/Client_Retry.thy ===== *)
theory Client_Retry
  imports Client_Errors
begin

text \<open>
  Retrying of reply requests (\<open>internal/client/transport/retry.go\<close>, \<open>retry_after.go\<close>). The attempts
  of a logical call are arguments: what building and sending the n-th request return, what the
  context says when the wait after it ends, and the random part of the jitter. The lemmas show the
  bounds on attempts and delays, which errors are resent, and that an attempt whose outcome is
  unknown is never reported as anything but unknown unless the server itself decided it.
\<close>

section \<open>Delays\<close>

definition maxReplyRetryAfterDelay :: duration where "maxReplyRetryAfterDelay = 5 * Second"
definition maxRetryAfterDuration :: duration where "maxRetryAfterDuration = max_int64"

text \<open>\<open>jit n\<close> is \<open>time.Duration(halfJitterFloat64()*float64(n))\<close> for a random number in [0, 1).\<close>

definition halfJitter :: "(duration \<Rightarrow> duration) \<Rightarrow> duration \<Rightarrow> duration" where
  "halfJitter jit base = (if base \<le> 0 then base else let half = base div 2 in half + jit (base - half))"

definition isDecimalDigits :: "string \<Rightarrow> bool" where
  "isDecimalDigits v \<longleftrightarrow> v \<noteq> [] \<and> list_all (\<lambda>rw. 48 \<le> fst rw \<and> fst rw \<le> 57) (runes v)"

text \<open>\<open>Time.Sub\<close> saturates at the ends of the 64-bit range.\<close>

definition time_Sub :: "instant \<Rightarrow> instant \<Rightarrow> duration" where
  "time_Sub t u = max min_int64 (min max_int64 (t - u))"

text \<open>\<open>parse_time\<close> is \<open>http.ParseTime\<close>.\<close>

definition parseRetryAfterHeader :: "(string \<Rightarrow> instant option) \<Rightarrow> string \<Rightarrow> instant \<Rightarrow> duration" where
  "parseRetryAfterHeader parse_time raw now =
     (let v = trim_space raw in
      if v = [] then 0
      else case parse_int64 v of
        Some seconds \<Rightarrow>
          if seconds \<le> 0 then 0
          else if maxRetryAfterDuration div Second < seconds then maxRetryAfterDuration
          else seconds * Second
      | None \<Rightarrow>
          if isDecimalDigits v then maxRetryAfterDuration
          else (case parse_time v of
             None \<Rightarrow> 0
           | Some at \<Rightarrow> let delay = time_Sub at now in if delay \<le> 0 then 0 else delay))"

definition clampDuration :: "duration \<Rightarrow> duration \<Rightarrow> duration \<Rightarrow> duration" where
  "clampDuration v minValue maxValue = min (max v minValue) maxValue"

definition retryDelayAndRetryAfter :: "(duration \<Rightarrow> duration) \<Rightarrow> go_error \<Rightarrow> duration \<Rightarrow> duration \<times> bool" where
  "retryDelayAndRetryAfter jit err fallback =
     (case as_HTTPError err of
        Some e \<Rightarrow>
          if 0 < he_RetryAfter e then (clampDuration (he_RetryAfter e) fallback maxReplyRetryAfterDelay, True)
          else (halfJitter jit fallback, False)
      | None \<Rightarrow> (halfJitter jit fallback, False))"

section \<open>What is resent\<close>

definition isRetryableError :: "go_error \<Rightarrow> bool" where
  "isRetryableError err \<longleftrightarrow> errors_Is err ErrRateLimited"

definition isRetryableTransportError :: "go_error \<Rightarrow> bool" where
  "isRetryableTransportError err \<longleftrightarrow>
     (errors_Is err ErrTransport \<or> errors_Is err ErrNotSent) \<and>
     \<not> errors_Is err ErrH3EgressDenied \<and> \<not> errors_Is err ErrResponseTooLarge"

definition isRetryableReplyError :: "go_error \<Rightarrow> bool \<Rightarrow> bool" where
  "isRetryableReplyError err hasIdempotencyKey =
     (if is_stop err then False
      else \<not> errors_Is err ErrResponseTooLarge \<and>
        (isRetryableError err \<or> hasIdempotencyKey \<and> isRetryableTransportError err))"

section \<open>Unknown outcomes\<close>

definition retryWaitError :: "go_error \<Rightarrow> go_error option \<Rightarrow> string \<Rightarrow> bool \<Rightarrow> go_error" where
  "retryWaitError waitErr unknownErr path idempotent =
     (case unknownErr of
        None \<Rightarrow> waitErr
      | Some u \<Rightarrow>
          TransportError ''retry wait'' path (WrapErr ''outcome-unknown attempt'' [waitErr, u]) idempotent)"

definition keepUnknownOutcome :: "go_error \<Rightarrow> go_error option \<Rightarrow> string \<Rightarrow> bool \<Rightarrow> go_error" where
  "keepUnknownOutcome finalErr unknownErr path idempotent =
     (case unknownErr of
        None \<Rightarrow> finalErr
      | Some u \<Rightarrow>
          if errors_Is finalErr ErrTransport \<or> ClientRequestIDConflictCode finalErr \<noteq> [] then finalErr
          else TransportError ''retry outcome unknown'' path (WrapErr ''final attempt'' [u]) idempotent)"

section \<open>The loop\<close>

definition PathReply :: string where "PathReply = ''/reply''"

text \<open>
  What the n-th attempt does on the state the attempts share (the flag \<open>*epochRefreshed\<close>, the cache
  of the client, the result of the call): building a request, sending it; and what it meets:
  \<open>wait n\<close> is the context's error at the end of the wait after attempt n, \<open>jitter n\<close> the random part.
\<close>

record ('q, 's) attempts =
  build :: "nat \<Rightarrow> 's \<Rightarrow> (go_error, 'q) result \<times> 's"
  send :: "nat \<Rightarrow> 'q \<Rightarrow> 's \<Rightarrow> go_error option \<times> 's"
  wait :: "nat \<Rightarrow> go_error option"
  jitter :: "nat \<Rightarrow> duration \<Rightarrow> duration"

datatype retry_event =
    Sent nat "go_error option"
  | ObserveReplyRetry nat duration bool

text \<open>
  One round of the loop of \<open>retryPost\<close> and the rest: \<open>left\<close> is \<open>maxAttempts - attempt\<close>, so the test
  \<open>attempt == maxAttempts\<close> is \<open>left = 0\<close>.
\<close>

fun retry_loop ::
  "('q, 's) attempts \<Rightarrow> string \<Rightarrow> bool \<Rightarrow> nat \<Rightarrow> nat \<Rightarrow> duration \<Rightarrow> go_error option \<Rightarrow> 's
     \<Rightarrow> go_error option \<times> retry_event list \<times> 's" where
  "retry_loop env path key left attempt backoff unknownErr s =
     (case build env attempt s of
        (Inl err, s1) \<Rightarrow> (Some (keepUnknownOutcome err unknownErr path key), [], s1)
      | (Inr req, s1) \<Rightarrow>
          (case send env attempt req s1 of
             (None, s2) \<Rightarrow> (None, [Sent attempt None], s2)
           | (Some err, s2) \<Rightarrow>
               let unknownErr' = (if errors_Is err ErrTransport then Some err else unknownErr) in
               if \<not> isRetryableReplyError err key
               then (Some (keepUnknownOutcome err unknownErr' path key), [Sent attempt (Some err)], s2)
               else (case left of
                   0 \<Rightarrow> (Some (keepUnknownOutcome err unknownErr' path key), [Sent attempt (Some err)], s2)
                 | Suc left' \<Rightarrow>
                     (case retryDelayAndRetryAfter (jitter env attempt) err backoff of (delay, applied) \<Rightarrow>
                        case wait env attempt of
                          Some ctxErr \<Rightarrow>
                            (Some (retryWaitError ctxErr unknownErr' path key),
                             [Sent attempt (Some err), ObserveReplyRetry attempt delay applied], s2)
                        | None \<Rightarrow>
                            (case retry_loop env path key left' (Suc attempt) (min (backoff * 2) Second) unknownErr' s2 of
                               (r, evs, s3) \<Rightarrow> (r, Sent attempt (Some err) # ObserveReplyRetry attempt delay applied # evs, s3))))))"

declare retry_loop.simps [simp del]

definition max_attempts :: "int \<Rightarrow> string \<Rightarrow> nat" where
  "max_attempts ReplyRetryMax path = (if 0 < ReplyRetryMax \<and> path = PathReply then nat ReplyRetryMax else 1)"

definition retryPost ::
  "('q, 's) attempts \<Rightarrow> int \<Rightarrow> string \<Rightarrow> bool \<Rightarrow> 's \<Rightarrow> go_error option \<times> retry_event list \<times> 's" where
  "retryPost env ReplyRetryMax path key s =
     retry_loop env path key (max_attempts ReplyRetryMax path - 1) 1 (50 * Millisecond) None s"

abbreviation retry_events :: "go_error option \<times> retry_event list \<times> 's \<Rightarrow> retry_event list" where
  "retry_events r \<equiv> fst (snd r)"

section \<open>Proof rule\<close>

text \<open>The loop by cases: it stops after building, succeeds, stops after sending or while waiting, or goes on.\<close>

lemma retry_loop_cases:
  assumes "retry_loop env path key left attempt backoff unknownErr s = (r, evs, s')"
  obtains
    (unbuilt) e where "build env attempt s = (Inl e, s')" "r = Some (keepUnknownOutcome e unknownErr path key)" "evs = []"
  | (success) req s1 where "build env attempt s = (Inr req, s1)" "send env attempt req s1 = (None, s')"
      "r = None" "evs = [Sent attempt None]"
  | (final) req s1 e u where "build env attempt s = (Inr req, s1)" "u = (if errors_Is e ErrTransport then Some e else unknownErr)"
      "send env attempt req s1 = (Some e, s')"
      "r = Some (keepUnknownOutcome e u path key)" "evs = [Sent attempt (Some e)]"
  | (interrupted) req s1 e u c d a where "build env attempt s = (Inr req, s1)"
      "u = (if errors_Is e ErrTransport then Some e else unknownErr)" "send env attempt req s1 = (Some e, s')"
      "wait env attempt = Some c"
      "left \<noteq> 0" "isRetryableReplyError e key" "retryDelayAndRetryAfter (jitter env attempt) e backoff = (d, a)"
      "r = Some (retryWaitError c u path key)" "evs = [Sent attempt (Some e), ObserveReplyRetry attempt d a]"
  | (again) req s1 e u s2 left' d a evs' where "build env attempt s = (Inr req, s1)"
      "u = (if errors_Is e ErrTransport then Some e else unknownErr)" "left = Suc left'"
      "send env attempt req s1 = (Some e, s2)" "isRetryableReplyError e key"
      "retryDelayAndRetryAfter (jitter env attempt) e backoff = (d, a)"
      "retry_loop env path key left' (Suc attempt) (min (backoff * 2) Second) u s2 = (r, evs', s')"
      "evs = Sent attempt (Some e) # ObserveReplyRetry attempt d a # evs'"
proof -
  obtain b s1 where built: "build env attempt s = (b, s1)" by fastforce
  show thesis
  proof (cases b)
    case (Inl e)
    with assms built show thesis by (intro unbuilt [of e]) (simp_all add: retry_loop.simps)
  next
    case (Inr req)
    obtain err s2 where sent: "send env attempt req s1 = (err, s2)" by fastforce
    note loop = assms [unfolded retry_loop.simps [of env path key left]] built Inr sent
    show thesis
    proof (cases err)
      case None
      with loop show thesis by (intro success [of req s1]) simp_all
    next
      case (Some e)
      define u where "u = (if errors_Is e ErrTransport then Some e else unknownErr)"
      obtain d a where delay: "retryDelayAndRetryAfter (jitter env attempt) e backoff = (d, a)" by fastforce
      consider (stop) "\<not> (isRetryableReplyError e key \<and> left \<noteq> 0)"
        | (cut) c left' where "isRetryableReplyError e key" "left = Suc left'" "wait env attempt = Some c"
        | (go) left' where "isRetryableReplyError e key" "left = Suc left'" "wait env attempt = None"
        by (metis not0_implies_Suc option.exhaust)
      then show thesis
      proof cases
        case stop
        with loop Some show thesis
          by (intro final [of req s1 u e]) (auto simp: u_def Let_def split: nat.splits if_splits)
      next
        case cut
        with loop Some delay show thesis
          by (intro interrupted [of req s1 u e c d a]) (simp_all add: u_def Let_def)
      next
        case go
        obtain r' evs' s3 where "retry_loop env path key left' (Suc attempt) (min (backoff * 2) Second) u s2 = (r', evs', s3)"
          by (meson prod_cases3)
        with loop Some delay go show thesis
          by (intro again [of req s1 u e left' s2 d a evs']) (simp_all add: u_def Let_def)
      qed
    qed
  qed
qed

section \<open>Attempts\<close>

fun sent_of :: "retry_event \<Rightarrow> (nat \<times> go_error option) option" where
  "sent_of (Sent n e) = Some (n, e)"
| "sent_of (ObserveReplyRetry _ _ _) = None"

definition sends :: "retry_event list \<Rightarrow> (nat \<times> go_error option) list" where
  "sends evs = List.map_filter sent_of evs"

lemma sends_simps [simp]:
  "sends [] = []" "sends (Sent n e # evs) = (n, e) # sends evs" "sends (ObserveReplyRetry n d a # evs) = sends evs"
  by (simp_all add: sends_def List.map_filter_def)

lemma sends_set: "(n, e) \<in> set (sends evs) \<longleftrightarrow> Sent n e \<in> set evs"
  by (induction evs) (auto simp: sends_def List.map_filter_def elim: sent_of.elims)

lemma retry_loop_numbers:
  "retry_loop env path key left attempt backoff u s = (r, evs, s') \<Longrightarrow>
     \<exists>k \<le> Suc left. map fst (sends evs) = [attempt ..< attempt + k]"
proof (induction left arbitrary: attempt backoff u s r evs)
  case 0
  then show ?case
    by (cases rule: retry_loop_cases) (auto intro: exI [of _ 0] exI [of _ 1])
next
  case (Suc left)
  from Suc.prems show ?case
  proof (cases rule: retry_loop_cases)
    case (again req s1 e u' s2 left' d a evs')
    with Suc.IH obtain k where "k \<le> Suc left" "map fst (sends evs') = [Suc attempt ..< Suc attempt + k]" by force
    with again show ?thesis
      by (intro exI [of _ "Suc k"]) (simp add: upt_rec [of attempt])
  qed (auto intro: exI [of _ 0] exI [of _ 1])
qed

text \<open>
  A logical call sends at most \<open>ReplyRetryMax\<close> requests on the reply path and at most one on
  every other path or when retries are off, numbered from one without gaps; the loop always ends.
\<close>

theorem retry_attempts_bounded:
  "\<exists>k \<le> max_attempts retryMax path. map fst (sends (retry_events (retryPost env retryMax path key s))) = [1 ..< 1 + k] \<and>
     (path \<noteq> PathReply \<or> retryMax \<le> 0 \<longrightarrow> k \<le> 1)"
proof -
  obtain r evs s' where run: "retryPost env retryMax path key s = (r, evs, s')" by (meson prod_cases3)
  from retry_loop_numbers [OF this [unfolded retryPost_def]]
  obtain k where "k \<le> Suc (max_attempts retryMax path - 1)" "map fst (sends evs) = [1 ..< 1 + k]" by blast
  moreover have "1 \<le> max_attempts retryMax path" by (auto simp: max_attempts_def)
  ultimately show ?thesis using run by (intro exI [of _ k]) (auto simp: max_attempts_def)
qed

section \<open>Resending\<close>

lemma retry_loop_resends:
  "retry_loop env path key left attempt backoff u s = (r, evs, s') \<Longrightarrow> (Suc n, x) \<in> set (sends evs) \<Longrightarrow> attempt \<le> n \<Longrightarrow>
     \<exists>e. (n, Some e) \<in> set (sends evs) \<and> isRetryableReplyError e key"
proof (induction left arbitrary: attempt backoff u s r evs)
  case 0
  from 0(1) show ?case by (cases rule: retry_loop_cases) (use 0 in auto)
next
  case (Suc left)
  from Suc.prems(1) show ?case
  proof (cases rule: retry_loop_cases)
    case (again req s1 e u' s2 left' d a evs')
    show ?thesis
    proof (cases "n = attempt")
      case True
      with again show ?thesis by auto
    next
      case False
      with again Suc.prems have "\<exists>e. (n, Some e) \<in> set (sends evs') \<and> isRetryableReplyError e key"
        using Suc.IH [of "Suc attempt" "min (backoff * 2) Second" u' s2 r evs'] by simp
      with again show ?thesis by auto
    qed
  qed (use Suc.prems in auto)
qed

text \<open>
  C20: a request is sent again only after an attempt that cannot have had a second effect: the
  server limited its rate, or the call carries a client request identifier and the failure was in
  transport; never after a response that was too large, never after an egress denial that was not
  also a rate limit, and never once an attempt marked the call as finished.
\<close>

theorem resend_only_when_safe:
  assumes "(Suc n, x) \<in> set (sends (retry_events (retryPost env retryMax path key s)))" and "1 \<le> n"
  shows "\<exists>e. (n, Some e) \<in> set (sends (retry_events (retryPost env retryMax path key s))) \<and>
    \<not> is_stop e \<and> \<not> errors_Is e ErrResponseTooLarge \<and>
    (errors_Is e ErrRateLimited \<or>
      key \<and> (errors_Is e ErrTransport \<or> errors_Is e ErrNotSent) \<and> \<not> errors_Is e ErrH3EgressDenied)"
proof -
  obtain r evs s' where run: "retryPost env retryMax path key s = (r, evs, s')" by (meson prod_cases3)
  with assms retry_loop_resends [of env path key _ 1] obtain e where
    "(n, Some e) \<in> set (sends evs)" "isRetryableReplyError e key"
    unfolding retryPost_def by fastforce
  then show ?thesis
    using run by (auto simp: isRetryableReplyError_def isRetryableError_def isRetryableTransportError_def split: if_splits)
qed

section \<open>Delays\<close>

text \<open>The backoff before the n-th retry.\<close>

fun backoff_at :: "nat \<Rightarrow> duration" where
  "backoff_at 0 = 50 * Millisecond"
| "backoff_at (Suc n) = min (2 * backoff_at n) Second"

lemma backoff_at_bounds: "50 * Millisecond \<le> backoff_at n \<and> backoff_at n \<le> Second"
  by (induction n) (auto simp: Millisecond_def Second_def)

lemma backoff_at_exact: "backoff_at n = min (50 * Millisecond * 2 ^ n) Second"
proof (induction n)
  case 0
  then show ?case by (simp add: Millisecond_def Second_def)
next
  case (Suc n)
  have "Second \<ge> 0" by (simp add: Second_def)
  with Suc show ?case by (simp add: min_def)
qed

definition delay_ok :: "duration \<Rightarrow> duration \<Rightarrow> bool \<Rightarrow> bool" where
  "delay_ok backoff d applied \<longleftrightarrow>
     (if applied then backoff \<le> d \<and> d \<le> 5 * Second else backoff div 2 \<le> d \<and> d \<le> backoff)"

lemma delay_ok_run:
  assumes "\<And>n. 0 \<le> n \<Longrightarrow> 0 \<le> jit n \<and> jit n \<le> n" and "0 \<le> backoff" "backoff \<le> Second"
    and "retryDelayAndRetryAfter jit e backoff = (d, applied)"
  shows "delay_ok backoff d applied"
proof -
  have "0 \<le> backoff - backoff div 2" using assms(2) by presburger
  from assms(1) [OF this] have half: "halfJitter jit backoff \<le> backoff \<and> backoff div 2 \<le> halfJitter jit backoff"
    using assms(2) by (auto simp: halfJitter_def Let_def)
  have five: "maxReplyRetryAfterDelay = 5 * Second" "0 \<le> Second"
    by (simp_all add: maxReplyRetryAfterDelay_def Second_def)
  show ?thesis
    using assms(3,4) half five
    by (auto simp: retryDelayAndRetryAfter_def delay_ok_def clampDuration_def split: option.splits if_splits)
qed

lemma retry_loop_delays:
  assumes "\<And>n m. 0 \<le> m \<Longrightarrow> 0 \<le> jitter env n m \<and> jitter env n m \<le> m"
  shows "retry_loop env path key left (Suc k) (backoff_at k) u s = (r, evs, s') \<Longrightarrow>
     ObserveReplyRetry n d a \<in> set evs \<Longrightarrow> Suc k \<le> n \<and> delay_ok (backoff_at (n - 1)) d a"
proof (induction left arbitrary: k u s r evs)
  case 0
  from 0(1) show ?case by (cases rule: retry_loop_cases) (use 0(2) in auto)
next
  case (Suc left)
  have now: "retryDelayAndRetryAfter (jitter env (Suc k)) e (backoff_at k) = (d', a') \<Longrightarrow> delay_ok (backoff_at k) d' a'" for e d' a'
    by (rule delay_ok_run) (use assms backoff_at_bounds [of k] in \<open>auto simp: Millisecond_def\<close>)
  from Suc.prems(1) show ?case
  proof (cases rule: retry_loop_cases)
    case (interrupted req s1 e u' c d' a')
    with Suc.prems(2) now show ?thesis by auto
  next
    case (again req s1 e u' s2 left' d' a' evs')
    have "min (backoff_at k * 2) Second = backoff_at (Suc k)" by (simp add: mult.commute)
    with again Suc.prems(2) show ?thesis
      using Suc.IH [of "Suc k" u' s2 r evs'] now by (auto dest: Suc_leD)
  qed (use Suc.prems(2) in auto)
qed

text \<open>
  C21: the delay before a retry is bounded: a \<open>Retry-After\<close> the server asked for is honoured between
  the current backoff and five seconds; otherwise the delay lies between half the backoff and the
  backoff, which starts at 50 milliseconds, doubles per attempt and is capped at one second.
\<close>

theorem retry_delays_bounded:
  assumes "\<And>n m. 0 \<le> m \<Longrightarrow> 0 \<le> jitter env n m \<and> jitter env n m \<le> m"
    and "ObserveReplyRetry n d applied \<in> set (retry_events (retryPost env retryMax path key s))"
  shows "let backoff = min (50 * Millisecond * 2 ^ (n - 1)) Second in
    (if applied then backoff \<le> d \<and> d \<le> 5 * Second else backoff div 2 \<le> d \<and> d \<le> backoff)"
proof -
  obtain r evs s' where run: "retry_loop env path key (max_attempts retryMax path - 1) (Suc 0) (backoff_at 0) None s = (r, evs, s')"
    by (meson prod_cases3)
  then have "retryPost env retryMax path key s = (r, evs, s')" by (simp add: retryPost_def)
  with assms(2) have "delay_ok (backoff_at (n - 1)) d applied"
    using retry_loop_delays [OF assms(1) run] by simp
  then show ?thesis by (simp add: delay_ok_def backoff_at_exact Let_def)
qed


section \<open>Unknown outcomes are kept\<close>

text \<open>The call met an unknown outcome, before the loop or in it.\<close>

definition met_unknown :: "go_error option \<Rightarrow> retry_event list \<Rightarrow> bool" where
  "met_unknown u evs \<longleftrightarrow> u \<noteq> None \<or> (\<exists>n e. (n, Some e) \<in> set (sends evs) \<and> errors_Is e ErrTransport)"

definition pending :: "go_error option \<Rightarrow> bool" where
  "pending u \<longleftrightarrow> (\<forall>e. u = Some e \<longrightarrow> errors_Is e ErrTransport)"

lemma pending_update: "pending u \<Longrightarrow> pending (if errors_Is e ErrTransport then Some e else u)"
  by (simp add: pending_def)

lemma keepUnknownOutcome_exact:
  assumes "pending u" "u = None \<longrightarrow> \<not> errors_Is e ErrTransport" "ClientRequestIDConflictCode (keepUnknownOutcome e u path key) = []"
  shows "errors_Is (keepUnknownOutcome e u path key) ErrTransport \<longleftrightarrow> u \<noteq> None"
  using assms by (auto simp: keepUnknownOutcome_def pending_def split: option.splits if_splits)

lemma retryWaitError_exact:
  assumes "pending u" "\<not> errors_Is c ErrTransport"
  shows "errors_Is (retryWaitError c u path key) ErrTransport \<longleftrightarrow> u \<noteq> None"
  using assms by (auto simp: retryWaitError_def pending_def split: option.splits)

lemma retry_loop_unknown:
  assumes "\<And>n c. (\<exists>s. fst (build env n s) = Inl c) \<or> wait env n = Some c \<Longrightarrow> \<not> errors_Is c ErrTransport"
  shows "retry_loop env path key left attempt backoff u s = (Some f, evs, s') \<Longrightarrow> pending u \<Longrightarrow>
     ClientRequestIDConflictCode f = [] \<Longrightarrow> errors_Is f ErrTransport \<longleftrightarrow> met_unknown u evs"
proof (induction left arbitrary: attempt backoff u s evs rule: less_induct)
  case (less left)
  from less.prems(1) show ?case
  proof (cases rule: retry_loop_cases)
    case (unbuilt e)
    then have f: "f = keepUnknownOutcome e u path key" by simp
    have "\<not> errors_Is e ErrTransport" using assms unbuilt(1) by (metis fst_conv)
    with less.prems(2,3) keepUnknownOutcome_exact [of u e path key] show ?thesis by (simp add: met_unknown_def f unbuilt(3))
  next
    case (final req s1 e u')
    then have f: "f = keepUnknownOutcome e u' path key" by simp
    have "pending u'" unfolding final(2) by (rule pending_update [OF less.prems(2)])
    moreover have "u' = None \<longrightarrow> \<not> errors_Is e ErrTransport" by (simp add: final(2))
    ultimately have "errors_Is f ErrTransport \<longleftrightarrow> u' \<noteq> None"
      using less.prems(3) unfolding f by (intro keepUnknownOutcome_exact)
    then show ?thesis by (auto simp: met_unknown_def final(2,5))
  next
    case (interrupted req s1 e u' c d a)
    then have f: "f = retryWaitError c u' path key" by simp
    have "\<not> errors_Is c ErrTransport" using assms interrupted(4) by blast
    moreover have "pending u'" unfolding interrupted(2) by (rule pending_update [OF less.prems(2)])
    ultimately have "errors_Is f ErrTransport \<longleftrightarrow> u' \<noteq> None" unfolding f by (intro retryWaitError_exact)
    then show ?thesis by (auto simp: met_unknown_def interrupted(2,9))
  next
    case (again req s1 e u' s2 left' d a evs')
    have "pending u'" unfolding again(2) by (rule pending_update [OF less.prems(2)])
    moreover have "left' < left" by (simp add: again(3))
    ultimately have "errors_Is f ErrTransport \<longleftrightarrow> met_unknown u' evs'"
      using less.IH again(7) less.prems(3) by blast
    then show ?thesis by (auto simp: met_unknown_def again(2,8))
  qed simp
qed

text \<open>
  C19: a failed call reports an unknown outcome exactly when one of its attempts ended with one, even
  when a later attempt was rejected, rate limited, could not be built or was cut short by the
  context; the only exception is a conflict code, by which the server itself decides the request.
\<close>

theorem unknown_outcome_exact:
  assumes "\<And>n c. (\<exists>s. fst (build env n s) = Inl c) \<or> wait env n = Some c \<Longrightarrow> \<not> errors_Is c ErrTransport"
    and "retryPost env retryMax path key s = (Some f, evs, s')"
    and "ClientRequestIDConflictCode f = []"
  shows "errors_Is f ErrTransport \<longleftrightarrow> (\<exists>n e. (n, Some e) \<in> set (sends evs) \<and> errors_Is e ErrTransport)"
  using retry_loop_unknown [OF assms(1), where u = None] assms(2,3)
  by (fastforce simp: retryPost_def pending_def met_unknown_def)

section \<open>Witnesses\<close>

text \<open>A call whose first attempt is lost in transport and whose second is rejected.\<close>

definition lost_then_rejected :: "(unit, unit) attempts" where
  "lost_then_rejected =
     \<lparr>build = \<lambda>_ s. (Inr (), s),
      send = \<lambda>n _ s. (Some (if n = 1 then TransportError ''do'' ''/reply'' (Opaque ''eof'') True
         else HTTPErr \<lparr>he_StatusCode = 400, he_URL = ''/reply'', he_RetryAfter = 0, he_Body = [], he_code = []\<rparr>), s),
      wait = \<lambda>_. None, jitter = \<lambda>_ m. 0\<rparr>"

lemma lost_then_rejected_run:
  "\<exists>f. retryPost lost_then_rejected 3 ''/reply'' True () =
     (Some f, [Sent 1 (Some (TransportError ''do'' ''/reply'' (Opaque ''eof'') True)), ObserveReplyRetry 1 (25 * Millisecond) False,
        Sent 2 (Some (HTTPErr \<lparr>he_StatusCode = 400, he_URL = ''/reply'', he_RetryAfter = 0, he_Body = [], he_code = []\<rparr>))], ()) \<and>
     ClientRequestIDConflictCode f = []"
  by (simp add: retryPost_def max_attempts_def PathReply_def retry_loop.simps lost_then_rejected_def isRetryableReplyError_def
      isRetryableError_def isRetryableTransportError_def TransportError_Is_def retryDelayAndRetryAfter_def halfJitter_def
      HTTPError_Is_def http_status_defs Millisecond_def keepUnknownOutcome_def ClientRequestIDConflictCode_def eval_nat_numeral)


theorem resend_only_when_safe_witness:
  "\<exists>e. (1, Some e) \<in> set (sends (retry_events (retryPost lost_then_rejected 3 ''/reply'' True ()))) \<and> \<not> is_stop e \<and>
     \<not> errors_Is e ErrResponseTooLarge"
proof -
  have sent: "\<exists>x. (Suc 1, x) \<in> set (sends (retry_events (retryPost lost_then_rejected 3 ''/reply'' True ())))"
    using lost_then_rejected_run by (auto simp: eval_nat_numeral)
  then obtain x where "(Suc 1, x) \<in> set (sends (retry_events (retryPost lost_then_rejected 3 ''/reply'' True ())))" ..
  from resend_only_when_safe [OF this] show ?thesis by auto
qed

theorem retry_delays_bounded_witness:
  "ObserveReplyRetry 1 (25 * Millisecond) False \<in> set (retry_events (retryPost lost_then_rejected 3 ''/reply'' True ())) \<and>
   50 * Millisecond div 2 \<le> 25 * Millisecond \<and> 25 * Millisecond \<le> 50 * Millisecond"
proof -
  have ev: "ObserveReplyRetry 1 (25 * Millisecond) False \<in> set (retry_events (retryPost lost_then_rejected 3 ''/reply'' True ()))"
    using lost_then_rejected_run by auto
  have jit: "\<And>n m. 0 \<le> m \<Longrightarrow> 0 \<le> jitter lost_then_rejected n m \<and> jitter lost_then_rejected n m \<le> m"
    by (simp add: lost_then_rejected_def)
  from retry_delays_bounded [OF jit ev] ev show ?thesis by (simp add: Let_def Millisecond_def Second_def)
qed

theorem unknown_outcome_exact_witness:
  "\<exists>f. fst (retryPost lost_then_rejected 3 ''/reply'' True ()) = Some f \<and> errors_Is f ErrTransport"
proof -
  obtain f evs where run: "retryPost lost_then_rejected 3 ''/reply'' True () = (Some f, evs, ())"
      "ClientRequestIDConflictCode f = []" "\<exists>n e. (n, Some e) \<in> set (sends evs) \<and> errors_Is e ErrTransport"
    using lost_then_rejected_run by (force simp: TransportError_Is_def)
  have "\<And>n c. (\<exists>s. fst (build lost_then_rejected n s) = Inl c) \<or> wait lost_then_rejected n = Some c \<Longrightarrow> \<not> errors_Is c ErrTransport"
    by (simp add: lost_then_rejected_def)
  from unknown_outcome_exact [OF this run(1,2)] run show ?thesis by simp
qed

section \<open>Retry-After\<close>

text \<open>
  A \<open>Retry-After\<close> header never gives a negative delay and never overflows: a number of seconds is
  taken exactly when it fits 64 bits of nanoseconds and saturates above that, also when the number
  itself does not fit 64 bits, and what the loop waits for it is at most five seconds.
\<close>

theorem retry_after_saturates:
  "0 \<le> parseRetryAfterHeader parse_time raw now \<and> parseRetryAfterHeader parse_time raw now \<le> max_int64 \<and>
   (\<forall>n. parse_int64 (trim_space raw) = Some n \<and> trim_space raw \<noteq> [] \<longrightarrow>
      parseRetryAfterHeader parse_time raw now =
        (if n \<le> 0 then 0 else if n * Second \<le> max_int64 then n * Second else max_int64)) \<and>
   (parse_int64 (trim_space raw) = None \<and> isDecimalDigits (trim_space raw) \<longrightarrow>
      parseRetryAfterHeader parse_time raw now = max_int64) \<and>
   (0 < fallback \<and> fallback \<le> Second \<longrightarrow>
      fallback \<le> clampDuration (parseRetryAfterHeader parse_time raw now) fallback maxReplyRetryAfterDelay \<and>
      clampDuration (parseRetryAfterHeader parse_time raw now) fallback maxReplyRetryAfterDelay \<le> 5 * Second)"
proof -
  have fits: "n \<le> max_int64 div Second \<longleftrightarrow> n * Second \<le> max_int64" for n
  proof -
    have "0 < Second" by (simp add: Second_def)
    have mod: "max_int64 div Second * Second \<le> max_int64" by (simp add: Second_def max_int64_def)
    have up: "n * Second \<le> max_int64 \<Longrightarrow> n \<le> max_int64 div Second"
      using zdiv_mono1 [of "n * Second" max_int64 Second] \<open>0 < Second\<close> by simp
    have "n \<le> max_int64 div Second \<Longrightarrow> n * Second \<le> max_int64 div Second * Second"
      using \<open>0 < Second\<close> by (simp add: mult_right_mono)
    with mod up show ?thesis by linarith
  qed
  have sec: "0 < Second" and top: "0 \<le> max_int64" by (simp_all add: Second_def max_int64_def)
  have delay: "time_Sub t u \<le> max_int64" for t u by (simp add: time_Sub_def min_int64_def max_int64_def)
  have "\<not> isDecimalDigits []" by (simp add: isDecimalDigits_def)
  with sec top delay show ?thesis
    by (auto simp: parseRetryAfterHeader_def maxRetryAfterDuration_def Let_def clampDuration_def maxReplyRetryAfterDelay_def
        fits [symmetric] not_le split: option.splits)
qed


end
