(* ===== verification/Auth_Epoch.thy ===== *)
theory Auth_Epoch
  imports Client_Retry Go_Http Single_Flight
begin

text \<open>
  The authentication epoch of a client (\<open>internal/client/transport/auth_epoch.go\<close>): responses and
  their bodies, discovery of the epoch, and the cache that concurrent calls share, as a state
  machine whose steps are the critical sections of \<open>authEpoch\<close> and \<open>refreshAuthEpoch\<close>. The lemmas show
  that discovery is single-flight, that no waiting call is forgotten, that only valid epochs are
  cached or returned, and that every error of discovery is a request that was certainly not sent.
\<close>

section \<open>Responses\<close>

text \<open>A response body: the bytes it delivers, the error it then ends with (\<open>None\<close>: end of file), the error of \<open>Close\<close>.\<close>

record resp_stream =
  rb_data :: bytes
  rb_end :: "go_error option"
  rb_close :: "go_error option"

record http_response =
  resp_status :: int
  resp_header :: header
  resp_body :: resp_stream

text \<open>\<open>io.ReadAll(io.LimitReader(r, limit))\<close>: the bytes and the error.\<close>

definition read_all_limited :: "resp_stream \<Rightarrow> nat \<Rightarrow> bytes \<times> go_error option" where
  "read_all_limited b limit =
     (if limit \<le> length (rb_data b) then (take limit (rb_data b), None) else (rb_data b, rb_end b))"

section \<open>Contexts of attempts\<close>

text \<open>A context: its deadline and the error it reports once it is cancelled.\<close>

record go_context =
  cx_deadline :: "instant option"
  cx_err :: "go_error option"

definition context_WithTimeout :: "instant \<Rightarrow> duration \<Rightarrow> go_context \<Rightarrow> go_context" where
  "context_WithTimeout now timeout ctx =
     ctx\<lparr>cx_deadline := Some (case cx_deadline ctx of None \<Rightarrow> now + timeout | Some d \<Rightarrow> min d (now + timeout))\<rparr>"

definition requestContext :: "duration \<Rightarrow> instant \<Rightarrow> go_context \<Rightarrow> go_context" where
  "requestContext Timeout now ctx = (if Timeout \<le> 0 then ctx else context_WithTimeout now Timeout ctx)"

text \<open>
  One budget per attempt: discovery, sending and replay run under the context of the attempt, which
  ends neither after the caller's nor more than \<open>Timeout\<close> after the attempt began; deriving it again
  within the attempt changes nothing.
\<close>

lemma requestContext_deadline:
  assumes "0 < Timeout"
  obtains d where "cx_deadline (requestContext Timeout now ctx) = Some d" and "d \<le> now + Timeout"
    and "\<And>d0. cx_deadline ctx = Some d0 \<Longrightarrow> d \<le> d0" and "cx_err (requestContext Timeout now ctx) = cx_err ctx"
  using assms by (cases "cx_deadline ctx") (auto simp: requestContext_def context_WithTimeout_def)

lemma requestContext_nested:
  "now \<le> later \<Longrightarrow> requestContext Timeout later (requestContext Timeout now ctx) = requestContext Timeout now ctx"
  by (auto simp: requestContext_def context_WithTimeout_def min_def split: option.splits)

section \<open>Discovery\<close>

definition authEpochPath :: string where "authEpochPath = ''/auth/epoch''"
definition authEpochResponseMaxBytes :: nat where "authEpochResponseMaxBytes = 1024"

definition validAuthEpoch :: "string \<Rightarrow> bool" where
  "validAuthEpoch v \<longleftrightarrow> length v = 32 \<and> list_all is_lower_hex v"

definition authEpochTransportError :: "string \<Rightarrow> go_error \<Rightarrow> go_error" where
  "authEpochTransportError op err =
     (if errors_Is err errHTTP1ProbeOnly then err
      else TransportError op authEpochPath
        (if errors_Is err ErrNotSent then err else WrapErr [] [Sentinel ErrNotSent, err]) False)"

text \<open>
  \<open>fetchAuthEpoch\<close> after the request was built: \<open>parse_time\<close> is \<open>http.ParseTime\<close>, \<open>epoch_of\<close> the JSON decoder
  of the \<open>epoch\<close> member, \<open>outcome\<close> what \<open>client.Do\<close> returned.
\<close>

definition fetchAuthEpoch ::
  "(string \<Rightarrow> instant option) \<Rightarrow> (bytes \<Rightarrow> string option) \<Rightarrow> instant \<Rightarrow> (go_error, http_response) result
     \<Rightarrow> (go_error, string) result" where
  "fetchAuthEpoch parse_time epoch_of now outcome =
     (case outcome of
        Inl err \<Rightarrow> Inl (authEpochTransportError ''discover authentication epoch'' err)
      | Inr resp \<Rightarrow>
          if resp_status resp \<noteq> 200 then
            Inl (HTTPErr \<lparr>he_StatusCode = resp_status resp, he_URL = authEpochPath,
              he_RetryAfter = parseRetryAfterHeader parse_time (header_Get (resp_header resp) ''Retry-After'') now,
              he_Body = [], he_code = []\<rparr>)
          else (case read_all_limited (resp_body resp) (authEpochResponseMaxBytes + 1) of
              (_, Some err) \<Rightarrow> Inl (authEpochTransportError ''read authentication epoch'' err)
            | (payload, None) \<Rightarrow>
                if authEpochResponseMaxBytes < length payload then Inl (Sentinel ErrResponseTooLarge)
                else (case epoch_of payload of
                    None \<Rightarrow> Inl (Opaque ''invalid authentication epoch JSON'')
                  | Some e \<Rightarrow>
                      if validAuthEpoch e then Inr e else Inl (Opaque ''invalid authentication epoch format''))))"

text \<open>How \<open>authEpoch\<close> returns an error of discovery.\<close>

definition epoch_fetch_error :: "go_error \<Rightarrow> go_error" where
  "epoch_fetch_error err =
     (if errors_Is err ErrNotSent then err else WrapErr ''discover authentication epoch'' [Sentinel ErrNotSent, err])"

section \<open>The cache\<close>

text \<open>A channel is a number; \<open>ec_loading\<close> is the channel of the discovery under way.\<close>

record authEpochCache =
  ec_value :: string
  ec_loading :: "nat option"

datatype look_result = Hit string | Join nat | Lead

definition look :: "authEpochCache \<Rightarrow> look_result" where
  "look c = (if ec_value c \<noteq> [] then Hit (ec_value c) else case ec_loading c of Some ch \<Rightarrow> Join ch | None \<Rightarrow> Lead)"

definition epoch_lead :: "nat \<Rightarrow> authEpochCache \<Rightarrow> authEpochCache" where
  "epoch_lead ch c = c\<lparr>ec_loading := Some ch\<rparr>"

definition epoch_publish :: "(go_error, string) result \<Rightarrow> authEpochCache \<Rightarrow> authEpochCache" where
  "epoch_publish r c =
     (case r of Inr v \<Rightarrow> c\<lparr>ec_value := v, ec_loading := None\<rparr> | Inl _ \<Rightarrow> c\<lparr>ec_loading := None\<rparr>)"

definition epoch_forget :: "string \<Rightarrow> authEpochCache \<Rightarrow> authEpochCache" where
  "epoch_forget used c = (if ec_value c = used then c\<lparr>ec_value := []\<rparr> else c)"

text \<open>
  Where a call of \<open>authEpoch\<close> is: at the head of its loop, waiting on a channel, discovering with the
  channel it opened, or finished.
\<close>

datatype epoch_call = Looking | WaitingFor nat | Fetching nat | Finished "(go_error, string) result"

record epoch_state =
  es_cache :: authEpochCache
  es_closed :: "nat set"
  es_next :: nat
  es_calls :: "epoch_call list"

text \<open>
  Context errors are \<open>Canceled\<close> and \<open>DeadlineExceeded\<close>. The outcome of a discovery is whatever building
  the request or \<open>fetchAuthEpoch\<close> returns for some response.
\<close>

definition is_ctx_error :: "go_error \<Rightarrow> bool" where
  "is_ctx_error e \<longleftrightarrow> e = Sentinel ContextCanceled \<or> e = Sentinel ContextDeadlineExceeded"

inductive epoch_step ::
  "(string \<Rightarrow> instant option) \<Rightarrow> (bytes \<Rightarrow> string option) \<Rightarrow> epoch_state \<Rightarrow> epoch_state \<Rightarrow> bool" for parse_time epoch_of where
  ep_call: "epoch_step parse_time epoch_of s (s\<lparr>es_calls := Looking # es_calls s\<rparr>)"
| ep_expired: "es_calls s = xs @ Looking # ys \<Longrightarrow> is_ctx_error e \<Longrightarrow>
    epoch_step parse_time epoch_of s
      (s\<lparr>es_calls := xs @ Finished (Inl (authEpochTransportError ''discover authentication epoch'' e)) # ys\<rparr>)"
| ep_hit: "es_calls s = xs @ Looking # ys \<Longrightarrow> look (es_cache s) = Hit v \<Longrightarrow>
    epoch_step parse_time epoch_of s (s\<lparr>es_calls := xs @ Finished (Inr v) # ys\<rparr>)"
| ep_join: "es_calls s = xs @ Looking # ys \<Longrightarrow> look (es_cache s) = Join ch \<Longrightarrow>
    epoch_step parse_time epoch_of s (s\<lparr>es_calls := xs @ WaitingFor ch # ys\<rparr>)"
| ep_wake: "es_calls s = xs @ WaitingFor ch # ys \<Longrightarrow> ch \<in> es_closed s \<Longrightarrow>
    epoch_step parse_time epoch_of s (s\<lparr>es_calls := xs @ Looking # ys\<rparr>)"
| ep_abandon: "es_calls s = xs @ WaitingFor ch # ys \<Longrightarrow> is_ctx_error e \<Longrightarrow>
    epoch_step parse_time epoch_of s
      (s\<lparr>es_calls := xs @ Finished (Inl (authEpochTransportError ''wait for authentication epoch'' e)) # ys\<rparr>)"
| ep_lead: "es_calls s = xs @ Looking # ys \<Longrightarrow> look (es_cache s) = Lead \<Longrightarrow>
    epoch_step parse_time epoch_of s
      (s\<lparr>es_cache := epoch_lead (es_next s) (es_cache s), es_next := Suc (es_next s),
         es_calls := xs @ Fetching (es_next s) # ys\<rparr>)"
| ep_publish: "es_calls s = xs @ Fetching ch # ys \<Longrightarrow>
    r = fetchAuthEpoch parse_time epoch_of now outcome \<or> (\<exists>e. r = Inl e) \<Longrightarrow>
    epoch_step parse_time epoch_of s
      (s\<lparr>es_cache := epoch_publish r (es_cache s), es_closed := insert ch (es_closed s),
         es_calls := xs @ Finished (map_sum epoch_fetch_error id r) # ys\<rparr>)"
| ep_forget: "epoch_step parse_time epoch_of s (s\<lparr>es_cache := epoch_forget used (es_cache s)\<rparr>)"

definition epoch_init :: epoch_state where
  "epoch_init = \<lparr>es_cache = \<lparr>ec_value = [], ec_loading = None\<rparr>, es_closed = {}, es_next = 0, es_calls = []\<rparr>"

definition epoch_reach :: "(string \<Rightarrow> instant option) \<Rightarrow> (bytes \<Rightarrow> string option) \<Rightarrow> epoch_state \<Rightarrow> bool" where
  "epoch_reach parse_time epoch_of = reachable (epoch_step parse_time epoch_of) (\<lambda>s. s = epoch_init)"

lemma er_init: "epoch_reach parse_time epoch_of epoch_init"
  by (simp add: epoch_reach_def reach_init)

lemma er_step: "epoch_reach parse_time epoch_of s \<Longrightarrow> epoch_step parse_time epoch_of s s' \<Longrightarrow> epoch_reach parse_time epoch_of s'"
  unfolding epoch_reach_def by (rule reach_step)

section \<open>Invariant\<close>

fun fetching_of :: "epoch_call \<Rightarrow> nat option" where
  "fetching_of (Fetching ch) = Some ch"
| "fetching_of _ = None"

definition fetchers :: "epoch_call list \<Rightarrow> nat list" where
  "fetchers cs = List.map_filter fetching_of cs"

lemma fetchers_simps [simp]:
  "fetchers [] = []" "fetchers (Fetching ch # cs) = ch # fetchers cs" "fetchers (Looking # cs) = fetchers cs"
  "fetchers (WaitingFor ch # cs) = fetchers cs" "fetchers (Finished r # cs) = fetchers cs"
  "fetchers (cs @ ds) = fetchers cs @ fetchers ds"
  by (simp_all add: fetchers_def List.map_filter_def)

lemma fetchers_set: "ch \<in> set (fetchers cs) \<longleftrightarrow> Fetching ch \<in> set cs"
  by (induction cs) (auto simp: fetchers_def List.map_filter_def elim: fetching_of.elims)

definition epoch_ok :: "epoch_state \<Rightarrow> bool" where
  "epoch_ok s \<longleftrightarrow>
     (ec_value (es_cache s) = [] \<or> validAuthEpoch (ec_value (es_cache s))) \<and>
     (\<forall>v. Finished (Inr v) \<in> set (es_calls s) \<longrightarrow> validAuthEpoch v) \<and>
     (\<forall>e. Finished (Inl e) \<in> set (es_calls s) \<longrightarrow> errors_Is e ErrNotSent)"

lemma authEpochTransportError_ctx [simp]:
  "is_ctx_error e \<Longrightarrow> errors_Is (authEpochTransportError op e) ErrNotSent"
  by (auto simp: is_ctx_error_def authEpochTransportError_def)

lemma epoch_fetch_error_not_sent [simp]: "errors_Is (epoch_fetch_error e) ErrNotSent"
  by (simp add: epoch_fetch_error_def)

lemma fetchAuthEpoch_valid: "fetchAuthEpoch parse_time epoch_of now outcome = Inr v \<Longrightarrow> validAuthEpoch v"
  by (auto simp: fetchAuthEpoch_def split: sum.splits if_splits prod.splits option.splits)

lemma validAuthEpoch_nonempty: "validAuthEpoch v \<Longrightarrow> v \<noteq> []"
  by (auto simp: validAuthEpoch_def)

lemma single_fetcher:
  assumes "fetchers (xs @ Fetching ch # ys) = sole l"
  shows "l = Some ch \<and> fetchers xs = [] \<and> fetchers ys = []"
  using assms by (auto simp: append_eq_Cons_conv split: option.splits)

text \<open>Discovery is shared work: the cache keeps the contract.\<close>

interpretation epoch: single_flight "epoch_step parse_time epoch_of" "\<lambda>s. s = epoch_init" "\<lambda>s. ec_loading (es_cache s)" es_closed
    "\<lambda>s. fetchers (es_calls s)" "\<lambda>s. {ch. WaitingFor ch \<in> set (es_calls s)}"
  for parse_time epoch_of
proof
  fix s s' ch
  assume step: "epoch_step parse_time epoch_of s s'"
  show "es_closed s \<subseteq> es_closed s'" using step by cases auto
  show "{ch. WaitingFor ch \<in> set (es_calls s')} \<subseteq> {ch. WaitingFor ch \<in> set (es_calls s)} \<union> set_option (ec_loading (es_cache s'))"
    using step by cases (auto simp: look_def split: option.splits if_splits)
  assume one: "fetchers (es_calls s) = sole (ec_loading (es_cache s))"
  have both: "fetchers (es_calls s') = sole (ec_loading (es_cache s')) \<and>
      (ec_loading (es_cache s) = Some ch \<longrightarrow> ec_loading (es_cache s') = Some ch \<or> ch \<in> es_closed s')"
    using step
  proof cases
    case (ep_publish xs ch' ys r now outcome)
    with single_fetcher [of xs ch' ys] one show ?thesis by (cases r) (auto simp: epoch_publish_def)
  qed (use one in \<open>auto simp: look_def epoch_lead_def epoch_forget_def split: option.splits if_splits\<close>)
  then show "fetchers (es_calls s') = sole (ec_loading (es_cache s'))" by blast
  assume "ec_loading (es_cache s) = Some ch"
  with both show "ec_loading (es_cache s') = Some ch \<or> ch \<in> es_closed s'" by blast
qed (simp_all add: epoch_init_def)

lemma epoch_step_ok: "epoch_step parse_time epoch_of s s' \<Longrightarrow> epoch_ok s \<Longrightarrow> epoch_ok s'"
proof (induction rule: epoch_step.induct)
  case (ep_publish s xs ch ys r now outcome)
  have v: "r = Inr v \<Longrightarrow> validAuthEpoch v" for v using ep_publish.hyps(2) fetchAuthEpoch_valid by auto
  from v ep_publish.hyps(1) ep_publish.prems show ?case
    by (cases r) (auto simp: epoch_ok_def epoch_publish_def)
qed (auto simp: epoch_ok_def look_def epoch_lead_def epoch_forget_def split: option.splits if_splits)

lemma epoch_reach_ok: "epoch_reach parse_time epoch_of s \<Longrightarrow> epoch_ok s"
  unfolding epoch_reach_def
proof (induction rule: reachable.induct)
  case (reach_init s)
  then show ?case by (simp add: epoch_ok_def epoch_init_def)
qed (rule epoch_step_ok)

section \<open>Claims\<close>

text \<open>
  C29: in every interleaving of calls, at most one call discovers the epoch at a time; a call that
  waits does so on a channel that is closed already or that the discovering call will close; what
  is cached is empty or a valid epoch; a finished call has a valid epoch or an error that says the
  request was not sent.
\<close>

theorem epoch_single_flight:
  assumes "epoch_reach parse_time epoch_of s"
  shows "length (fetchers (es_calls s)) \<le> 1 \<and>
    (\<forall>ch. WaitingFor ch \<in> set (es_calls s) \<longrightarrow> ch \<in> es_closed s \<or> fetchers (es_calls s) = [ch]) \<and>
    (ec_value (es_cache s) = [] \<or> validAuthEpoch (ec_value (es_cache s))) \<and>
    (\<forall>r. Finished r \<in> set (es_calls s) \<longrightarrow>
       (case r of Inr v \<Rightarrow> validAuthEpoch v | Inl e \<Rightarrow> errors_Is e ErrNotSent))"
proof -
  note reach = assms [unfolded epoch_reach_def]
  show ?thesis
    using epoch.one_worker [OF reach] epoch.no_lost_waiter [OF reach] epoch_reach_ok [OF assms]
    by (auto simp: epoch_ok_def split: sum.splits)
qed

lemma epoch_two_callers:
  "epoch_reach parse_time epoch_of
     \<lparr>es_cache = \<lparr>ec_value = [], ec_loading = Some 0\<rparr>, es_closed = {}, es_next = 1, es_calls = [WaitingFor 0, Fetching 0]\<rparr>"
proof -
  let ?s1 = "\<lparr>es_cache = \<lparr>ec_value = [], ec_loading = None\<rparr>, es_closed = {}, es_next = 0, es_calls = [Looking]\<rparr>"
  let ?s2 = "\<lparr>es_cache = \<lparr>ec_value = [], ec_loading = Some 0\<rparr>, es_closed = {}, es_next = 1, es_calls = [Fetching 0]\<rparr>"
  let ?s3 = "\<lparr>es_cache = \<lparr>ec_value = [], ec_loading = Some 0\<rparr>, es_closed = {}, es_next = 1, es_calls = [Looking, Fetching 0]\<rparr>"
  have "epoch_reach parse_time epoch_of ?s1"
    using er_step [OF er_init ep_call, of parse_time epoch_of] by (simp add: epoch_init_def)
  from er_step [OF this ep_lead [of _ "[]" "[]"]] have "epoch_reach parse_time epoch_of ?s2"
    by (simp add: look_def epoch_lead_def)
  from er_step [OF this ep_call] have "epoch_reach parse_time epoch_of ?s3" by simp
  from er_step [OF this ep_join [of _ "[]" "[Fetching 0]" 0]] show ?thesis by (simp add: look_def)
qed

theorem epoch_single_flight_witness:
  "length (fetchers [WaitingFor 0, Fetching 0]) \<le> 1"
  using epoch_single_flight [OF epoch_two_callers [of "\<lambda>_. None" "\<lambda>_. None"]] by simp

end
