(* ===== verification/Client_Execute.thy ===== *)
theory Client_Execute
  imports Auth_Epoch Signing
begin

text \<open>
  Building, signing and sending of client requests (\<open>internal/client/transport/client.go\<close>,
  \<open>auth_epoch.go\<close>, \<open>execute.go\<close>, \<open>ping.go\<close>): the calls of one goroutine on a client whose cached epoch
  and signer pool it passes along. The network, the clock, the random bytes, the pool's choices and
  the decoders are fields of an environment; those that vary take the number of requests sent so
  far. The lemmas show that a call sends its request at most twice, that the replay is the same
  request with new authentication headers, and that a request reported as not sent had no effect.
\<close>

section \<open>Requests, environment and client\<close>

text \<open>\<open>cr_body\<close> is \<open>None\<close> for a nil body and for \<open>http.NoBody\<close>; \<open>cr_get_body\<close> is \<open>None\<close> when \<open>GetBody\<close> is nil.\<close>

record creq =
  cr_method :: string
  cr_url :: string
  cr_header :: header
  cr_body :: "bytes option"
  cr_get_body :: "(go_error, bytes) result option"
  cr_content_length :: int

datatype body_arg = NilBody | BytesReader bytes | StreamBody bytes

record client_io =
  io_case :: ucase
  io_parse_time :: "string \<Rightarrow> instant option"
  io_code :: "string \<Rightarrow> string option"
  io_epoch :: "bytes \<Rightarrow> string option"
  io_url_ok :: "string \<Rightarrow> bool"
  io_inject :: "header \<Rightarrow> header"
  io_do :: "creq list \<Rightarrow> creq \<Rightarrow> (go_error, http_response) result"
  io_ctx :: "nat \<Rightarrow> go_error option"
  io_now :: "nat \<Rightarrow> instant"
  io_random :: "nat \<Rightarrow> bytes"
  io_pool :: "nat \<Rightarrow> nat option"

text \<open>\<open>ac_sent\<close> records the requests handed to \<open>http.Client.Do\<close>, in order.\<close>

record APIClient =
  ac_baseURL :: string
  ac_signer :: "Signer option"
  ac_epoch :: string
  ac_http1ProbeOnly :: bool
  ac_sent :: "creq list"

definition http_Do :: "client_io \<Rightarrow> creq \<Rightarrow> APIClient \<Rightarrow> (go_error, http_response) result \<times> APIClient" where
  "http_Do io req c = (io_do io (ac_sent c) req, c\<lparr>ac_sent := ac_sent c @ [req]\<rparr>)"

section \<open>Building\<close>

definition PathReady :: string where "PathReady = ''/ready''"
definition PathHealth :: string where "PathHealth = ''/health''"

definition isHTTP1ProbeRoute :: "string \<Rightarrow> string \<Rightarrow> bool" where
  "isHTTP1ProbeRoute method path \<longleftrightarrow> method = ''GET'' \<and> (path = PathHealth \<or> path = PathReady)"

text \<open>
  \<open>http.NewRequestWithContext\<close> gives a request for a \<open>bytes.Reader\<close> a \<open>GetBody\<close>, and \<open>NoBody\<close> when it is
  empty; its length becomes the content length. \<open>io_url_ok\<close> says that the URL parses.
\<close>

definition newRequest :: "client_io \<Rightarrow> APIClient \<Rightarrow> string \<Rightarrow> string \<Rightarrow> body_arg \<Rightarrow> (go_error, creq) result" where
  "newRequest io c method path body =
     (if ac_http1ProbeOnly c \<and> \<not> isHTTP1ProbeRoute method path then
        Inl (WrapErr [] [Sentinel ErrNotSent, Sentinel errHTTP1ProbeOnly])
      else if \<not> io_url_ok io (ac_baseURL c @ path) then Inl (WrapErr ''build iris request'' [Opaque ''url''])
      else Inr \<lparr>cr_method = method, cr_url = ac_baseURL c @ path, cr_header = io_inject io [],
        cr_body = (case body of NilBody \<Rightarrow> None | BytesReader b \<Rightarrow> if b = [] then None else Some b | StreamBody b \<Rightarrow> Some b),
        cr_get_body = (case body of BytesReader b \<Rightarrow> Some (Inr b) | _ \<Rightarrow> None),
        cr_content_length = (case body of BytesReader b \<Rightarrow> int (length b) | _ \<Rightarrow> 0)\<rparr>)"

text \<open>\<open>authEpoch\<close> as one call runs it when no other call is under way.\<close>

definition authEpoch :: "client_io \<Rightarrow> APIClient \<Rightarrow> (go_error, string) result \<times> APIClient" where
  "authEpoch io c =
     (case io_ctx io (length (ac_sent c)) of
        Some err \<Rightarrow> (Inl (authEpochTransportError ''discover authentication epoch'' err), c)
      | None \<Rightarrow>
          if ac_epoch c \<noteq> [] then (Inr (ac_epoch c), c)
          else (case newRequest io c ''GET'' authEpochPath NilBody of
              Inl err \<Rightarrow> (Inl (epoch_fetch_error err), c)
            | Inr req \<Rightarrow>
                (case http_Do io req c of (outcome, c1) \<Rightarrow>
                   (case fetchAuthEpoch (io_parse_time io) (io_epoch io) (io_now io (length (ac_sent c1))) outcome of
                      Inl err \<Rightarrow> (Inl (epoch_fetch_error err), c1)
                    | Inr v \<Rightarrow> (Inr v, c1\<lparr>ac_epoch := v\<rparr>)))))"

definition signRequest ::
  "client_io \<Rightarrow> APIClient \<Rightarrow> creq \<Rightarrow> string \<Rightarrow> string \<Rightarrow> string \<Rightarrow> (go_error, creq) result \<times> APIClient" where
  "signRequest io c req method path bodySHA256 =
     (case ac_signer c of
        None \<Rightarrow> (Inr req, c)
      | Some _ \<Rightarrow>
          (case authEpoch io c of
             (Inl err, c1) \<Rightarrow> (Inl err, c1)
           | (Inr epoch, c1) \<Rightarrow>
               let n = length (ac_sent c1) in
               (case SetIrisHMACHeaders (io_case io) (io_pool io n) (io_now io n div Millisecond) (io_random io n)
                   (cr_header req) (the (ac_signer c)) method path bodySHA256 epoch of
                  Inl _ \<Rightarrow> (Inl (WrapErr ''sign iris request'' [Opaque ''target'']), c1)
                | Inr (hdr, signer') \<Rightarrow> (Inr (req\<lparr>cr_header := hdr\<rparr>), c1\<lparr>ac_signer := Some signer'\<rparr>))))"

definition newSignedStreamRequest ::
  "client_io \<Rightarrow> APIClient \<Rightarrow> string \<Rightarrow> string \<Rightarrow> body_arg \<Rightarrow> string \<Rightarrow> (go_error, creq) result \<times> APIClient" where
  "newSignedStreamRequest io c method path body bodySHA256 =
     (case newRequest io c method path body of
        Inl err \<Rightarrow> (Inl err, c)
      | Inr req \<Rightarrow> signRequest io c req method path bodySHA256)"

definition newSignedRequest ::
  "client_io \<Rightarrow> APIClient \<Rightarrow> string \<Rightarrow> string \<Rightarrow> bytes option \<Rightarrow> (go_error, creq) result \<times> APIClient" where
  "newSignedRequest io c method path bodyBytes =
     newSignedStreamRequest io c method path (case bodyBytes of None \<Rightarrow> NilBody | Some b \<Rightarrow> BytesReader b)
       (SHA256HexBytes (case bodyBytes of None \<Rightarrow> [] | Some b \<Rightarrow> b))"

section \<open>Error responses\<close>

definition isSuccessfulHTTPStatus :: "int \<Rightarrow> bool" where
  "isSuccessfulHTTPStatus s \<longleftrightarrow> 200 \<le> s \<and> s < 300"

text \<open>The drain after the read changes nothing the program looks at again.\<close>

definition readErrorBody :: "resp_stream option \<Rightarrow> bytes \<times> bool" where
  "readErrorBody r =
     (case r of
        None \<Rightarrow> ([], False)
      | Some b \<Rightarrow>
          (case read_all_limited b (httpErrorBodyParseMaxLen + 1) of
             (payload, Some _) \<Rightarrow> (payload, False)
           | (payload, None) \<Rightarrow> (payload, length payload \<le> httpErrorBodyParseMaxLen)))"

text \<open>\<open>None\<close> is the panic of the redaction.\<close>

definition readErrorResponse :: "client_io \<Rightarrow> instant \<Rightarrow> string \<Rightarrow> http_response \<Rightarrow> HTTPError option" where
  "readErrorResponse io now path resp =
     (case readErrorBody (Some (resp_body resp)) of (payload, complete) \<Rightarrow>
        map_option (\<lambda>body.
          \<lparr>he_StatusCode = resp_status resp, he_URL = path,
           he_RetryAfter = parseRetryAfterHeader (io_parse_time io) (header_Get (resp_header resp) ''Retry-After'') now,
           he_Body = body, he_code = (if complete then parseHTTPErrorCode (io_code io) payload else [])\<rparr>)
          (truncateErrorBody (io_case io) payload))"

section \<open>Sending\<close>

definition refreshAuthEpoch :: "APIClient \<Rightarrow> creq \<Rightarrow> go_error \<Rightarrow> bool \<Rightarrow> bool \<times> APIClient \<times> bool" where
  "refreshAuthEpoch c req err refreshed =
     (case as_HTTPError err of
        None \<Rightarrow> (False, c, refreshed)
      | Some e \<Rightarrow>
          if he_StatusCode e \<noteq> 401 \<or> HTTPErrorCode err \<noteq> authEpochMismatchCode then (False, c, refreshed)
          else (case cut_at CHR ''.'' (header_Get (cr_header req) HeaderIrisNonce) of (used, _, bound) \<Rightarrow>
            if \<not> bound \<or> \<not> validAuthEpoch used \<or> ac_signer c = None then (False, c, refreshed)
            else let c1 = (if ac_epoch c = used then c\<lparr>ac_epoch := []\<rparr> else c) in
              if refreshed then (False, c1, refreshed) else (True, c1, True)))"

text \<open>One round of the loop of \<open>do\<close>: a result, or the replay to send next.\<close>

type_synonym do_result = "(go_error, http_response) result option"

definition do_round ::
  "client_io \<Rightarrow> string \<Rightarrow> string \<Rightarrow> string \<Rightarrow> bool \<Rightarrow> creq \<Rightarrow> APIClient \<Rightarrow> bool
     \<Rightarrow> (do_result, creq) result \<times> APIClient \<times> bool" where
  "do_round io op path errURL idempotent req c refreshed =
     (case http_Do io req c of
        (Inl err, c1) \<Rightarrow> (Inl (Some (Inl (TransportError op errURL err idempotent))), c1, refreshed)
      | (Inr resp, c1) \<Rightarrow>
          if isSuccessfulHTTPStatus (resp_status resp) then (Inl (Some (Inr resp)), c1, refreshed)
          else (case readErrorResponse io (io_now io (length (ac_sent c1))) path resp of
              None \<Rightarrow> (Inl None, c1, refreshed)
            | Some he \<Rightarrow>
                (case rb_close (resp_body resp) of
                   Some closeErr \<Rightarrow>
                     (Inl (Some (Inl (stopReplyRetryError (WrapErr ''close response body'' [HTTPErr he, closeErr])))), c1, refreshed)
                 | None \<Rightarrow>
                     (case refreshAuthEpoch c1 req (HTTPErr he) refreshed of
                        (False, c2, refreshed') \<Rightarrow>
                          (Inl (Some (Inl (if errors_Is (HTTPErr he) ErrNotSent
                              then stopReplyRetryError (WrapErr op [HTTPErr he]) else WrapErr op [HTTPErr he]))), c2, refreshed')
                      | (True, c2, refreshed') \<Rightarrow>
                          (case signRequest io c2 req (cr_method req) path (header_Get (cr_header req) HeaderIrisBodySHA256) of
                             (Inl err, c3) \<Rightarrow> (Inl (Some (Inl (stopReplyRetryError err))), c3, refreshed')
                           | (Inr replay, c3) \<Rightarrow>
                               (case cr_body req of
                                  None \<Rightarrow> (Inr replay, c3, refreshed')
                                | Some _ \<Rightarrow>
                                    (case cr_get_body req of
                                       None \<Rightarrow> (Inl (Some (Inl (stopReplyRetryError (WrapErr ''replayable body'' [Sentinel ErrNotSent])))), c3, refreshed')
                                     | Some (Inl err) \<Rightarrow>
                                         (Inl (Some (Inl (stopReplyRetryError (WrapErr ''replay request body'' [Sentinel ErrNotSent, err])))), c3, refreshed')
                                     | Some (Inr b) \<Rightarrow> (Inr (replay\<lparr>cr_body := Some b\<rparr>), c3, refreshed')))))))) "

lemma refreshAuthEpoch_once:
  "refreshAuthEpoch c req err refreshed = (True, c', refreshed') \<Longrightarrow> \<not> refreshed \<and> refreshed'"
  by (auto simp: refreshAuthEpoch_def Let_def split: option.splits if_splits prod.splits)

lemma do_round_replay_once:
  "do_round io op path errURL idempotent req c refreshed = (Inr replay, c', refreshed') \<Longrightarrow> \<not> refreshed \<and> refreshed'"
  by (auto simp: do_round_def split: prod.splits sum.splits option.splits if_splits bool.splits dest: refreshAuthEpoch_once)

function client_do ::
  "client_io \<Rightarrow> string \<Rightarrow> string \<Rightarrow> string \<Rightarrow> bool \<Rightarrow> creq \<Rightarrow> APIClient \<Rightarrow> bool \<Rightarrow> do_result \<times> APIClient \<times> bool" where
  "client_do io op path errURL idempotent req c refreshed =
     (case do_round io op path errURL idempotent req c refreshed of
        (Inl r, c', refreshed') \<Rightarrow> (r, c', refreshed')
      | (Inr replay, c', refreshed') \<Rightarrow> client_do io op path errURL idempotent replay c' refreshed')"
  by pat_completeness auto
termination
  by (relation "measure (\<lambda>(io, op, path, errURL, idempotent, req, c, refreshed). if refreshed then 0 else 1)")
    (auto dest: do_round_replay_once [OF sym])

declare client_do.simps [simp del]

text \<open>\<open>url_redact\<close> is \<open>url.Parse\<close>, the four assignments that drop user, query and fragment, and \<open>URL.String\<close>.\<close>

definition redactedURLForError :: "(string \<Rightarrow> string option) \<Rightarrow> string \<Rightarrow> string" where
  "redactedURLForError url_redact raw =
     (let target = trim_space raw in
      if target = [] then []
      else let fallback = (if list_ex (\<lambda>ch. ch \<in> set ''?#@'') target then ''request'' else target) in
        case url_redact target of
          Some u \<Rightarrow> (let s = trim_space u in if s \<noteq> [] then s else fallback)
        | None \<Rightarrow> fallback)"

text \<open>
  \<open>TransportError.Error\<close>: \<open>None\<close> is the nil pointer; \<open>errText\<close> is the text of the wrapped error, \<open>None\<close> when
  there is none.
\<close>

definition TransportError_Error :: "(string \<Rightarrow> string option) \<Rightarrow> (string \<times> string \<times> string option) option \<Rightarrow> string" where
  "TransportError_Error url_redact e =
     (case e of
        None \<Rightarrow> ''<nil>''
      | Some (op, raw, errText) \<Rightarrow>
          let prefix = trim_space (trim_space op @ '' '' @ redactedURLForError url_redact raw);
              shown = (if prefix = [] then ''transport'' else prefix)
          in ''iris transport '' @ shown @ (case errText of None \<Rightarrow> [] | Some s \<Rightarrow> '': '' @ s))"

text \<open>A URL that does not parse is shown only if it has no query, fragment or user.\<close>

lemma redacted_unparsed: "url_redact (trim_space raw) = None \<Longrightarrow> list_all (\<lambda>ch. ch \<notin> set ''?#@'') (redactedURLForError url_redact raw)"
  by (auto simp: redactedURLForError_def Let_def list_ex_iff list_all_iff)

definition doSigned ::
  "client_io \<Rightarrow> (string \<Rightarrow> string option) \<Rightarrow> APIClient \<Rightarrow> string \<Rightarrow> string \<Rightarrow> do_result \<times> APIClient" where
  "doSigned io url_redact c method path =
     (let op = to_lower (io_case io) method in
      case newSignedRequest io c method path None of
        (Inl err, c1) \<Rightarrow> (Some (Inl (WrapErr op [err])), c1)
      | (Inr req, c1) \<Rightarrow>
          (case client_do io op path (redactedURLForError url_redact (cr_url req)) True req c1 False of
             (r, c2, _) \<Rightarrow> (r, c2)))"

definition Ping :: "client_io \<Rightarrow> (string \<Rightarrow> string option) \<Rightarrow> APIClient \<Rightarrow> go_error option option \<times> APIClient" where
  "Ping io url_redact c =
     (case newRequest io c ''GET'' PathReady NilBody of
        Inl err \<Rightarrow> (Some (Some (WrapErr ''ping'' [err])), c)
      | Inr req \<Rightarrow>
          (case http_Do io req c of
             (Inl err, c1) \<Rightarrow> (Some (Some (TransportError ''ping'' (redactedURLForError url_redact (cr_url req)) err True)), c1)
           | (Inr resp, c1) \<Rightarrow>
               if resp_status resp \<noteq> 200 then
                 (map_option (\<lambda>he. Some (WrapErr ''ping'' [HTTPErr he]))
                    (readErrorResponse io (io_now io (length (ac_sent c1))) PathReady resp), c1)
               else (Some None, c1)))"

section \<open>What the steps send and keep\<close>

text \<open>Authentication may send a discovery request; it keeps everything of the request but the four headers.\<close>

definition iris_auth_headers :: "string set" where
  "iris_auth_headers = {HeaderIrisTimestamp, HeaderIrisNonce, HeaderIrisSignature, HeaderIrisBodySHA256}"

definition same_but_auth :: "creq \<Rightarrow> creq \<Rightarrow> bool" where
  "same_but_auth q r \<longleftrightarrow> cr_method r = cr_method q \<and> cr_url r = cr_url q \<and> cr_body r = cr_body q \<and>
     cr_get_body r = cr_get_body q \<and> cr_content_length r = cr_content_length q \<and>
     (\<forall>k. CanonicalHeaderKey k \<notin> iris_auth_headers \<longrightarrow> header_Values (cr_header r) k = header_Values (cr_header q) k)"

definition discovery_of :: "APIClient \<Rightarrow> creq \<Rightarrow> bool" where
  "discovery_of c p \<longleftrightarrow> cr_method p = ''GET'' \<and> cr_url p = ac_baseURL c @ authEpochPath \<and> cr_body p = None"

definition same_config :: "APIClient \<Rightarrow> APIClient \<Rightarrow> bool" where
  "same_config c c' \<longleftrightarrow> ac_baseURL c' = ac_baseURL c \<and> ac_http1ProbeOnly c' = ac_http1ProbeOnly c \<and>
     (ac_signer c' = None \<longleftrightarrow> ac_signer c = None)"

lemma newRequest_shape:
  "newRequest io c method path body = Inr req \<Longrightarrow> cr_method req = method \<and> cr_url req = ac_baseURL c @ path"
  by (auto simp: newRequest_def split: if_splits)

lemma authEpoch_run:
  assumes "authEpoch io c = (r, c')"
  shows "\<exists>probes. ac_sent c' = ac_sent c @ probes \<and> length probes \<le> 1 \<and> list_all (discovery_of c) probes"
    and "same_config c c'" and "ac_signer c' = ac_signer c"
  using assms
  by (auto simp: authEpoch_def http_Do_def same_config_def discovery_of_def newRequest_def
      split: option.splits if_splits sum.splits)

lemma SetIrisHMACHeaders_others:
  assumes "SetIrisHMACHeaders uc choice nowMs random hdr signer method path sha epoch = Inr (hdr', signer')"
  shows "CanonicalHeaderKey k \<notin> iris_auth_headers \<Longrightarrow> header_Values hdr' k = header_Values hdr k"
    and "header_Get hdr' HeaderIrisBodySHA256 = sha" and "header_Get hdr' HeaderIrisNonce = GenerateNonce random epoch"
  using assms
  by (auto simp: SetIrisHMACHeaders_def SignIrisCanonicalWithSigner_def Let_def iris_auth_headers_def
      header_Values_Set header_Get_Set split: prod.splits)

lemma signRequest_run:
  assumes "signRequest io c req method path sha = (r, c')"
  shows "\<exists>probes. ac_sent c' = ac_sent c @ probes \<and> length probes \<le> 1 \<and> list_all (discovery_of c) probes"
    and "same_config c c'"
    and "r = Inr q \<Longrightarrow> same_but_auth req q \<and>
      (ac_signer c \<noteq> None \<longrightarrow> header_Get (cr_header q) HeaderIrisBodySHA256 = sha)"
proof -
  obtain a c1 where a: "authEpoch io c = (a, c1)" by fastforce
  note run = authEpoch_run [OF a]
  show "\<exists>probes. ac_sent c' = ac_sent c @ probes \<and> length probes \<le> 1 \<and> list_all (discovery_of c) probes"
    using run(1) assms a by (auto simp: signRequest_def Let_def split: option.splits sum.splits)
  show "same_config c c'"
    using run(2) assms a
    by (auto simp: signRequest_def Let_def same_config_def split: option.splits sum.splits)
  show "r = Inr q \<Longrightarrow> same_but_auth req q \<and> (ac_signer c \<noteq> None \<longrightarrow> header_Get (cr_header q) HeaderIrisBodySHA256 = sha)"
    using assms a SetIrisHMACHeaders_others
    by (fastforce simp: signRequest_def Let_def same_but_auth_def split: option.splits sum.splits)
qed

lemma cut_at_prefix: "cut_at x s = (a, b, f) \<Longrightarrow> prefix a s"
  by (induction x s arbitrary: a rule: cut_at.induct) (auto split: if_splits prod.splits)

text \<open>What \<open>refreshAuthEpoch\<close> did and when.\<close>

lemma refreshAuthEpoch_run:
  assumes "refreshAuthEpoch c req err refreshed = (b, c', refreshed')"
  shows "ac_sent c' = ac_sent c" and "same_config c c'" and "ac_signer c' = ac_signer c"
    and "ac_epoch c' = ac_epoch c \<or> ac_epoch c' = [] \<and> prefix (ac_epoch c) (header_Get (cr_header req) HeaderIrisNonce)"
    and "b \<Longrightarrow> ac_signer c \<noteq> None \<and> (\<exists>e. as_HTTPError err = Some e \<and> he_StatusCode e = 401 \<and> he_code e = authEpochMismatchCode)"
  using assms
  by (auto simp: refreshAuthEpoch_def Let_def same_config_def HTTPErrorCode_def split: option.splits if_splits prod.splits
      dest!: cut_at_prefix)

text \<open>The server refused the request because of its epoch, or the network says it was not sent.\<close>

definition epoch_refused :: "client_io \<Rightarrow> string \<Rightarrow> creq list \<Rightarrow> creq \<Rightarrow> bool" where
  "epoch_refused io path sent req \<longleftrightarrow>
     (\<exists>resp he. io_do io sent req = Inr resp \<and> resp_status resp = 401 \<and>
        readErrorResponse io (io_now io (Suc (length sent))) path resp = Some he \<and> he_code he = authEpochMismatchCode)"

definition without_effect :: "client_io \<Rightarrow> string \<Rightarrow> creq list \<Rightarrow> creq \<Rightarrow> bool" where
  "without_effect io path sent req \<longleftrightarrow>
     epoch_refused io path sent req \<or> (\<exists>e. io_do io sent req = Inl e \<and> errors_Is e ErrNotSent)"

text \<open>
  What the program relies on of its HTTP client and contexts: their errors never carry the
  client's own classification of an unknown outcome, and closing a body never claims that the
  request was not sent.
\<close>

definition io_honest :: "client_io \<Rightarrow> bool" where
  "io_honest io \<longleftrightarrow>
     (\<forall>n e. io_ctx io n = Some e \<longrightarrow> is_ctx_error e) \<and>
     (\<forall>sent q e. io_do io sent q = Inl e \<longrightarrow> \<not> errors_Is e ErrTransport) \<and>
     (\<forall>sent q resp e. io_do io sent q = Inr resp \<and> (rb_end (resp_body resp) = Some e \<or> rb_close (resp_body resp) = Some e) \<longrightarrow>
        \<not> errors_Is e ErrTransport \<and> \<not> errors_Is e ErrNotSent)"

lemma readErrorResponse_status: "readErrorResponse io now path resp = Some he \<Longrightarrow> he_StatusCode he = resp_status resp"
  by (auto simp: readErrorResponse_def split: prod.splits)

lemma http_not_sent_iff: "errors_Is (HTTPErr e) ErrNotSent \<longleftrightarrow> he_StatusCode e = 401 \<and> he_code e = authEpochMismatchCode"
  by (auto simp: HTTPError_Is_def http_status_defs)

text \<open>The cases of a round.\<close>

lemma do_round_cases:
  assumes "do_round io op path errURL idem req c refreshed = (x, c', refreshed')"
  obtains
    (network) e where "io_do io (ac_sent c) req = Inl e" "x = Inl (Some (Inl (TransportError op errURL e idem)))"
      "c' = c\<lparr>ac_sent := ac_sent c @ [req]\<rparr>" "refreshed' = refreshed"
  | (success) resp where "io_do io (ac_sent c) req = Inr resp" "isSuccessfulHTTPStatus (resp_status resp)"
      "x = Inl (Some (Inr resp))" "c' = c\<lparr>ac_sent := ac_sent c @ [req]\<rparr>" "refreshed' = refreshed"
  | (panic) resp where "io_do io (ac_sent c) req = Inr resp" "x = Inl None" "c' = c\<lparr>ac_sent := ac_sent c @ [req]\<rparr>"
      "refreshed' = refreshed"
  | (unclosed) resp he e where "io_do io (ac_sent c) req = Inr resp"
      "readErrorResponse io (io_now io (Suc (length (ac_sent c)))) path resp = Some he" "rb_close (resp_body resp) = Some e"
      "x = Inl (Some (Inl (stopReplyRetryError (WrapErr ''close response body'' [HTTPErr he, e]))))"
      "c' = c\<lparr>ac_sent := ac_sent c @ [req]\<rparr>" "refreshed' = refreshed"
  | (refused) resp he where "io_do io (ac_sent c) req = Inr resp"
      "readErrorResponse io (io_now io (Suc (length (ac_sent c)))) path resp = Some he"
      "refreshAuthEpoch (c\<lparr>ac_sent := ac_sent c @ [req]\<rparr>) req (HTTPErr he) refreshed = (False, c', refreshed')"
      "x = Inl (Some (Inl (if errors_Is (HTTPErr he) ErrNotSent
          then stopReplyRetryError (WrapErr op [HTTPErr he]) else WrapErr op [HTTPErr he])))"
  | (stale) resp he c2 s where "io_do io (ac_sent c) req = Inr resp"
      "readErrorResponse io (io_now io (Suc (length (ac_sent c)))) path resp = Some he"
      "refreshAuthEpoch (c\<lparr>ac_sent := ac_sent c @ [req]\<rparr>) req (HTTPErr he) refreshed = (True, c2, refreshed')"
      "signRequest io c2 req (cr_method req) path (header_Get (cr_header req) HeaderIrisBodySHA256) = (s, c')"
      "x = (case s of
          Inl err \<Rightarrow> Inl (Some (Inl (stopReplyRetryError err)))
        | Inr replay \<Rightarrow>
            (case cr_body req of
               None \<Rightarrow> Inr replay
             | Some _ \<Rightarrow>
                 (case cr_get_body req of
                    None \<Rightarrow> Inl (Some (Inl (stopReplyRetryError (WrapErr ''replayable body'' [Sentinel ErrNotSent]))))
                  | Some (Inl err) \<Rightarrow>
                      Inl (Some (Inl (stopReplyRetryError (WrapErr ''replay request body'' [Sentinel ErrNotSent, err]))))
                  | Some (Inr b) \<Rightarrow> Inr (replay\<lparr>cr_body := Some b\<rparr>))))"
proof (cases "io_do io (ac_sent c) req")
  case (Inl e)
  with assms show thesis by (intro network [of e]) (auto simp: do_round_def http_Do_def)
next
  case (Inr resp)
  note sent = assms [unfolded do_round_def http_Do_def] Inr
  show thesis
  proof (cases "isSuccessfulHTTPStatus (resp_status resp)")
    case True
    with sent show thesis by (intro success [of resp]) auto
  next
    case False
    show thesis
    proof (cases "readErrorResponse io (io_now io (Suc (length (ac_sent c)))) path resp")
      case None
      with sent False show thesis by (intro panic [of resp]) auto
    next
      case (Some he)
      show thesis
      proof (cases "rb_close (resp_body resp)")
        case (Some e)
        with sent False \<open>readErrorResponse _ _ _ _ = Some he\<close> show thesis by (intro unclosed [of resp he e]) auto
      next
        case None
        obtain b c2 r2 where ref: "refreshAuthEpoch (c\<lparr>ac_sent := ac_sent c @ [req]\<rparr>) req (HTTPErr he) refreshed = (b, c2, r2)"
          by (meson prod_cases3)
        obtain s c3 where sg: "signRequest io c2 req (cr_method req) path (header_Get (cr_header req) HeaderIrisBodySHA256) = (s, c3)"
          by fastforce
        show thesis
        proof (cases b)
          case True
          with sent False Some None ref sg show thesis
            by (intro stale [of resp he c2 s]) (auto split: sum.splits option.splits)
        next
          case b: False
          with sent False Some None ref show thesis by (intro refused [of resp he]) auto
        qed
      qed
    qed
  qed
qed


lemma client_do_cases:
  assumes "client_do io op path errURL idem req c refreshed = (r, c', refreshed')"
  obtains
    (once) "do_round io op path errURL idem req c refreshed = (Inl r, c', refreshed')"
  | (twice) replay c1 where "do_round io op path errURL idem req c refreshed = (Inr replay, c1, True)" "\<not> refreshed"
      "do_round io op path errURL idem replay c1 True = (Inl r, c', refreshed')"
proof -
  obtain x c1 r1 where first: "do_round io op path errURL idem req c refreshed = (x, c1, r1)" by (meson prod_cases3)
  show thesis
  proof (cases x)
    case (Inl r0)
    with first assms show thesis by (intro once) (simp add: client_do.simps [of io op path errURL idem req])
  next
    case (Inr replay)
    from do_round_replay_once [OF first [unfolded Inr]] have fl: "\<not> refreshed" "r1" by auto
    obtain y c2 r2 where second: "do_round io op path errURL idem replay c1 True = (y, c2, r2)" by (meson prod_cases3)
    with do_round_replay_once obtain r0 where y: "y = Inl r0" by (cases y) fastforce+
    have "client_do io op path errURL idem req c refreshed = (r0, c2, r2)"
      using first second by (simp add: client_do.simps [of io op path errURL idem] Inr fl(2) y)
    with assms first second fl Inr y show thesis by (intro twice [of replay c1]) auto
  qed
qed

lemma do_round_sends:
  assumes "do_round io op path errURL idem req c refreshed = (x, c', refreshed')"
  shows "\<exists>probes. ac_sent c' = ac_sent c @ req # probes \<and> length probes \<le> 1 \<and> list_all (discovery_of c) probes \<and>
      (probes \<noteq> [] \<longrightarrow> \<not> refreshed)"
    and "same_config c c'"
    and "x = Inr q \<Longrightarrow> epoch_refused io path (ac_sent c) req \<and> cr_method q = cr_method req \<and> cr_url q = cr_url req \<and>
      cr_get_body q = cr_get_body req \<and> cr_content_length q = cr_content_length req \<and>
      (\<forall>k. CanonicalHeaderKey k \<notin> iris_auth_headers \<longrightarrow> header_Values (cr_header q) k = header_Values (cr_header req) k) \<and>
      header_Get (cr_header q) HeaderIrisBodySHA256 = header_Get (cr_header req) HeaderIrisBodySHA256 \<and>
      (case cr_body req of None \<Rightarrow> cr_body q = None | Some _ \<Rightarrow> cr_get_body req = Some (Inr (the (cr_body q))) \<and> cr_body q \<noteq> None)"
proof -
  have sc: "same_config (c\<lparr>ac_sent := ac_sent c @ [req]\<rparr>) c2 \<Longrightarrow> same_config c c2" for c2 by (simp add: same_config_def)
  from assms have "(\<exists>probes. ac_sent c' = ac_sent c @ req # probes \<and> length probes \<le> 1 \<and> list_all (discovery_of c) probes \<and>
      (probes \<noteq> [] \<longrightarrow> \<not> refreshed)) \<and> same_config c c'"
  proof (cases rule: do_round_cases)
    case (refused resp he)
    from refreshAuthEpoch_run [OF refused(3)] sc show ?thesis by auto
  next
    case (stale resp he c2 s)
    note ref = refreshAuthEpoch_run [OF stale(3)]
    from refreshAuthEpoch_once [OF stale(3)] have "\<not> refreshed" by simp
    moreover from signRequest_run(1) [OF stale(4)] obtain probes where
      "ac_sent c' = ac_sent c2 @ probes" "length probes \<le> 1" "list_all (discovery_of c2) probes" by blast
    moreover have "discovery_of c2 = discovery_of c" using ref(2) by (auto simp: discovery_of_def same_config_def fun_eq_iff)
    moreover have "same_config c c'" using ref(2) signRequest_run(2) [OF stale(4)] by (auto simp: same_config_def)
    ultimately show ?thesis using ref(1) by simp
  qed (auto simp: same_config_def)
  then show "\<exists>probes. ac_sent c' = ac_sent c @ req # probes \<and> length probes \<le> 1 \<and> list_all (discovery_of c) probes \<and>
      (probes \<noteq> [] \<longrightarrow> \<not> refreshed)" and "same_config c c'" by auto
  assume q: "x = Inr q"
  from assms show "epoch_refused io path (ac_sent c) req \<and> cr_method q = cr_method req \<and> cr_url q = cr_url req \<and>
      cr_get_body q = cr_get_body req \<and> cr_content_length q = cr_content_length req \<and>
      (\<forall>k. CanonicalHeaderKey k \<notin> iris_auth_headers \<longrightarrow> header_Values (cr_header q) k = header_Values (cr_header req) k) \<and>
      header_Get (cr_header q) HeaderIrisBodySHA256 = header_Get (cr_header req) HeaderIrisBodySHA256 \<and>
      (case cr_body req of None \<Rightarrow> cr_body q = None | Some _ \<Rightarrow> cr_get_body req = Some (Inr (the (cr_body q))) \<and> cr_body q \<noteq> None)"
  proof (cases rule: do_round_cases)
    case (stale resp he c2 s)
    note ref = refreshAuthEpoch_run [OF stale(3)]
    from ref(5) have mm: "ac_signer c2 \<noteq> None" "he_StatusCode he = 401" "he_code he = authEpochMismatchCode" using ref(3) by auto
    with stale(1,2) have "epoch_refused io path (ac_sent c) req"
      using readErrorResponse_status [OF stale(2)] by (auto simp: epoch_refused_def)
    moreover obtain replay where s: "s = Inr replay" using q stale(5) by (cases s) auto
    moreover note signRequest_run(3) [OF stale(4) s] mm(1)
    ultimately show ?thesis
      using q stale(5) by (auto simp: same_but_auth_def split: option.splits sum.splits)
  qed (use q in auto)
qed

section \<open>Errors of a round\<close>

lemma authEpochTransportError_known:
  "\<not> errors_Is e ErrTransport \<Longrightarrow> \<not> errors_Is (authEpochTransportError op e) ErrTransport"
  by (simp add: authEpochTransportError_def TransportError_Is_def)

lemma ctx_error_known: "is_ctx_error e \<Longrightarrow> \<not> errors_Is e ErrTransport"
  by (auto simp: is_ctx_error_def)

lemma epoch_fetch_error_known:
  "\<not> errors_Is e ErrTransport \<Longrightarrow> \<not> errors_Is (epoch_fetch_error e) ErrTransport"
  by (simp add: epoch_fetch_error_def)

lemma read_all_limited_end: "read_all_limited b n = (d, Some e) \<Longrightarrow> rb_end b = Some e"
  by (auto simp: read_all_limited_def split: if_splits)

lemma fetchAuthEpoch_known:
  assumes "io_honest io" and "fetchAuthEpoch pt eo now (io_do io sent q) = Inl e"
  shows "\<not> errors_Is e ErrTransport"
proof (cases "io_do io sent q")
  case (Inl err)
  with assms show ?thesis
    by (auto simp: fetchAuthEpoch_def io_honest_def intro!: authEpochTransportError_known)
next
  case (Inr resp)
  have "rb_end (resp_body resp) = Some err \<Longrightarrow> \<not> errors_Is err ErrTransport" for err
    using assms(1) Inr unfolding io_honest_def by blast
  with assms(2) Inr show ?thesis
    by (auto simp: fetchAuthEpoch_def HTTPError_Is_def http_status_defs dest!: read_all_limited_end
        dest: authEpochTransportError_known split: if_splits prod.splits option.splits)
qed

lemma authEpoch_known:
  assumes "io_honest io" and "authEpoch io c = (Inl e, c')"
  shows "\<not> errors_Is e ErrTransport"
proof -
  have ctx: "io_ctx io n = Some err \<Longrightarrow> \<not> errors_Is err ErrTransport" for n err
    using assms(1) ctx_error_known unfolding io_honest_def by blast
  have new: "newRequest io d ''GET'' authEpochPath NilBody = Inl err \<Longrightarrow> \<not> errors_Is err ErrTransport" for d err
    by (auto simp: newRequest_def split: if_splits)
  from assms(2) show ?thesis
    by (auto simp: authEpoch_def http_Do_def split: option.splits if_splits sum.splits
        dest: ctx authEpochTransportError_known new epoch_fetch_error_known fetchAuthEpoch_known [OF assms(1)])
qed

lemma signRequest_known:
  assumes "io_honest io" and "signRequest io c req method path sha = (Inl e, c')"
  shows "\<not> errors_Is e ErrTransport"
  using assms(2) authEpoch_known [OF assms(1)]
  by (auto simp: signRequest_def Let_def split: option.splits sum.splits prod.splits)

lemma do_round_error:
  assumes "io_honest io" and "do_round io op path errURL idem req c refreshed = (Inl (Some (Inl e)), c', refreshed')"
    and "\<And>err. cr_get_body req = Some (Inl err) \<Longrightarrow> \<not> errors_Is err ErrTransport"
  shows "decided e" and "errors_Is e ErrNotSent \<Longrightarrow> without_effect io path (ac_sent c) req"
proof -
  from assms(2) have "decided e \<and> (errors_Is e ErrNotSent \<longrightarrow> without_effect io path (ac_sent c) req)"
  proof (cases rule: do_round_cases)
    case (network err)
    then have "\<not> errors_Is err ErrTransport" using assms(1) unfolding io_honest_def by blast
    with network show ?thesis by (auto simp: decided_def TransportError_Is_def without_effect_def)
  next
    case (unclosed resp he err)
    then have "\<not> errors_Is err ErrTransport" "\<not> errors_Is err ErrNotSent" using assms(1) unfolding io_honest_def by blast+
    with unclosed readErrorResponse_status [OF unclosed(2)] show ?thesis
      by (auto simp: decided_def without_effect_def epoch_refused_def HTTPError_Is_def http_status_defs split: if_splits)
  next
    case (refused resp he)
    with readErrorResponse_status [OF refused(2)] show ?thesis
      by (auto simp: decided_def without_effect_def epoch_refused_def HTTPError_Is_def http_status_defs split: if_splits)
  next
    case (stale resp he c2 s)
    from refreshAuthEpoch_run(5) [OF stale(3)] have "he_StatusCode he = 401" "he_code he = authEpochMismatchCode" by auto
    with stale(1,2) readErrorResponse_status [OF stale(2)] have "epoch_refused io path (ac_sent c) req"
      by (auto simp: epoch_refused_def)
    moreover have "\<not> errors_Is e ErrTransport"
      using stale(5) assms(3) signRequest_known [OF assms(1), of c2 req "cr_method req" path _ _ c'] stale(4)
      by (auto split: sum.splits option.splits)
    ultimately show ?thesis by (simp add: decided_def without_effect_def)
  qed auto
  then show "decided e" and "errors_Is e ErrNotSent \<Longrightarrow> without_effect io path (ac_sent c) req" by auto
qed

lemma do_round_flag: "do_round io op path errURL idem req c True = (x, c', refreshed') \<Longrightarrow> refreshed'"
  by (auto simp: do_round_def refreshAuthEpoch_def Let_def split: prod.splits sum.splits option.splits if_splits bool.splits)

definition replay_of :: "client_io \<Rightarrow> string \<Rightarrow> creq list \<Rightarrow> creq \<Rightarrow> creq \<Rightarrow> bool" where
  "replay_of io path sent req q \<longleftrightarrow>
     epoch_refused io path sent req \<and> cr_method q = cr_method req \<and> cr_url q = cr_url req \<and>
     cr_content_length q = cr_content_length req \<and>
     (\<forall>k. CanonicalHeaderKey k \<notin> iris_auth_headers \<longrightarrow> header_Values (cr_header q) k = header_Values (cr_header req) k) \<and>
     header_Get (cr_header q) HeaderIrisBodySHA256 = header_Get (cr_header req) HeaderIrisBodySHA256 \<and>
     (case cr_body req of None \<Rightarrow> cr_body q = None
      | Some _ \<Rightarrow> cr_body q \<noteq> None \<and> cr_get_body req = Some (Inr (the (cr_body q))))"

lemma client_do_sends:
  assumes "client_do io op path errURL idem req c refreshed = (r, c', refreshed')"
  shows "\<exists>probes replays. ac_sent c' = ac_sent c @ req # probes @ replays \<and> length probes \<le> 1 \<and> length replays \<le> 1 \<and>
    list_all (discovery_of c) probes \<and> (refreshed \<longrightarrow> probes = [] \<and> replays = []) \<and>
    (\<forall>q \<in> set replays. replay_of io path (ac_sent c) req q \<and> refreshed')"
  using assms
proof (cases rule: client_do_cases)
  case once
  from do_round_sends(1) [OF once] obtain probes where
    "ac_sent c' = ac_sent c @ req # probes" "length probes \<le> 1" "list_all (discovery_of c) probes" "probes \<noteq> [] \<longrightarrow> \<not> refreshed"
    by blast
  then show ?thesis by (intro exI [of _ probes] exI [of _ "[]"]) auto
next
  case (twice replay c1)
  from do_round_sends(1) [OF twice(1)] obtain probes where probes:
    "ac_sent c1 = ac_sent c @ req # probes" "length probes \<le> 1" "list_all (discovery_of c) probes" by blast
  from do_round_sends(1) [OF twice(3)] have "ac_sent c' = ac_sent c1 @ [replay]" by auto
  moreover have "replay_of io path (ac_sent c) req replay"
    using do_round_sends(3) [OF twice(1) refl] by (auto simp: replay_of_def split: option.splits)
  moreover note do_round_flag [OF twice(3)]
  ultimately show ?thesis using probes twice(2) by (intro exI [of _ probes] exI [of _ "[replay]"]) simp
qed

lemma split_once:
  assumes "before @ q # after = x # ps" and "list_all P ps" and "\<not> P q"
  shows "before = [] \<and> q = x"
  using assms by (cases before) auto

lemma split_twice:
  assumes "before @ q # after = x # ps @ [y]" and "list_all P ps" and "\<not> P q"
  shows "before = [] \<and> q = x \<or> before = x # ps \<and> q = y"
proof (cases before)
  case (Cons b bs)
  with assms show ?thesis by (cases after rule: rev_cases) auto
qed (use assms in auto)

section \<open>Claims\<close>


text \<open>
  C27: an error is never at once an unknown outcome and a request that was not sent; and when a call
  says that its request was not sent, then every request it sent beside discovery either was
  refused by the server for its epoch or never left according to the network.
\<close>

theorem not_sent_has_no_effect:
  assumes "io_honest io" and "client_do io op path errURL idem req c refreshed = (Some (Inl e), c', refreshed')"
    and "\<And>err. cr_get_body req = Some (Inl err) \<Longrightarrow> \<not> errors_Is err ErrTransport"
  shows "decided e \<and>
    (errors_Is e ErrNotSent \<longrightarrow>
      (\<forall>before q after. ac_sent c' = ac_sent c @ before @ q # after \<and> \<not> discovery_of c q \<longrightarrow>
         without_effect io path (ac_sent c @ before) q))"
  using assms(2)
proof (cases rule: client_do_cases)
  case once
  from do_round_sends(1) [OF once] obtain probes where sent:
    "ac_sent c' = ac_sent c @ req # probes" "list_all (discovery_of c) probes" by blast
  then have "before = [] \<and> q = req" if "ac_sent c' = ac_sent c @ before @ q # after" "\<not> discovery_of c q" for before q after
    using that split_once by fastforce
  with do_round_error [OF assms(1) once assms(3)] show ?thesis by fastforce
next
  case (twice replay c1)
  from do_round_sends(1) [OF twice(1)] obtain probes where probes:
    "ac_sent c1 = ac_sent c @ req # probes" "list_all (discovery_of c) probes" by blast
  from do_round_sends(1) [OF twice(3)] have sent: "ac_sent c' = ac_sent c @ req # probes @ [replay]" by (auto simp: probes(1))
  have gb: "cr_get_body replay = Some (Inl err) \<Longrightarrow> \<not> errors_Is err ErrTransport" for err
    using do_round_sends(3) [OF twice(1) refl] assms(3) by auto
  note last = do_round_error [OF assms(1) twice(3) gb]
  have first: "without_effect io path (ac_sent c) req"
    using do_round_sends(3) [OF twice(1) refl] by (auto simp: without_effect_def)
  have "before = [] \<and> q = req \<or> before = req # probes \<and> q = replay"
    if "ac_sent c' = ac_sent c @ before @ q # after" "\<not> discovery_of c q" for before q after
    using that split_twice [OF _ probes(2)] by (simp add: sent)
  with first last probes(1) show ?thesis by fastforce
qed

section \<open>Witnesses\<close>

text \<open>A client whose network refuses every request before sending it.\<close>

definition offline_io :: client_io where
  "offline_io =
     \<lparr>io_case = ascii_case, io_parse_time = \<lambda>_. None, io_code = \<lambda>_. None, io_epoch = \<lambda>_. None, io_url_ok = \<lambda>_. True,
      io_inject = id, io_do = \<lambda>_ _. Inl (Sentinel ErrNotSent), io_ctx = \<lambda>_. None, io_now = \<lambda>_. 0,
      io_random = \<lambda>_. replicate 32 (CHR ''r''), io_pool = \<lambda>_. None\<rparr>"

definition sample_client :: APIClient where
  "sample_client = \<lparr>ac_baseURL = ''https://iris'', ac_signer = None, ac_epoch = [], ac_http1ProbeOnly = False, ac_sent = []\<rparr>"

definition sample_creq :: creq where
  "sample_creq = \<lparr>cr_method = ''POST'', cr_url = ''https://iris/reply'', cr_header = [], cr_body = Some ''x'', cr_get_body = Some (Inr ''x''), cr_content_length = 1\<rparr>"

lemma offline_run:
  "client_do offline_io ''post'' ''/reply'' ''/reply'' True sample_creq sample_client False =
     (Some (Inl (TransportError ''post'' ''/reply'' (Sentinel ErrNotSent) True)), sample_client\<lparr>ac_sent := [sample_creq]\<rparr>, False)"
  by (simp add: client_do.simps do_round_def http_Do_def offline_io_def sample_client_def)

lemma offline_honest: "io_honest offline_io"
  by (simp add: io_honest_def offline_io_def)


theorem not_sent_has_no_effect_witness:
  "decided (TransportError ''post'' ''/reply'' (Sentinel ErrNotSent) True) \<and> without_effect offline_io ''/reply'' [] sample_creq"
  using not_sent_has_no_effect [OF offline_honest offline_run]
  by (auto simp: sample_creq_def sample_client_def discovery_of_def)

section \<open>Discovery alone and discovery shared\<close>

text \<open>
  \<open>authEpoch\<close> of a single call is a run of the machine of \<open>Auth_Epoch\<close> in which no other call takes a step:
  the call goes from the head of its loop to its result, and the cache ends with the epoch of the client.
\<close>

definition epoch_of_client :: "APIClient \<Rightarrow> authEpochCache" where
  "epoch_of_client c = \<lparr>ec_value = ac_epoch c, ec_loading = None\<rparr>"

abbreviation epoch_run :: "client_io \<Rightarrow> epoch_state \<Rightarrow> epoch_state \<Rightarrow> bool" where
  "epoch_run io \<equiv> (epoch_step (io_parse_time io) (io_epoch io))\<^sup>*\<^sup>*"

lemma epoch_discovery_run:
  assumes "es_cache s = epoch_of_client c" and "es_calls s = xs @ Looking # ys" and "ac_epoch c = []"
    and "r = fetchAuthEpoch (io_parse_time io) (io_epoch io) now outcome \<or> (\<exists>e. r = Inl e)"
  shows "\<exists>s'. epoch_run io s s' \<and> es_calls s' = xs @ Finished (map_sum epoch_fetch_error id r) # ys \<and>
    es_cache s' = epoch_publish r (epoch_of_client c)"
proof -
  let ?s1 = "s\<lparr>es_cache := epoch_lead (es_next s) (es_cache s), es_next := Suc (es_next s), es_calls := xs @ Fetching (es_next s) # ys\<rparr>"
  let ?s2 = "?s1\<lparr>es_cache := epoch_publish r (es_cache ?s1), es_closed := insert (es_next s) (es_closed ?s1),
    es_calls := xs @ Finished (map_sum epoch_fetch_error id r) # ys\<rparr>"
  have "epoch_step (io_parse_time io) (io_epoch io) s ?s1"
    by (rule ep_lead) (use assms in \<open>auto simp: look_def epoch_of_client_def\<close>)
  moreover have "epoch_step (io_parse_time io) (io_epoch io) ?s1 ?s2"
    by (rule ep_publish) (use assms in auto)
  moreover have "es_cache ?s2 = epoch_publish r (epoch_of_client c)"
    using assms(1) by (auto simp: epoch_publish_def epoch_lead_def epoch_of_client_def split: sum.splits)
  ultimately show ?thesis by (intro exI [of _ ?s2]) auto
qed

lemma authEpoch_discovers:
  assumes "authEpoch io c = (r, c')" and "io_ctx io (length (ac_sent c)) = None" and "ac_epoch c = []"
  shows "\<exists>r0 now outcome. r = map_sum epoch_fetch_error id r0 \<and> epoch_of_client c' = epoch_publish r0 (epoch_of_client c) \<and>
    (r0 = fetchAuthEpoch (io_parse_time io) (io_epoch io) now outcome \<or> (\<exists>e. r0 = Inl e))"
proof (cases "newRequest io c ''GET'' authEpochPath NilBody")
  case (Inl err)
  with assms show ?thesis by (intro exI [of _ "Inl err"]) (auto simp: authEpoch_def epoch_of_client_def epoch_publish_def)
next
  case (Inr req)
  define now where "now = io_now io (Suc (length (ac_sent c)))"
  define r0 where "r0 = fetchAuthEpoch (io_parse_time io) (io_epoch io) now (io_do io (ac_sent c) req)"
  have "(r, c') = (case r0 of Inl err \<Rightarrow> (Inl (epoch_fetch_error err), c\<lparr>ac_sent := ac_sent c @ [req]\<rparr>)
      | Inr v \<Rightarrow> (Inr v, c\<lparr>ac_sent := ac_sent c @ [req], ac_epoch := v\<rparr>))"
    using assms Inr by (simp add: authEpoch_def http_Do_def now_def r0_def)
  then have "r = map_sum epoch_fetch_error id r0 \<and> epoch_of_client c' = epoch_publish r0 (epoch_of_client c)"
    using assms(3) by (cases r0) (auto simp: epoch_of_client_def epoch_publish_def)
  then show ?thesis using r0_def by blast
qed

lemma authEpoch_alone:
  assumes "authEpoch io c = (r, c')" and "es_cache s = epoch_of_client c" and "es_calls s = xs @ Looking # ys" and "io_honest io"
  shows "\<exists>s'. epoch_run io s s' \<and> es_calls s' = xs @ Finished r # ys \<and> es_cache s' = epoch_of_client c'"
proof (cases "io_ctx io (length (ac_sent c))")
  case (Some err)
  with assms(4) have "is_ctx_error err" by (auto simp: io_honest_def)
  from r_into_rtranclp [where r = "epoch_step (io_parse_time io) (io_epoch io)", OF ep_expired [OF assms(3) this]] Some assms(1,2)
  show ?thesis by (intro exI [of _ "s\<lparr>es_calls := xs @ Finished r # ys\<rparr>"]) (auto simp: authEpoch_def)
next
  case None
  show ?thesis
  proof (cases "ac_epoch c = []")
    case False
    then have "look (es_cache s) = Hit (ac_epoch c)" by (simp add: assms(2) look_def epoch_of_client_def)
    from r_into_rtranclp [where r = "epoch_step (io_parse_time io) (io_epoch io)", OF ep_hit [OF assms(3) this]] None False assms(1,2)
    show ?thesis by (intro exI [of _ "s\<lparr>es_calls := xs @ Finished r # ys\<rparr>"]) (auto simp: authEpoch_def)
  next
    case True
    with authEpoch_discovers [OF assms(1) None] obtain r0 now outcome where
      "r = map_sum epoch_fetch_error id r0" "epoch_of_client c' = epoch_publish r0 (epoch_of_client c)"
      "r0 = fetchAuthEpoch (io_parse_time io) (io_epoch io) now outcome \<or> (\<exists>e. r0 = Inl e)" by metis
    with epoch_discovery_run [OF assms(2,3) True this(3)] show ?thesis by simp
  qed
qed

text \<open>A refresh forgets the refused epoch as \<open>ep_forget\<close> does, or leaves the cache alone.\<close>

lemma refreshAuthEpoch_forgets:
  assumes "refreshAuthEpoch c req err refreshed = (again, c', refreshed')"
  shows "epoch_of_client c' = epoch_of_client c \<or> (\<exists>used. epoch_of_client c' = epoch_forget used (epoch_of_client c))"
  using assms by (auto simp: refreshAuthEpoch_def epoch_of_client_def epoch_forget_def Let_def split: option.splits if_splits prod.splits)

end
