(* ===== verification/Client_Decode.thy ===== *)
theory Client_Decode
  imports Client_Execute
begin

text \<open>
  Decoding of successful responses (\<open>internal/client/transport/execute.go\<close>, \<open>strict_json.go\<close>). The JSON
  decoder and the sizes of the reads that drain the trailer are arguments. The lemmas say exactly
  which bodies are accepted, and that a POST the server answered is never reported as anything but
  an unknown outcome when its answer cannot be used.
\<close>

section \<open>Limits\<close>

definition strictJSONResponseMaxBytes :: nat where "strictJSONResponseMaxBytes = 1048576"
definition typedJSONResponseMaxBytes :: nat where "typedJSONResponseMaxBytes = 16777216"
definition httpErrorBodyDrainMaxLen :: nat where "httpErrorBodyDrainMaxLen = httpErrorBodyMaxLen"
definition decodedBodyDrainMaxLen :: nat where "decodedBodyDrainMaxLen = httpErrorBodyDrainMaxLen"
definition successBodyDrainTimeout :: duration where "successBodyDrainTimeout = 100 * Millisecond"

lemmas decode_limits = typedJSONResponseMaxBytes_def decodedBodyDrainMaxLen_def httpErrorBodyDrainMaxLen_def
  httpErrorBodyMaxLen_def

definition drain_deadline :: "duration \<Rightarrow> duration" where
  "drain_deadline Timeout = (if 0 < Timeout then min successBodyDrainTimeout Timeout else successBodyDrainTimeout)"

section \<open>The trailer\<close>

definition json_space :: "char \<Rightarrow> bool" where
  "json_space ch \<longleftrightarrow> ch \<in> {CHR '' '', CHR 0x09, CHR 0x0D, CHR 0x0A}"

text \<open>The reads deliver \<open>chunks\<close>, then the error \<open>end\<close> (\<open>None\<close>: end of file); \<open>n\<close> counts the bytes read.\<close>

fun validateJSONTrailer :: "nat \<Rightarrow> bytes list \<Rightarrow> go_error option \<Rightarrow> nat \<times> go_error option" where
  "validateJSONTrailer n [] e = (n, map_option (\<lambda>err. WrapErr ''read response trailer'' [err]) e)"
| "validateJSONTrailer n (chunk # chunks) e =
     (if list_all json_space chunk then validateJSONTrailer (n + length chunk) chunks e
      else (n + length chunk, Some (Sentinel errUnexpectedResponseBytes)))"

text \<open>\<open>exhausted\<close> is \<open>body.N == 0\<close>; \<open>cause\<close> and \<open>ctxErr\<close> are \<open>context.Cause(ctx)\<close> and \<open>ctx.Err()\<close>.\<close>

definition classifyTrailerDrain ::
  "go_error option \<Rightarrow> go_error option \<Rightarrow> bool \<Rightarrow> nat \<Rightarrow> go_error option \<Rightarrow> go_error option" where
  "classifyTrailerDrain cause ctxErr exhausted read err =
     (if decodedBodyDrainMaxLen < read then Some (WrapErr ''limit'' [Sentinel ErrResponseTooLarge])
      else let err' = (if exhausted then Some (WrapErr [] (case_option [] (\<lambda>e. [e]) err @ [WrapErr ''limit'' [Sentinel ErrResponseTooLarge]])) else err) in
        case err' of
          None \<Rightarrow> None
        | Some e \<Rightarrow>
            if errors_Is e errUnexpectedResponseBytes \<or> errors_Is e ErrResponseTooLarge then Some e
            else if (case cause of Some x \<Rightarrow> errors_Is x ErrResponseDrainTimeout | None \<Rightarrow> False) then Some (Sentinel ErrResponseDrainTimeout)
            else (case ctxErr of Some x \<Rightarrow> Some (WrapErr ''drain response trailer'' [x]) | None \<Rightarrow> Some e))"

section \<open>Typed bodies\<close>

text \<open>
  What the decoder makes of a body: the value or its error, the offset behind the value, and the
  bytes it drew from the reader.
\<close>

record 't json_read =
  jr_value :: "(go_error, 't) result"
  jr_consumed :: nat
  jr_drawn :: nat

record 't decode_io =
  dc_decode :: "bytes \<Rightarrow> go_error option \<Rightarrow> 't json_read"
  dc_chunks :: "bytes \<Rightarrow> bytes list"
  dc_cause :: "go_error option"
  dc_ctx :: "go_error option"

definition limited_data :: "resp_stream \<Rightarrow> nat \<Rightarrow> bytes" where
  "limited_data b n = take n (rb_data b)"

definition limited_end :: "resp_stream \<Rightarrow> nat \<Rightarrow> go_error option" where
  "limited_end b n = (if n \<le> length (rb_data b) then None else rb_end b)"

text \<open>The arguments of the two \<open>LimitedReader\<close>s.\<close>

definition typed_limit :: nat where "typed_limit = typedJSONResponseMaxBytes + 1"
definition drain_limit :: nat where "drain_limit = decodedBodyDrainMaxLen + 1"

text \<open>Draining the trailer behind the value: \<open>data\<close> and \<open>fin\<close> are what the limited body delivers.\<close>

definition drain_trailer :: "'t decode_io \<Rightarrow> 't json_read \<Rightarrow> bytes \<Rightarrow> go_error option \<Rightarrow> go_error option" where
  "drain_trailer dc jr data fin =
     (let rest = drop (jr_consumed jr) data;
          windowEnd = (if drain_limit \<le> length rest then None else fin)
      in case validateJSONTrailer 0 (dc_chunks dc (take drain_limit rest)) windowEnd of (read, drainErr) \<Rightarrow>
        classifyTrailerDrain (dc_cause dc) (dc_ctx dc) (max (jr_drawn jr) (jr_consumed jr + read) = typed_limit) read drainErr)"

text \<open>\<open>decodeJSONBody\<close> up to the deferred \<open>Close\<close>; \<open>op\<close> is the lower-cased method.\<close>

definition decode_open_body ::
  "'t decode_io \<Rightarrow> string \<Rightarrow> string \<Rightarrow> string \<Rightarrow> bool \<Rightarrow> resp_stream \<Rightarrow> (go_error, 't) result" where
  "decode_open_body dc op method path idempotent b =
     (let data = limited_data b typed_limit;
          fin = limited_end b typed_limit;
          jr = dc_decode dc data fin;
          tooLarge = (if jr_drawn jr = typed_limit then [WrapErr ''limit'' [Sentinel ErrResponseTooLarge]] else []);
          decodeErrs = (case jr_value jr of Inl e \<Rightarrow> [e] | Inr _ \<Rightarrow> []) @ tooLarge
      in if decodeErrs \<noteq> [] then
           let err = WrapErr ''decode response'' decodeErrs in
           Inl (if method = ''POST'' then TransportError op path err idempotent else err)
         else
           (case drain_trailer dc jr data fin of
              Some err \<Rightarrow> Inl (TransportError op path (WrapErr ''decode response trailer'' [err]) idempotent)
            | None \<Rightarrow> jr_value jr))"

definition decodeJSONBody ::
  "ucase \<Rightarrow> 't decode_io \<Rightarrow> string \<Rightarrow> string \<Rightarrow> bool \<Rightarrow> resp_stream \<Rightarrow> (go_error, 't) result" where
  "decodeJSONBody uc dc method path idempotent b =
     (let op = to_lower uc method; r = decode_open_body dc op method path idempotent b in
      case rb_close b of
        None \<Rightarrow> r
      | Some closeErr \<Rightarrow>
          Inl (TransportError op path
            (WrapErr [] ((case r of Inl e \<Rightarrow> [e] | Inr _ \<Rightarrow> []) @ [WrapErr ''close response body'' [closeErr]])) idempotent))"

section \<open>Strict bodies\<close>

text \<open>\<open>postStrictJSON\<close> with the marshalled request; \<open>decode\<close> is the strict decoder. \<open>None\<close> is a panic.\<close>

definition postStrictJSON ::
  "client_io \<Rightarrow> (bytes \<Rightarrow> (go_error, 't) result) \<Rightarrow> APIClient \<Rightarrow> string \<Rightarrow> (go_error, bytes) result
     \<Rightarrow> (go_error, 't) result option \<times> APIClient" where
  "postStrictJSON io decode c path payload =
     (case payload of
        Inl err \<Rightarrow> (Some (Inl (WrapErr ''encode request body'' [err])), c)
      | Inr bytes \<Rightarrow>
          (case newSignedRequest io c ''POST'' path (Some bytes) of
             (Inl err, c1) \<Rightarrow> (Some (Inl (WrapErr ''post'' [err])), c1)
           | (Inr req, c1) \<Rightarrow>
               (case client_do io ''post'' path path True
                    (req\<lparr>cr_header := header_Set (cr_header req) ''Content-Type'' ''application/json''\<rparr>) c1 False of
                  (None, c2, _) \<Rightarrow> (None, c2)
                | (Some (Inl err), c2, _) \<Rightarrow> (Some (Inl err), c2)
                | (Some (Inr resp), c2, _) \<Rightarrow>
                    (case read_all_limited (resp_body resp) (strictJSONResponseMaxBytes + 1) of
                       (_, Some err) \<Rightarrow> (Some (Inl (WrapErr ''read body'' [err])), c2)
                     | (bodyBytes, None) \<Rightarrow>
                         if strictJSONResponseMaxBytes < length bodyBytes then
                           (Some (Inl (WrapErr ''limit'' [Sentinel ErrResponseTooLarge])), c2)
                         else (case decode bodyBytes of
                             Inl err \<Rightarrow> (Some (Inl (WrapErr ''decode response'' [err])), c2)
                           | Inr v \<Rightarrow> (Some (Inr v), c2))))))"

section \<open>Laws\<close>

text \<open>What the program relies on of the decoder and of readers.\<close>

definition decoder_ok :: "'t decode_io \<Rightarrow> bool" where
  "decoder_ok dc \<longleftrightarrow>
     (\<forall>data e. let jr = dc_decode dc data e in jr_consumed jr \<le> jr_drawn jr \<and> jr_drawn jr \<le> length data) \<and>
     (\<forall>x. concat (dc_chunks dc x) = x)"

lemma validateJSONTrailer_clean:
  "validateJSONTrailer n chunks e = (m, None) \<longleftrightarrow>
     e = None \<and> list_all json_space (concat chunks) \<and> m = n + length (concat chunks)"
  by (induction n chunks e rule: validateJSONTrailer.induct) auto

lemma classifyTrailerDrain_None:
  "classifyTrailerDrain cause ctxErr exhausted read err = None \<longleftrightarrow>
     read \<le> decodedBodyDrainMaxLen \<and> \<not> exhausted \<and> err = None"
  by (auto simp: classifyTrailerDrain_def Let_def split: option.splits)

lemma drain_trailer_None:
  assumes "decoder_ok dc" and "jr_consumed jr \<le> length data" and "jr_drawn jr \<le> length data" and "length data \<le> typed_limit"
  shows "drain_trailer dc jr data fin = None \<longleftrightarrow>
    fin = None \<and> list_all json_space (drop (jr_consumed jr) data) \<and>
    length (drop (jr_consumed jr) data) \<le> decodedBodyDrainMaxLen \<and> length data < typed_limit"
proof -
  let ?rest = "drop (jr_consumed jr) data"
  let ?we = "if drain_limit \<le> length ?rest then None else fin"
  obtain read drainErr where v: "validateJSONTrailer 0 (dc_chunks dc (take drain_limit ?rest)) ?we = (read, drainErr)" by fastforce
  have "concat (dc_chunks dc (take drain_limit ?rest)) = take drain_limit ?rest" using assms(1) by (simp add: decoder_ok_def)
  with v have clean: "drainErr = None \<longleftrightarrow> ?we = None \<and> list_all json_space (take drain_limit ?rest)"
      "drainErr = None \<Longrightarrow> read = min (length ?rest) drain_limit"
    using validateJSONTrailer_clean [of 0 "dc_chunks dc (take drain_limit ?rest)" ?we] by force+
  have "drain_trailer dc jr data fin = None \<longleftrightarrow>
      read \<le> decodedBodyDrainMaxLen \<and> max (jr_drawn jr) (jr_consumed jr + read) \<noteq> typed_limit \<and> drainErr = None"
    using v by (simp add: drain_trailer_def Let_def classifyTrailerDrain_None)
  moreover have "drainErr = None \<Longrightarrow> read \<le> decodedBodyDrainMaxLen \<longleftrightarrow> length ?rest < drain_limit"
    using clean(2) by (auto simp: drain_limit_def)
  moreover have "drainErr = None \<Longrightarrow> length ?rest < drain_limit \<Longrightarrow> max (jr_drawn jr) (jr_consumed jr + read) = length data"
    using clean(2) assms(2,3) by simp
  ultimately show ?thesis
    using assms(4) clean(1) by (cases "length ?rest < drain_limit") (auto simp: drain_limit_def)
qed

lemma decode_open_body_exact:
  assumes ok: "decoder_ok dc" and jr: "dc_decode dc (rb_data b) (rb_end b) = jr"
  shows "decode_open_body dc op method path idem b = Inr v \<longleftrightarrow>
    length (rb_data b) \<le> typedJSONResponseMaxBytes \<and> rb_end b = None \<and> jr_value jr = Inr v \<and>
    list_all json_space (drop (jr_consumed jr) (rb_data b)) \<and>
    length (drop (jr_consumed jr) (rb_data b)) \<le> decodedBodyDrainMaxLen"
proof -
  define data where "data = limited_data b typed_limit"
  define jr' where "jr' = dc_decode dc data (limited_end b typed_limit)"
  have len: "length data \<le> typed_limit" by (simp add: data_def limited_data_def)
  have drawn: "jr_consumed jr' \<le> jr_drawn jr'" "jr_drawn jr' \<le> length data"
    using ok unfolding decoder_ok_def Let_def jr'_def by blast+
  have "decode_open_body dc op method path idem b = Inr v \<longleftrightarrow>
      jr_value jr' = Inr v \<and> jr_drawn jr' \<noteq> typed_limit \<and> drain_trailer dc jr' data (limited_end b typed_limit) = None"
    unfolding decode_open_body_def data_def [symmetric] jr'_def [symmetric] Let_def
    by (auto split: sum.splits option.splits)
  also have "\<dots> \<longleftrightarrow> jr_value jr' = Inr v \<and> length data < typed_limit \<and> limited_end b typed_limit = None \<and>
      list_all json_space (drop (jr_consumed jr') data) \<and> length (drop (jr_consumed jr') data) \<le> decodedBodyDrainMaxLen"
  proof -
    have "jr_consumed jr' \<le> length data" using drawn by linarith
    from drain_trailer_None [OF ok this drawn(2) len, of "limited_end b typed_limit"] drawn(2) show ?thesis by auto
  qed
  also have "\<dots> \<longleftrightarrow> length (rb_data b) \<le> typedJSONResponseMaxBytes \<and> rb_end b = None \<and> jr_value jr = Inr v \<and>
      list_all json_space (drop (jr_consumed jr) (rb_data b)) \<and> length (drop (jr_consumed jr) (rb_data b)) \<le> decodedBodyDrainMaxLen"
  proof (cases "length (rb_data b) \<le> typedJSONResponseMaxBytes")
    case True
    then have "data = rb_data b" "limited_end b typed_limit = rb_end b"
      by (simp_all add: data_def limited_data_def limited_end_def typed_limit_def)
    moreover from this have "jr' = jr" using jr by (simp add: jr'_def)
    ultimately show ?thesis using True by (auto simp: typed_limit_def)
  next
    case False
    then have "length data = typed_limit" by (simp add: data_def limited_data_def typed_limit_def)
    with False show ?thesis by simp
  qed
  finally show ?thesis .
qed

text \<open>
  The decoder, the reader, the context and \<open>Close\<close> report errors of their own, never one that is the
  sentinel \<open>t\<close> of the client.
\<close>

definition response_errors_ok :: "sentinel \<Rightarrow> 't decode_io \<Rightarrow> resp_stream \<Rightarrow> bool" where
  "response_errors_ok t dc b \<longleftrightarrow>
     (\<forall>data e err. jr_value (dc_decode dc data e) = Inl err \<longrightarrow> \<not> errors_Is err t) \<and>
     (\<forall>err. dc_ctx dc = Some err \<or> rb_end b = Some err \<or> rb_close b = Some err \<longrightarrow> \<not> errors_Is err t)"

definition foreign_sentinel :: "sentinel \<Rightarrow> bool" where
  "foreign_sentinel t \<longleftrightarrow>
     t \<notin> {errUnexpectedResponseBytes, ErrResponseTooLarge, ErrResponseDrainTimeout, ErrTransport, ErrRetryable}"

lemma validateJSONTrailer_error:
  "foreign_sentinel t \<Longrightarrow> validateJSONTrailer n chunks e = (m, Some err) \<Longrightarrow> (\<And>x. e = Some x \<Longrightarrow> \<not> errors_Is x t) \<Longrightarrow> \<not> errors_Is err t"
  by (induction n chunks e rule: validateJSONTrailer.induct) (auto simp: foreign_sentinel_def split: if_splits)

lemma classifyTrailerDrain_error:
  assumes "foreign_sentinel t" and "classifyTrailerDrain cause ctxErr exhausted read err = Some e"
    and "\<And>x. err = Some x \<or> ctxErr = Some x \<Longrightarrow> \<not> errors_Is x t"
  shows "\<not> errors_Is e t"
  using assms by (auto simp: classifyTrailerDrain_def foreign_sentinel_def Let_def split: if_splits option.splits)

lemma drain_trailer_error:
  assumes "foreign_sentinel t" and "response_errors_ok t dc b" and "drain_trailer dc jr data (limited_end b typed_limit) = Some e"
  shows "\<not> errors_Is e t"
proof -
  let ?rest = "drop (jr_consumed jr) data"
  let ?we = "if drain_limit \<le> length ?rest then None else limited_end b typed_limit"
  obtain read drainErr where v: "validateJSONTrailer 0 (dc_chunks dc (take drain_limit ?rest)) ?we = (read, drainErr)" by fastforce
  have we: "?we = Some x \<Longrightarrow> \<not> errors_Is x t" for x
    using assms(2) by (auto simp: response_errors_ok_def limited_end_def split: if_splits)
  have "\<not> errors_Is x t" if "drainErr = Some x \<or> dc_ctx dc = Some x" for x
    using that v validateJSONTrailer_error [of t 0 "dc_chunks dc (take drain_limit ?rest)" ?we read x, OF assms(1) _ we] assms(2)
    by (auto simp: response_errors_ok_def)
  from classifyTrailerDrain_error [OF assms(1) _ this] v assms(3) show ?thesis by (simp add: drain_trailer_def Let_def)
qed

lemma decode_open_body_error:
  assumes t: "foreign_sentinel t" and ok: "response_errors_ok t dc b" and e: "decode_open_body dc op ''POST'' path idem b = Inl e"
  shows "\<exists>x. e = TransportError op path x idem \<and> \<not> errors_Is x t"
proof -
  let ?jr = "dc_decode dc (limited_data b typed_limit) (limited_end b typed_limit)"
  have "jr_value ?jr = Inl err \<Longrightarrow> \<not> errors_Is err t" for err
    using ok unfolding response_errors_ok_def by blast
  with e drain_trailer_error [OF t ok, of ?jr "limited_data b typed_limit"] t show ?thesis
    by (auto simp: decode_open_body_def foreign_sentinel_def Let_def split: sum.splits if_splits option.splits)
qed

lemma decodeJSONBody_error:
  assumes t: "foreign_sentinel t" and ok: "response_errors_ok t dc b" and e: "decodeJSONBody uc dc ''POST'' path idem b = Inl e"
  shows "\<exists>op x. e = TransportError op path x idem \<and> \<not> errors_Is x t"
proof -
  have open_error: "\<exists>y. x = TransportError op path y idem \<and> \<not> errors_Is y t" if "decode_open_body dc op ''POST'' path idem b = Inl x" for op x
    using decode_open_body_error [OF t ok that] by blast
  show ?thesis
  proof (cases "rb_close b")
    case None
    with e open_error show ?thesis by (fastforce simp: decodeJSONBody_def Let_def)
  next
    case (Some err)
    have "\<not> errors_Is err t" using ok Some by (auto simp: response_errors_ok_def)
    moreover have "\<not> errors_Is x t" if "decode_open_body dc (to_lower uc ''POST'') ''POST'' path idem b = Inl x" for x
      using open_error [OF that] t by (auto simp: TransportError_Is_def foreign_sentinel_def split: sentinel.splits)
    ultimately show ?thesis using e Some by (auto simp: decodeJSONBody_def Let_def split: sum.splits)
  qed
qed

section \<open>Claims\<close>

text \<open>
  C30: a typed response is accepted exactly when its whole body is read to the end without error
  within 16 MiB, begins with a value the decoder accepts, has behind it at most 512 bytes, all of
  them JSON white space, and closes without error; however the reads split the body.
\<close>

theorem decode_accepts_exactly:
  assumes "decoder_ok dc" and "dc_decode dc (rb_data b) (rb_end b) = jr"
  shows "decodeJSONBody uc dc method path idem b = Inr v \<longleftrightarrow>
    length (rb_data b) \<le> 16 * 2 ^ 20 \<and> rb_end b = None \<and> rb_close b = None \<and> jr_value jr = Inr v \<and>
    list_all json_space (drop (jr_consumed jr) (rb_data b)) \<and> length (rb_data b) - jr_consumed jr \<le> 512"
  using decode_open_body_exact [OF assms, of "to_lower uc method" "method" path idem v]
  by (auto simp: decodeJSONBody_def Let_def decode_limits split: option.splits)


section \<open>Witnesses\<close>

definition sample_dc :: "unit decode_io" where
  "sample_dc =
     \<lparr>dc_decode = \<lambda>data e. \<lparr>jr_value = (if prefix ''{}'' data then Inr () else Inl (Opaque ''syntax'')),
        jr_consumed = min 2 (length data), jr_drawn = length data\<rparr>,
      dc_chunks = \<lambda>x. [x], dc_cause = None, dc_ctx = None\<rparr>"

theorem decode_accepts_exactly_witness:
  "decodeJSONBody ascii_case sample_dc ''GET'' ''/rooms'' True \<lparr>rb_data = ''{} '', rb_end = None, rb_close = None\<rparr> = Inr ()"
proof -
  have "decoder_ok sample_dc" by (simp add: decoder_ok_def sample_dc_def)
  from decode_accepts_exactly [OF this refl, of ascii_case "''GET''" "''/rooms''" True
      "\<lparr>rb_data = ''{} '', rb_end = None, rb_close = None\<rparr>" "()"]
  show ?thesis by (simp add: sample_dc_def json_space_def)
qed


end
