(* ===== verification/Client_Call.thy ===== *)
theory Client_Call
  imports Client_Decode
begin

text \<open>
  Logical calls (\<open>internal/client/transport/client.go\<close>, \<open>execute.go\<close>, \<open>retry.go\<close>): a POST is built, signed,
  sent, replayed for a new epoch, decoded and retried; a GET is built, signed, sent and decoded.
  The lemmas join the components: however attempts, replays and discovery interleave, a call sends
  at most one request more than its attempts allow, and all of them are the same request.
\<close>

section \<open>Posting\<close>

text \<open>
  What a call needs beside the client's environment: for every attempt the decoder's environment,
  the context after the wait and the jitter.
\<close>

record 't call_io =
  ci_io :: client_io
  ci_decode :: "nat \<Rightarrow> 't decode_io"
  ci_wait :: "nat \<Rightarrow> go_error option"
  ci_jitter :: "nat \<Rightarrow> duration \<Rightarrow> duration"

text \<open>The state the attempts share; \<open>cs_panic\<close> says that sending panicked, which ends the call.\<close>

record 't call_state =
  cs_client :: APIClient
  cs_refreshed :: bool
  cs_result :: "'t option"
  cs_panic :: bool

definition doSignedJSON :: "'t call_io \<Rightarrow> string \<Rightarrow> bool \<Rightarrow> nat \<Rightarrow> creq \<Rightarrow> 't call_state \<Rightarrow> go_error option \<times> 't call_state" where
  "doSignedJSON ci path idempotent n req s =
     (case client_do (ci_io ci) ''post'' path path idempotent req (cs_client s) (cs_refreshed s) of
        (r, c, refreshed) \<Rightarrow>
          let s' = s\<lparr>cs_client := c, cs_refreshed := refreshed\<rparr> in
          (case r of
             None \<Rightarrow> (None, s'\<lparr>cs_panic := True\<rparr>)
           | Some (Inl err) \<Rightarrow> (Some err, s')
           | Some (Inr resp) \<Rightarrow>
               (case decodeJSONBody (io_case (ci_io ci)) (ci_decode ci n) ''POST'' path idempotent (resp_body resp) of
                  Inl err \<Rightarrow> (Some err, s')
                | Inr v \<Rightarrow> (None, s'\<lparr>cs_result := Some v\<rparr>))))"

type_synonym request_builder_fn = "APIClient \<Rightarrow> (go_error, creq) result \<times> APIClient"

definition post_attempts :: "'t call_io \<Rightarrow> string \<Rightarrow> bool \<Rightarrow> request_builder_fn \<Rightarrow> (creq, 't call_state) attempts" where
  "post_attempts ci path idempotent buildRequest =
     \<lparr>build = \<lambda>n s. (case buildRequest (cs_client s) of (r, c) \<Rightarrow> (r, s\<lparr>cs_client := c\<rparr>)),
      send = doSignedJSON ci path idempotent, wait = ci_wait ci, jitter = ci_jitter ci\<rparr>"

text \<open>\<open>None\<close> is a panic.\<close>

definition retryPostJSON ::
  "'t call_io \<Rightarrow> int \<Rightarrow> APIClient \<Rightarrow> string \<Rightarrow> bool \<Rightarrow> request_builder_fn \<Rightarrow> (go_error, 't) result option \<times> APIClient" where
  "retryPostJSON ci ReplyRetryMax c path idempotent buildRequest =
     (case retryPost (post_attempts ci path idempotent buildRequest) ReplyRetryMax path idempotent
          \<lparr>cs_client = c, cs_refreshed = False, cs_result = None, cs_panic = False\<rparr> of
        (Some err, _, s) \<Rightarrow> (Some (Inl err), cs_client s)
      | (None, _, s) \<Rightarrow> (if cs_panic s then None else map_option Inr (cs_result s), cs_client s))"

definition contentTypeJSON :: string where "contentTypeJSON = ''application/json''"

text \<open>The builder \<open>newSignedJSONRequest\<close> returns for the marshalled body.\<close>

definition newSignedJSONRequest :: "client_io \<Rightarrow> string \<Rightarrow> bytes \<Rightarrow> request_builder_fn" where
  "newSignedJSONRequest io path payload c =
     (case newSignedStreamRequest io c ''POST'' path (BytesReader payload) (SHA256HexBytes payload) of
        (Inl err, c') \<Rightarrow> (Inl (WrapErr ''post'' [err]), c')
      | (Inr req, c') \<Rightarrow> (Inr (req\<lparr>cr_header := header_Set (cr_header req) ''Content-Type'' contentTypeJSON\<rparr>), c'))"

definition postJSON ::
  "'t call_io \<Rightarrow> int \<Rightarrow> APIClient \<Rightarrow> string \<Rightarrow> (go_error, bytes) result \<Rightarrow> bool \<Rightarrow> (go_error, 't) result option \<times> APIClient" where
  "postJSON ci ReplyRetryMax c path marshalled idempotent =
     (case marshalled of
        Inl err \<Rightarrow> (Some (Inl (WrapErr ''encode request body'' [err])), c)
      | Inr payload \<Rightarrow> retryPostJSON ci ReplyRetryMax c path idempotent (newSignedJSONRequest (ci_io ci) path payload))"

text \<open>
  The builder of \<open>postMultipart\<close>: \<open>newBody\<close> is the body factory's \<open>NewBody\<close>, with its digest, length and
  content type; a body that was opened in vain is closed, \<open>closeErr\<close> is the error of that.
\<close>

definition multipart_request ::
  "client_io \<Rightarrow> string \<Rightarrow> (go_error, bytes) result \<Rightarrow> string \<Rightarrow> int \<Rightarrow> string \<Rightarrow> go_error option \<Rightarrow> request_builder_fn" where
  "multipart_request io path newBody bodySHA256 bodyLength contentType closeErr c =
     (case newBody of
        Inl err \<Rightarrow> (Inl (WrapErr ''create multipart body'' [err]), c)
      | Inr body \<Rightarrow>
          (case newSignedStreamRequest io c ''POST'' path (StreamBody body) bodySHA256 of
             (Inl err, c') \<Rightarrow> (Inl (WrapErr ''post'' ([err] @ case_option [] (\<lambda>e. [e]) closeErr)), c')
           | (Inr req, c') \<Rightarrow>
               (Inr (req\<lparr>cr_header := header_Set (cr_header req) ''Content-Type'' contentType, cr_content_length := bodyLength,
                  cr_get_body := Some newBody\<rparr>), c')))"

section \<open>Getting\<close>

definition doGet ::
  "client_io \<Rightarrow> (string \<Rightarrow> string option) \<Rightarrow> 't decode_io \<Rightarrow> APIClient \<Rightarrow> string \<Rightarrow> (go_error, 't) result option \<times> APIClient" where
  "doGet io url_redact dc c path =
     (case doSigned io url_redact c ''GET'' path of
        (None, c') \<Rightarrow> (None, c')
      | (Some (Inl err), c') \<Rightarrow> (Some (Inl err), c')
      | (Some (Inr resp), c') \<Rightarrow> (Some (decodeJSONBody (io_case io) dc ''GET'' path True (resp_body resp)), c'))"

section \<open>Request builders\<close>

text \<open>
  What a call relies on of a request builder: beside discovery it sends nothing, it keeps the
  configuration of the client, and it always builds the same request up to authentication.
\<close>

definition posts :: "APIClient \<Rightarrow> string \<Rightarrow> bytes option \<Rightarrow> int \<Rightarrow> string \<Rightarrow> creq \<Rightarrow> bool" where
  "posts c path body contentLength contentType q \<longleftrightarrow>
     cr_method q = ''POST'' \<and> cr_url q = ac_baseURL c @ path \<and> cr_body q = body \<and> cr_content_length q = contentLength \<and>
     header_Get (cr_header q) ''Content-Type'' = contentType"

locale request_builder =
  fixes buildRequest :: request_builder_fn
    and path :: string
    and body :: "bytes option"
    and contentLength :: int
    and contentType :: string
  assumes builder_run: "buildRequest c = (r, c') \<Longrightarrow>
      (\<exists>probes. ac_sent c' = ac_sent c @ probes \<and> list_all (discovery_of c) probes) \<and> same_config c c'"
    and builder_request: "buildRequest c = (Inr q, c') \<Longrightarrow> posts c path body contentLength contentType q \<and>
      (body \<noteq> None \<longrightarrow> cr_get_body q = Some (Inr (the body)))"

text \<open>The requests among those sent that are not discovery.\<close>

definition protected_of :: "APIClient \<Rightarrow> creq list \<Rightarrow> creq list" where
  "protected_of c qs = filter (\<lambda>q. \<not> discovery_of c q) qs"

lemma protected_of_append [simp]: "protected_of c (xs @ ys) = protected_of c xs @ protected_of c ys"
  by (simp add: protected_of_def)

lemma protected_of_discovery [simp]: "list_all (discovery_of c) ps \<Longrightarrow> protected_of c ps = []"
  by (simp add: protected_of_def list_all_iff)

lemma same_config_discovery: "same_config c c' \<Longrightarrow> discovery_of c' = discovery_of c"
  by (simp add: discovery_of_def same_config_def fun_eq_iff)

lemma same_config_trans: "same_config a b \<Longrightarrow> same_config b c \<Longrightarrow> same_config a c"
  by (simp add: same_config_def)

lemma content_type_not_auth: "CanonicalHeaderKey ''Content-Type'' \<notin> iris_auth_headers"
  by (simp add: iris_auth_headers_def header_names canonical_key_eval)

lemma client_do_config:
  assumes "client_do io op path errURL idem req c refreshed = (r, c', refreshed')"
  shows "same_config c c'" and "refreshed \<Longrightarrow> refreshed'"
proof -
  from assms have "same_config c c' \<and> (refreshed \<longrightarrow> refreshed')"
  proof (cases rule: client_do_cases)
    case once
    then show ?thesis using do_round_sends(2) [OF once] do_round_flag by auto
  next
    case (twice replay c1)
    then show ?thesis
      using do_round_sends(2) [OF twice(1)] do_round_sends(2) [OF twice(3)] same_config_trans by blast
  qed
  then show "same_config c c'" and "refreshed \<Longrightarrow> refreshed'" by auto
qed

lemma doSignedJSON_client:
  assumes "doSignedJSON ci path idem n q s = (e, s')"
  obtains r where "client_do (ci_io ci) ''post'' path path idem q (cs_client s) (cs_refreshed s) = (r, cs_client s', cs_refreshed s')"
proof -
  obtain r c f where "client_do (ci_io ci) ''post'' path path idem q (cs_client s) (cs_refreshed s) = (r, c, f)"
    by (meson prod_cases3)
  with assms show thesis
    by (intro that [of r]) (auto simp: doSignedJSON_def Let_def split: option.splits sum.splits)
qed

lemma posts_config: "same_config c c' \<Longrightarrow> posts c' path body len ct q = posts c path body len ct q"
  by (simp add: posts_def same_config_def)

lemma replay_posts:
  assumes "replay_of io path' sent q q'" and "posts c path body len ct q" and "body \<noteq> None \<Longrightarrow> cr_get_body q = Some (Inr (the body))"
  shows "posts c path body len ct q'"
proof -
  have "header_Values (cr_header q') ''Content-Type'' = header_Values (cr_header q) ''Content-Type''"
    using assms(1) content_type_not_auth by (simp add: replay_of_def)
  with assms show ?thesis by (cases body) (auto simp: posts_def replay_of_def header_Get_def)
qed

text \<open>What one sending adds: the request, and once per call its replay.\<close>

lemma doSignedJSON_sends:
  assumes "doSignedJSON ci path' idem n q s = (e, s')" and "posts c path body len ct q" and "same_config c (cs_client s)"
    and "body \<noteq> None \<Longrightarrow> cr_get_body q = Some (Inr (the body))"
  shows "\<exists>new. ac_sent (cs_client s') = ac_sent (cs_client s) @ new \<and> list_all (posts c path body len ct) (protected_of c new) \<and>
      length (protected_of c new) \<le> (if cs_refreshed s' \<and> \<not> cs_refreshed s then 2 else 1)"
    and "same_config c (cs_client s')" and "cs_refreshed s \<Longrightarrow> cs_refreshed s'"
proof -
  from assms(1) obtain r where run:
    "client_do (ci_io ci) ''post'' path' path' idem q (cs_client s) (cs_refreshed s) = (r, cs_client s', cs_refreshed s')"
    by (rule doSignedJSON_client)
  show "same_config c (cs_client s')" and "cs_refreshed s \<Longrightarrow> cs_refreshed s'"
    using client_do_config [OF run] assms(3) same_config_trans by auto
  from client_do_sends [OF run] obtain probes replays where sent:
    "ac_sent (cs_client s') = ac_sent (cs_client s) @ q # probes @ replays" "length replays \<le> 1"
    "list_all (discovery_of c) probes" "cs_refreshed s \<longrightarrow> replays = []"
    "\<forall>q' \<in> set replays. replay_of (ci_io ci) path' (ac_sent (cs_client s)) q q' \<and> cs_refreshed s'"
    using same_config_discovery [OF assms(3)] by metis
  have len: "length replays \<le> (if cs_refreshed s' \<and> \<not> cs_refreshed s then 1 else 0)"
    using sent(2,4,5) by (cases replays) auto
  have "list_all (posts c path body len ct) (q # replays)"
    using assms(2) replay_posts [OF _ assms(2,4)] sent(5) by (auto simp: list_all_iff)
  then have "list_all (posts c path body len ct) (protected_of c (q # replays))" by (auto simp: protected_of_def list_all_iff)
  moreover have "protected_of c (q # probes @ replays) = protected_of c (q # replays)"
    using sent(3) by (simp add: protected_of_def list_all_iff)
  moreover have "length (protected_of c (q # replays)) \<le> Suc (length replays)"
    unfolding protected_of_def by (rule order_trans [OF length_filter_le]) simp
  ultimately show "\<exists>new. ac_sent (cs_client s') = ac_sent (cs_client s) @ new \<and> list_all (posts c path body len ct) (protected_of c new) \<and>
      length (protected_of c new) \<le> (if cs_refreshed s' \<and> \<not> cs_refreshed s then 2 else 1)"
    using sent(1) len by (intro exI [of _ "q # probes @ replays"]) (auto split: if_splits)
qed

context request_builder begin

lemma built:
  assumes "build (post_attempts ci p idem buildRequest) n s = (r, s')" and "same_config c (cs_client s)"
  shows "(\<exists>probes. ac_sent (cs_client s') = ac_sent (cs_client s) @ probes \<and> list_all (discovery_of c) probes)"
    and "same_config c (cs_client s')" and "cs_refreshed s' = cs_refreshed s"
    and "r = Inr q \<Longrightarrow> posts c path body contentLength contentType q \<and> (body \<noteq> None \<longrightarrow> cr_get_body q = Some (Inr (the body)))"
proof -
  obtain c' where b: "buildRequest (cs_client s) = (r, c')" and s': "s' = s\<lparr>cs_client := c'\<rparr>"
    using assms(1) by (auto simp: post_attempts_def split: prod.splits)
  note run = builder_run [OF b]
  show "(\<exists>probes. ac_sent (cs_client s') = ac_sent (cs_client s) @ probes \<and> list_all (discovery_of c) probes)"
    using run same_config_discovery [OF assms(2)] by (auto simp: s')
  show "same_config c (cs_client s')" using run assms(2) same_config_trans by (auto simp: s')
  show "cs_refreshed s' = cs_refreshed s" by (simp add: s')
  show "r = Inr q \<Longrightarrow> posts c path body contentLength contentType q \<and> (body \<noteq> None \<longrightarrow> cr_get_body q = Some (Inr (the body)))"
    using builder_request [of "cs_client s" q c'] b posts_config [OF assms(2)] by blast
qed

lemma loop_sends:
  "retry_loop (post_attempts ci path' idem buildRequest) path' idem left attempt backoff u s = (r, evs, s') \<Longrightarrow>
   same_config c (cs_client s) \<Longrightarrow>
   (\<exists>new. ac_sent (cs_client s') = ac_sent (cs_client s) @ new \<and> list_all (posts c path body contentLength contentType) (protected_of c new) \<and>
      length (protected_of c new) \<le> Suc left + (if cs_refreshed s then 0 else 1)) \<and> same_config c (cs_client s')"
proof (induction left arbitrary: attempt backoff u s evs rule: less_induct)
  case (less left)
  have sends: "\<exists>new. ac_sent (cs_client s2) = ac_sent (cs_client s) @ new \<and> list_all (posts c path body contentLength contentType) (protected_of c new) \<and>
      length (protected_of c new) \<le> (if cs_refreshed s2 \<and> \<not> cs_refreshed s then 2 else 1)"
      "same_config c (cs_client s2)" "cs_refreshed s \<Longrightarrow> cs_refreshed s2"
    if "build (post_attempts ci path' idem buildRequest) attempt s = (Inr q, s1)"
      "send (post_attempts ci path' idem buildRequest) attempt q s1 = (e, s2)" for q s1 e s2
  proof -
    note b = built [OF that(1) less.prems(2)]
    from that(2) have "doSignedJSON ci path' idem attempt q s1 = (e, s2)" by (simp add: post_attempts_def)
    note d = doSignedJSON_sends [OF this conjunct1 [OF b(4) [OF refl]] b(2)]
    from b(1) obtain probes where probes: "ac_sent (cs_client s1) = ac_sent (cs_client s) @ probes" "list_all (discovery_of c) probes" by blast
    from d(1) b(4) obtain new where "ac_sent (cs_client s2) = ac_sent (cs_client s1) @ new"
      "list_all (posts c path body contentLength contentType) (protected_of c new)"
      "length (protected_of c new) \<le> (if cs_refreshed s2 \<and> \<not> cs_refreshed s1 then 2 else 1)" by blast
    with probes b(3) show "\<exists>new. ac_sent (cs_client s2) = ac_sent (cs_client s) @ new \<and>
        list_all (posts c path body contentLength contentType) (protected_of c new) \<and>
        length (protected_of c new) \<le> (if cs_refreshed s2 \<and> \<not> cs_refreshed s then 2 else 1)"
      by (intro exI [of _ "probes @ new"]) simp
    show "same_config c (cs_client s2)" "cs_refreshed s \<Longrightarrow> cs_refreshed s2" using d(2,3) b(3,4) by auto
  qed
  have stop: ?case if "build (post_attempts ci path' idem buildRequest) attempt s = (Inr q, s1)"
      "send (post_attempts ci path' idem buildRequest) attempt q s1 = (e, s')" for q s1 e
    using sends [OF that] by (fastforce split: if_splits)
  from less.prems(1) show ?case
  proof (cases rule: retry_loop_cases)
    case (unbuilt e)
    from built [OF unbuilt(1) less.prems(2)] show ?thesis by fastforce
  next
    case (again q s1 e u' s2 left' d a evs')
    from sends [OF again(1,4)] obtain new where new: "ac_sent (cs_client s2) = ac_sent (cs_client s) @ new"
      "list_all (posts c path body contentLength contentType) (protected_of c new)"
      "length (protected_of c new) \<le> (if cs_refreshed s2 \<and> \<not> cs_refreshed s then 2 else 1)" by blast
    have "left' < left" by (simp add: again(3))
    from less.IH [OF this again(7) sends(2) [OF again(1,4)]] obtain more where more:
      "ac_sent (cs_client s') = ac_sent (cs_client s2) @ more" "list_all (posts c path body contentLength contentType) (protected_of c more)"
      "length (protected_of c more) \<le> Suc left' + (if cs_refreshed s2 then 0 else 1)" "same_config c (cs_client s')" by blast
    have "length (protected_of c (new @ more)) \<le> Suc left + (if cs_refreshed s then 0 else 1)"
      using new(3) more(3) again(3) sends(3) [OF again(1,4)] by (auto split: if_splits)
    with new(1,2) more(1,2,4) show ?thesis by (intro conjI exI [of _ "new @ more"]) simp_all
  qed (rule stop; assumption)+
qed

lemma call_sends:
  assumes "retryPostJSON ci retryMax c path' idem buildRequest = (r, c')"
  shows "\<exists>new. ac_sent c' = ac_sent c @ new \<and> list_all (posts c path body contentLength contentType) (protected_of c new) \<and>
    length (protected_of c new) \<le> max_attempts retryMax path' + 1"
proof -
  let ?s = "\<lparr>cs_client = c, cs_refreshed = False, cs_result = None, cs_panic = False\<rparr>"
  obtain x evs s' where run: "retryPost (post_attempts ci path' idem buildRequest) retryMax path' idem ?s = (x, evs, s')"
    by (meson prod_cases3)
  with assms have c': "c' = cs_client s'" by (auto simp: retryPostJSON_def split: option.splits)
  have "same_config c (cs_client ?s)" by (simp add: same_config_def)
  from loop_sends [OF run [unfolded retryPost_def] this] show ?thesis
    by (auto simp: c' max_attempts_def split: if_splits)
qed

end

lemma newSignedStreamRequest_run:
  assumes "newSignedStreamRequest io c method path body sha = (r, c')"
  shows "\<exists>probes. ac_sent c' = ac_sent c @ probes \<and> list_all (discovery_of c) probes"
    and "same_config c c'"
    and "r = Inr q \<Longrightarrow> \<exists>q0. newRequest io c method path body = Inr q0 \<and> same_but_auth q0 q"
proof -
  show "\<exists>probes. ac_sent c' = ac_sent c @ probes \<and> list_all (discovery_of c) probes"
    using assms signRequest_run(1) [of io c _ "method" path sha r c']
    by (fastforce simp: newSignedStreamRequest_def split: sum.splits)
  show "same_config c c'"
    using assms signRequest_run(2) [of io c _ "method" path sha r c']
    by (auto simp: newSignedStreamRequest_def same_config_def split: sum.splits)
  show "r = Inr q \<Longrightarrow> \<exists>q0. newRequest io c method path body = Inr q0 \<and> same_but_auth q0 q"
    using assms signRequest_run(3) [of io c _ "method" path sha r c' q]
    by (auto simp: newSignedStreamRequest_def split: sum.splits)
qed

lemma content_type_set: "header_Get (header_Set h ''Content-Type'' v) ''Content-Type'' = v"
  by (simp add: header_Get_Set)

interpretation json: request_builder "newSignedJSONRequest io path payload" path
    "if payload = [] then None else Some payload" "int (length payload)" contentTypeJSON
  for io path payload
proof
  fix c r c'
  assume b: "newSignedJSONRequest io path payload c = (r, c')"
  obtain x where x: "newSignedStreamRequest io c ''POST'' path (BytesReader payload) (SHA256HexBytes payload) = (x, c')"
    using b by (auto simp: newSignedJSONRequest_def split: prod.splits sum.splits)
  show "(\<exists>probes. ac_sent c' = ac_sent c @ probes \<and> list_all (discovery_of c) probes) \<and> same_config c c'"
    using newSignedStreamRequest_run [OF x] by blast
next
  fix c q c'
  assume b: "newSignedJSONRequest io path payload c = (Inr q, c')"
  then obtain q1 where q1: "newSignedStreamRequest io c ''POST'' path (BytesReader payload) (SHA256HexBytes payload) = (Inr q1, c')"
    "q = q1\<lparr>cr_header := header_Set (cr_header q1) ''Content-Type'' contentTypeJSON\<rparr>"
    by (auto simp: newSignedJSONRequest_def split: prod.splits sum.splits)
  from newSignedStreamRequest_run(3) [OF q1(1) refl] q1(2)
  show "posts c path (if payload = [] then None else Some payload) (int (length payload)) contentTypeJSON q \<and>
    ((if payload = [] then None else Some payload) \<noteq> None \<longrightarrow> cr_get_body q = Some (Inr (the (if payload = [] then None else Some payload))))"
    by (auto simp: posts_def newRequest_def same_but_auth_def content_type_set split: if_splits)
qed

interpretation multipart: request_builder "multipart_request io path newBody sha len ct closeErr" path
    "case newBody of Inl _ \<Rightarrow> None | Inr b \<Rightarrow> Some b" len ct
  for io path newBody sha len ct closeErr
proof
  fix c r c'
  assume b: "multipart_request io path newBody sha len ct closeErr c = (r, c')"
  show "(\<exists>probes. ac_sent c' = ac_sent c @ probes \<and> list_all (discovery_of c) probes) \<and> same_config c c'"
  proof (cases newBody)
    case (Inl e)
    with b show ?thesis by (simp add: multipart_request_def same_config_def)
  next
    case (Inr body)
    obtain x where "newSignedStreamRequest io c ''POST'' path (StreamBody body) sha = (x, c')"
      using b Inr by (auto simp: multipart_request_def split: prod.splits sum.splits)
    from newSignedStreamRequest_run [OF this] show ?thesis by blast
  qed
next
  fix c q c'
  assume b: "multipart_request io path newBody sha len ct closeErr c = (Inr q, c')"
  then obtain body q1 where q1: "newBody = Inr body" "newSignedStreamRequest io c ''POST'' path (StreamBody body) sha = (Inr q1, c')"
    "q = q1\<lparr>cr_header := header_Set (cr_header q1) ''Content-Type'' ct, cr_content_length := len, cr_get_body := Some newBody\<rparr>"
    by (auto simp: multipart_request_def split: prod.splits sum.splits)
  from newSignedStreamRequest_run(3) [OF q1(2) refl] q1(1,3)
  show "posts c path (case newBody of Inl _ \<Rightarrow> None | Inr b \<Rightarrow> Some b) len ct q \<and>
    ((case newBody of Inl _ \<Rightarrow> None | Inr b \<Rightarrow> Some b) \<noteq> None \<longrightarrow>
      cr_get_body q = Some (Inr (the (case newBody of Inl _ \<Rightarrow> None | Inr b \<Rightarrow> Some b))))"
    by (auto simp: posts_def newRequest_def same_but_auth_def content_type_set split: if_splits)
qed

section \<open>Claims\<close>

text \<open>
  C26: beside discovery, a JSON call sends at most one request more than its attempts allow, also
  when attempts are retried and refused for their epoch in any order; and every request it sends is
  the same POST: the same URL, content type, content length
  and body bytes.
\<close>

theorem call_sends_same_request:
  assumes "postJSON ci retryMax c path (Inr payload) idem = (r, c')"
  shows "\<exists>new. ac_sent c' = ac_sent c @ new \<and>
    length (protected_of c new) \<le> max_attempts retryMax path + 1 \<and>
    list_all (\<lambda>q. cr_method q = ''POST'' \<and> cr_url q = ac_baseURL c @ path \<and>
      header_Get (cr_header q) ''Content-Type'' = contentTypeJSON \<and> cr_content_length q = int (length payload) \<and>
      cr_body q = (if payload = [] then None else Some payload)) (protected_of c new)"
proof -
  from assms have "retryPostJSON ci retryMax c path idem (newSignedJSONRequest (ci_io ci) path payload) = (r, c')"
    by (simp add: postJSON_def)
  from json.call_sends [OF this] show ?thesis by (auto simp: posts_def list_all_iff)
qed

definition sample_ci :: "unit call_io" where
  "sample_ci = \<lparr>ci_io = offline_io, ci_decode = \<lambda>_. sample_dc, ci_wait = \<lambda>_. None, ci_jitter = \<lambda>_ _. 0\<rparr>"

theorem call_sends_same_request_witness:
  "\<exists>new. ac_sent (snd (postJSON sample_ci 3 sample_client ''/reply'' (Inr ''{}'') True)) = new \<and>
     length (protected_of sample_client new) \<le> 4"
proof -
  obtain r c' where run: "postJSON sample_ci 3 sample_client ''/reply'' (Inr ''{}'') True = (r, c')" by fastforce
  have "max_attempts 3 ''/reply'' = 3" by (simp add: max_attempts_def PathReply_def)
  with call_sends_same_request [OF run] run show ?thesis by (auto simp: sample_client_def)
qed

end
