(* ===== verification/Api_Types.thy ===== *)
theory Api_Types
  imports Iris_Prelude
begin

text \<open>
  The requests and answers of the query operations (\<open>internal/client/query/types.go\<close>,
  \<open>internal/client/common/room_types.go\<close>, the status of \<open>reply_types.go\<close>, the answers in \<open>transport/rooms.go\<close>).
  A pointer field is an option: \<open>None\<close> when it is absent from the JSON. A Go \<open>int64\<close> or \<open>int\<close> is an
  integer; no operation of the client computes with them.
\<close>

section \<open>Replies\<close>

record ReplyStatusSnapshot =
  ss_RequestID :: string
  ss_State :: string
  ss_UpdatedAtEpochMs :: int
  ss_Detail :: "string option"

section \<open>Rooms and members\<close>

record RoomSummary =
  rs_ChatID :: int
  rs_Type :: "string option"
  rs_LinkID :: "int option"
  rs_ActiveMembersCount :: "int option"
  rs_LinkName :: "string option"
  rs_LinkURL :: "string option"
  rs_MemberLimit :: "int option"
  rs_Searchable :: "int option"
  rs_BotRole :: "int option"

record RoomListResponse =
  rl_Rooms :: "RoomSummary list"

record MemberInfo =
  mi_UserID :: int
  mi_Nickname :: "string option"
  mi_Role :: string
  mi_RoleCode :: int
  mi_ProfileImageURL :: "string option"
  mi_MessageCount :: int
  mi_LastActiveAt :: "int option"

record MemberListResponse =
  ml_ChatID :: int
  ml_LinkID :: "int option"
  ml_Members :: "MemberInfo list"
  ml_TotalCount :: int

record PeriodRange =
  pr_From :: int
  pr_To :: int

record MemberStats =
  st_UserID :: int
  st_Nickname :: "string option"
  st_MessageCount :: int
  st_LastActiveAt :: "int option"
  st_MessageTypes :: "string \<rightharpoonup> int"

record StatsResponse =
  sr_ChatID :: int
  sr_Period :: PeriodRange
  sr_TotalMessages :: int
  sr_ActiveMembers :: int
  sr_TopMembers :: "MemberStats list"

section \<open>Queries\<close>

record QueryMemberStatsRequest =
  qs_ChatID :: int
  qs_Period :: "string option"
  qs_Limit :: int
  qs_MinMessages :: int

record QueryRecentMessagesRequest =
  qr_ChatID :: int
  qr_Limit :: int
  qr_AfterID :: "int option"
  qr_BeforeID :: "int option"
  qr_SinceCreatedAt :: "int option"
  qr_UntilCreatedAt :: "int option"
  qr_ThreadID :: "string option"
  qr_ChatLogIDs :: "string list"

record RecentMessage =
  rm_SequenceID :: int
  rm_ChatLogID :: string
  rm_ChatID :: int
  rm_UserID :: int
  rm_Message :: string
  rm_Type :: int
  rm_CreatedAt :: int
  rm_ThreadID :: "string option"

record RecentMessagesResponse =
  rr_ChatID :: int
  rr_Messages :: "RecentMessage list"

section \<open>Room events\<close>

record RoomEventRecord =
  re_ID :: int
  re_ChatID :: int
  re_EventType :: string
  re_UserID :: int
  re_Payload :: string
  re_CreatedAtMs :: int

record NicknameHistoryEntry =
  nh_PreviousDisplayName :: string
  nh_CurrentDisplayName :: string
  nh_SourceLogID :: int
  nh_CreatedAtMs :: int

record NicknameHistorySearchMatch =
  nm_UserID :: int
  nm_LatestNickname :: string
  nm_History :: "NicknameHistoryEntry list"

record NicknameHistorySearchResponse =
  ns_Complete :: bool
  ns_Truncated :: bool
  ns_AsOfSourceLogID :: int
  ns_DurableHeadSourceLogID :: int
  ns_Matches :: "NicknameHistorySearchMatch list"

end
