(* ===== verification/Client_Rooms.thy ===== *)
theory Client_Rooms
  imports Client_Call Api_Types
begin

text \<open>
  Paths, query strings and the room queries of the client (\<open>internal/client/transport/path.go\<close>,
  \<open>rooms.go\<close>, and \<open>GetReplyStatus\<close> of \<open>client.go\<close>). A \<open>url.Values\<close> map is an association list whose order
  stands for one of the orders of a \<open>range\<close> loop. The lemmas show that path segments cannot leave
  their place, that query strings do not depend on the order of the map, and that the targets of
  the room queries are canonical, so that what is signed is what is sent.
\<close>

section \<open>Path segments\<close>

definition maxPathSegmentTokenBytes :: nat where "maxPathSegmentTokenBytes = 160"

definition isSafePathSegmentTokenByte :: "char \<Rightarrow> bool" where
  "isSafePathSegmentTokenByte b \<longleftrightarrow> is_lower b \<or> is_upper b \<or> is_digit b \<or> b \<in> set ''._:-''"

datatype segment_error = BlankSegment string | LongSegment string | DotSegment string | UnsafeSegment string

definition safePathSegmentToken :: "string \<Rightarrow> string \<Rightarrow> (segment_error, string) result" where
  "safePathSegmentToken label v =
     (let trimmed = trim_space v in
      if trimmed = [] then Inl (BlankSegment label)
      else if maxPathSegmentTokenBytes < length trimmed then Inl (LongSegment label)
      else if trimmed = ''.'' \<or> trimmed = ''..'' then Inl (DotSegment label)
      else if \<not> list_all isSafePathSegmentTokenByte trimmed then Inl (UnsafeSegment label)
      else Inr trimmed)"

definition appendSafePathSegment :: "string \<Rightarrow> string \<Rightarrow> string \<Rightarrow> (segment_error, string) result" where
  "appendSafePathSegment basePath label v =
     and_then (safePathSegmentToken label v) (\<lambda>segment. Inr (basePath @ ''/'' @ segment))"

section \<open>Query strings\<close>

type_synonym url_values = "(string \<times> string list) list"

definition values_Set :: "url_values \<Rightarrow> string \<Rightarrow> string \<Rightarrow> url_values" where
  "values_Set params k v = header_update params k [v]"

definition query_pairs :: "string \<times> string list \<Rightarrow> string list" where
  "query_pairs kv =
     (let encodedKey = EncodeQueryComponent (fst kv) in
      if snd kv = [] then [encodedKey] else map (\<lambda>v. encodedKey @ ''='' @ EncodeQueryComponent v) (snd kv))"

definition canonicalQueryString :: "url_values \<Rightarrow> string" where
  "canonicalQueryString params =
     (if params = [] then [] else join ''&'' (sort (concat (map query_pairs params))))"

definition appendCanonicalQuery :: "string \<Rightarrow> url_values \<Rightarrow> string" where
  "appendCanonicalQuery path params =
     (let encoded = canonicalQueryString params in if encoded = [] then path else path @ ''?'' @ encoded)"

section \<open>Room queries\<close>

definition PathRooms :: string where "PathRooms = ''/rooms''"
definition PathReplyStatus :: string where "PathReplyStatus = ''/reply-status''"

definition room_path :: "int \<Rightarrow> string \<Rightarrow> string" where
  "room_path chatID rest = PathRooms @ ''/'' @ format_int chatID @ ''/'' @ rest"

definition set_if :: "bool \<Rightarrow> string \<Rightarrow> string \<Rightarrow> url_values \<Rightarrow> url_values" where
  "set_if b k v params = (if b then values_Set params k v else params)"

definition GetRooms ::
  "client_io \<Rightarrow> (string \<Rightarrow> string option) \<Rightarrow> RoomListResponse decode_io \<Rightarrow> APIClient
     \<Rightarrow> (go_error, RoomListResponse) result option \<times> APIClient" where
  "GetRooms io url_redact dc c = doGet io url_redact dc c PathRooms"

definition GetMembers ::
  "client_io \<Rightarrow> (string \<Rightarrow> string option) \<Rightarrow> MemberListResponse decode_io \<Rightarrow> APIClient \<Rightarrow> int
     \<Rightarrow> (go_error, MemberListResponse) result option \<times> APIClient" where
  "GetMembers io url_redact dc c chatID = doGet io url_redact dc c (room_path chatID ''members'')"

definition members_refresh_path :: "int \<Rightarrow> int \<Rightarrow> string" where
  "members_refresh_path chatID profileUserID =
     appendCanonicalQuery (room_path chatID ''members'')
       (set_if (0 < profileUserID) ''profileUserId'' (format_int profileUserID) [])"

definition GetMembersWithProfileRefresh ::
  "client_io \<Rightarrow> (string \<Rightarrow> string option) \<Rightarrow> MemberListResponse decode_io \<Rightarrow> APIClient \<Rightarrow> int \<Rightarrow> int
     \<Rightarrow> (go_error, MemberListResponse) result option \<times> APIClient" where
  "GetMembersWithProfileRefresh io url_redact dc c chatID profileUserID =
     doGet io url_redact dc c (members_refresh_path chatID profileUserID)"

definition room_events_params :: "int option \<Rightarrow> string \<Rightarrow> int \<Rightarrow> int \<Rightarrow> int \<Rightarrow> string \<Rightarrow> url_values" where
  "room_events_params userID eventType limit after before order =
     (let p1 = set_if (0 < limit) ''limit'' (format_int limit) [];
          p2 = set_if (0 < after) ''after'' (format_int after) p1;
          p3 = set_if (0 < before) ''before'' (format_int before) p2;
          p4 = set_if (eventType \<noteq> []) ''eventType'' eventType p3;
          p5 = (case userID of None \<Rightarrow> p4 | Some u \<Rightarrow> values_Set p4 ''userId'' (format_int u))
      in set_if (order \<noteq> []) ''order'' order p5)"

definition room_events_path :: "int \<Rightarrow> int option \<Rightarrow> string \<Rightarrow> int \<Rightarrow> int \<Rightarrow> int \<Rightarrow> string \<Rightarrow> string" where
  "room_events_path chatID userID eventType limit after before order =
     appendCanonicalQuery (room_path chatID ''events'') (room_events_params userID eventType limit after before order)"

definition getRoomEvents ::
  "client_io \<Rightarrow> (string \<Rightarrow> string option) \<Rightarrow> (RoomEventRecord list) decode_io \<Rightarrow> APIClient \<Rightarrow> int \<Rightarrow> int option \<Rightarrow> string \<Rightarrow> int \<Rightarrow> int \<Rightarrow> int \<Rightarrow> string
     \<Rightarrow> (go_error, RoomEventRecord list) result option \<times> APIClient" where
  "getRoomEvents io url_redact dc c chatID userID eventType limit after before order =
     doGet io url_redact dc c (room_events_path chatID userID eventType limit after before order)"

definition GetRoomEventsByType ::
  "client_io \<Rightarrow> (string \<Rightarrow> string option) \<Rightarrow> (RoomEventRecord list) decode_io \<Rightarrow> APIClient \<Rightarrow> int \<Rightarrow> string \<Rightarrow> int \<Rightarrow> int
     \<Rightarrow> (go_error, RoomEventRecord list) result option \<times> APIClient" where
  "GetRoomEventsByType io url_redact dc c chatID eventType limit after =
     getRoomEvents io url_redact dc c chatID None eventType limit after 0 []"

definition GetRoomUserEventsBefore ::
  "client_io \<Rightarrow> (string \<Rightarrow> string option) \<Rightarrow> (RoomEventRecord list) decode_io \<Rightarrow> APIClient \<Rightarrow> int \<Rightarrow> int \<Rightarrow> int \<Rightarrow> int
     \<Rightarrow> (go_error, RoomEventRecord list) result option \<times> APIClient" where
  "GetRoomUserEventsBefore io url_redact dc c chatID userID limit before =
     getRoomEvents io url_redact dc c chatID (Some userID) [] limit 0 before ''desc''"

definition GetLatestRoomUserEventsByType ::
  "client_io \<Rightarrow> (string \<Rightarrow> string option) \<Rightarrow> (RoomEventRecord list) decode_io \<Rightarrow> APIClient \<Rightarrow> int \<Rightarrow> int \<Rightarrow> string \<Rightarrow> int
     \<Rightarrow> (go_error, RoomEventRecord list) result option \<times> APIClient" where
  "GetLatestRoomUserEventsByType io url_redact dc c chatID userID eventType limit =
     getRoomEvents io url_redact dc c chatID (Some userID) eventType limit 0 0 ''desc''"

definition nickname_search_path :: "int \<Rightarrow> string \<Rightarrow> int \<Rightarrow> string" where
  "nickname_search_path chatID name limit =
     (let p1 = values_Set [] ''match'' ''exact''; p2 = values_Set p1 ''name'' (trim_space name) in
      appendCanonicalQuery (room_path chatID ''nickname-history/search'')
        (set_if (0 < limit) ''limit'' (format_int limit) p2))"

definition SearchNicknameHistoryExact ::
  "client_io \<Rightarrow> (string \<Rightarrow> string option) \<Rightarrow> NicknameHistorySearchResponse decode_io \<Rightarrow> APIClient \<Rightarrow> int \<Rightarrow> string \<Rightarrow> int
     \<Rightarrow> (go_error, NicknameHistorySearchResponse) result option \<times> APIClient" where
  "SearchNicknameHistoryExact io url_redact dc c chatID name limit =
     doGet io url_redact dc c (nickname_search_path chatID name limit)"

text \<open>\<open>Inl\<close> the error of the path segment, before anything is sent.\<close>

definition GetReplyStatus ::
  "client_io \<Rightarrow> (string \<Rightarrow> string option) \<Rightarrow> ReplyStatusSnapshot decode_io \<Rightarrow> APIClient \<Rightarrow> string
     \<Rightarrow> (segment_error, (go_error, ReplyStatusSnapshot) result option) result \<times> APIClient" where
  "GetReplyStatus io url_redact dc c requestID =
     (case appendSafePathSegment PathReplyStatus ''request ID'' requestID of
        Inl err \<Rightarrow> (Inl err, c)
      | Inr path \<Rightarrow> (case doGet io url_redact dc c path of (r, c') \<Rightarrow> (Inr r, c')))"

section \<open>Order of query strings\<close>

lemma canonicalQueryString_perm:
  assumes "mset params = mset params'"
  shows "canonicalQueryString params = canonicalQueryString params'"
proof -
  have "mset (concat (map query_pairs ps)) = (\<Sum>p \<in># mset ps. mset (query_pairs p))" for ps by (induction ps) auto
  with assms have "mset (concat (map query_pairs params)) = mset (concat (map query_pairs params'))" by simp
  then have "sort (concat (map query_pairs params)) = sort (concat (map query_pairs params'))" by (rule sort_mset_cong)
  moreover have "params = [] \<longleftrightarrow> params' = []" using assms by (metis mset_zero_iff)
  ultimately show ?thesis by (simp add: canonicalQueryString_def)
qed

text \<open>
  Keys made of bytes above the equals sign: comparing the rendered pairs is comparing the pairs.
\<close>

definition high_key :: "string \<Rightarrow> bool" where
  "high_key k \<longleftrightarrow> list_all (\<lambda>c. CHR ''='' < c) k"

lemma rendered_le:
  "high_key k \<Longrightarrow> high_key k' \<Longrightarrow> k @ CHR ''='' # v \<le> k' @ CHR ''='' # v' \<longleftrightarrow> k < k' \<or> k = k' \<and> v \<le> v'"
proof (induction k arbitrary: k')
  case Nil
  then show ?case by (cases k') (auto simp: high_key_def)
next
  case (Cons a k)
  then show ?case by (cases k') (auto simp: high_key_def)
qed

lemma sort_map_mono:
  fixes f :: "'a :: linorder \<Rightarrow> 'b :: linorder"
  assumes "\<And>x y. x \<in> set xs \<Longrightarrow> y \<in> set xs \<Longrightarrow> x \<le> y \<Longrightarrow> f x \<le> f y"
  shows "sort (map f xs) = map f (sort xs)"
proof (rule properties_for_sort)
  have "sorted_wrt (\<lambda>x y. f x \<le> f y) (sort xs)"
    by (rule sorted_wrt_mono_rel [OF _ sorted_sort]) (use assms in auto)
  then show "sorted (map f (sort xs))" by (simp add: sorted_wrt_map)
qed simp


section \<open>Canonical room targets\<close>

text \<open>A query the client builds: different keys of letters, one well-formed value each.\<close>

definition simple_params :: "url_values \<Rightarrow> bool" where
  "simple_params params \<longleftrightarrow> distinct (map fst params) \<and>
     list_all (\<lambda>(k, vs). k \<noteq> [] \<and> list_all (\<lambda>c. is_lower c \<or> is_upper c) k \<and> (\<exists>v. vs = [v] \<and> valid_string v)) params"

definition param_pair :: "string \<times> string list \<Rightarrow> canonicalQueryPair" where
  "param_pair kv = (fst kv, Some (EncodeQueryComponent (hd (snd kv))))"

lemma letters_unreserved: "is_lower c \<or> is_upper c \<Longrightarrow> is_unreserved c \<and> CHR ''='' < c \<and> is_ascii c"
  by (auto simp: is_unreserved_val is_alnum_def is_lower_val is_upper_val less_char_def is_ascii_def)

lemma encode_letters: "list_all (\<lambda>c. is_lower c \<or> is_upper c) k \<Longrightarrow> EncodeQueryComponent k = k"
  using letters_unreserved by (induction k) (auto simp: EncodeQueryComponent_def encode_byte_def)

lemma param_pair_facts:
  assumes "simple_params params" and "kv \<in> set params"
  shows "high_key (fst kv)" and "canonical_pair (param_pair kv)" and "query_pairs kv = [render_pair (param_pair kv)]"
proof -
  obtain k v where kv: "kv = (k, [v])" "k \<noteq> []" "list_all (\<lambda>c. is_lower c \<or> is_upper c) k" "valid_string v"
    using assms by (fastforce simp: simple_params_def list_all_iff)
  show "high_key (fst kv)" using kv(1,3) letters_unreserved by (auto simp: high_key_def list_all_iff)
  have "list_all is_ascii k" using kv(3) letters_unreserved by (auto simp: list_all_iff)
  then have "valid_string k" by (rule valid_string_ascii)
  with kv encode_letters [OF kv(3)] show "canonical_pair (param_pair kv)"
    by (fastforce simp: canonical_pair_def param_pair_def)
  show "query_pairs kv = [render_pair (param_pair kv)]"
    using kv encode_letters [OF kv(3)] by (simp add: query_pairs_def param_pair_def)
qed

lemma simple_query:
  assumes "simple_params params"
  shows "sort (concat (map query_pairs params)) = map render_pair (sort (map param_pair params))"
proof -
  have "concat (map query_pairs params) = map render_pair (map param_pair params)"
    using param_pair_facts(3) [OF assms] by (induction params) auto
  moreover have "render_pair p \<le> render_pair q" if "p \<in> set (map param_pair params)" "q \<in> set (map param_pair params)" "p \<le> q" for p q
  proof -
    from that(1,2) obtain a b where ab: "p = param_pair a" "q = param_pair b" "a \<in> set params" "b \<in> set params" by auto
    from rendered_le [OF param_pair_facts(1) [OF assms ab(3)] param_pair_facts(1) [OF assms ab(4)]] that(3) ab(1,2)
    show ?thesis by (auto simp: param_pair_def less_eq_prod_def)
  qed
  ultimately show ?thesis using sort_map_mono [of "map param_pair params" render_pair] by metis
qed

lemma simple_params_canonical:
  assumes "simple_params params" and "CHR ''?'' \<notin> set path"
  shows "CanonicalRequestTarget (appendCanonicalQuery path params) = Inr (appendCanonicalQuery path params)"
proof (cases "params = []")
  case True
  with assms(2) show ?thesis
    by (simp add: appendCanonicalQuery_def canonicalQueryString_def CanonicalRequestTarget_def canonicalTarget_path)
next
  case False
  define ps where "ps = sort (map param_pair params)"
  have ps: "ps \<noteq> []" "sort ps = ps" using False by (simp_all add: ps_def sorted_sort_id)
  have canon: "\<And>p. p \<in> set ps \<Longrightarrow> canonical_pair p" using param_pair_facts(2) [OF assms(1)] by (auto simp: ps_def)
  have "map fst (map param_pair params) = map fst params" by (simp add: param_pair_def)
  then have "distinct (map fst (map param_pair params))" using assms(1) unfolding simple_params_def by metis
  moreover have "mset (map fst ps) = mset (map fst (map param_pair params))" by (simp add: ps_def multiset.map_comp)
  ultimately have dist: "distinct (map fst ps)" by (metis mset_eq_imp_distinct_iff)
  have q: "canonicalQueryString params = join ''&'' (map render_pair ps)"
    using False by (simp add: canonicalQueryString_def simple_query [OF assms(1)] ps_def)
  have parse: "parseCanonicalQuery (join ''&'' (map render_pair ps)) = Some ps"
    by (rule parse_rendered_query [OF canon ps(1)])
  then have "join ''&'' (map render_pair ps) \<noteq> []" using ps(1) by (auto simp: parseCanonicalQuery_def)
  then show ?thesis
    using canonicalTarget_query [OF assms(2), of "join ''&'' (map render_pair ps)" True] parse ps dist
    by (simp add: appendCanonicalQuery_def q CanonicalRequestTarget_def)
qed

text \<open>Building a query keeps it simple.\<close>

lemma header_update_keys: "set (map fst (header_update h k vs)) = insert k (set (map fst h))"
  by (induction h k vs rule: header_update.induct) auto

lemma header_update_distinct: "distinct (map fst h) \<Longrightarrow> distinct (map fst (header_update h k vs))"
proof (induction h k vs rule: header_update.induct)
  case (2 k' vs' h k vs)
  then show ?case using header_update_keys [of h k vs] by (auto simp: image_iff)
qed simp

lemma header_update_all: "list_all P h \<Longrightarrow> P (k, vs) \<Longrightarrow> list_all P (header_update h k vs)"
  by (induction h k vs rule: header_update.induct) auto

lemma values_Set_simple:
  assumes "simple_params params" and "k \<noteq> []" and "list_all (\<lambda>c. is_lower c \<or> is_upper c) k" and "valid_string v"
  shows "simple_params (values_Set params k v)"
  using assms by (auto simp: simple_params_def values_Set_def intro!: header_update_distinct header_update_all)

lemma set_if_simple:
  "simple_params params \<Longrightarrow> k \<noteq> [] \<Longrightarrow> list_all (\<lambda>c. is_lower c \<or> is_upper c) k \<Longrightarrow> (b \<Longrightarrow> valid_string v) \<Longrightarrow>
     simple_params (set_if b k v params)"
  by (simp add: set_if_def values_Set_simple)

lemma format_nat_ascii: "list_all is_ascii (format_nat n)"
  using format_nat_digits [of n] is_digit_visible by (auto simp: list_all_iff)

lemma format_int_ascii: "list_all is_ascii (format_int i)"
  using format_nat_ascii by (auto simp: format_int_def is_ascii_def)

lemma valid_format_int: "valid_string (format_int i)"
  by (rule valid_string_ascii [OF format_int_ascii])

lemma room_path_no_query: "CHR ''?'' \<notin> set rest \<Longrightarrow> CHR ''?'' \<notin> set (room_path chatID rest)"
proof -
  have "CHR ''?'' \<notin> set (format_nat n)" for n
    using format_nat_digits [of n] by (auto simp: list_all_iff is_digit_def less_eq_char_def)
  then show "CHR ''?'' \<notin> set rest \<Longrightarrow> CHR ''?'' \<notin> set (room_path chatID rest)"
    by (auto simp: room_path_def PathRooms_def format_int_def)
qed

lemmas letter_keys = is_lower_def is_upper_def less_eq_char_def

lemma simple_Nil: "simple_params []" by (simp add: simple_params_def)

lemma room_events_simple:
  assumes "valid_string eventType" and "valid_string order"
  shows "simple_params (room_events_params userID eventType limit after before order)"
proof -
  define p4 where "p4 = set_if (eventType \<noteq> []) ''eventType'' eventType (set_if (0 < before) ''before'' (format_int before)
    (set_if (0 < after) ''after'' (format_int after) (set_if (0 < limit) ''limit'' (format_int limit) [])))"
  have "simple_params p4" unfolding p4_def
    by (intro set_if_simple simple_Nil) (simp_all add: letter_keys valid_format_int assms)
  then have "simple_params (case userID of None \<Rightarrow> p4 | Some u \<Rightarrow> values_Set p4 ''userId'' (format_int u))"
    by (cases userID) (auto intro!: values_Set_simple simp: letter_keys valid_format_int)
  then show ?thesis unfolding room_events_params_def Let_def p4_def [symmetric]
    by (intro set_if_simple) (simp_all add: letter_keys assms)
qed

section \<open>Claims\<close>

text \<open>
  The target of every room query is canonical: signing accepts it and signs it unchanged, so
  that the server verifies the very target it receives, for all identifiers, limits and well-formed
  names; and it does not depend on the iteration order of the parameter map.
\<close>

theorem room_targets_canonical:
  assumes "valid_string eventType" and "valid_string order" and "valid_string (trim_space name)"
  shows "CanonicalRequestTarget (room_events_path chatID userID eventType limit after before order) =
      Inr (room_events_path chatID userID eventType limit after before order) \<and>
    CanonicalRequestTarget (nickname_search_path chatID name limit) = Inr (nickname_search_path chatID name limit) \<and>
    CanonicalRequestTarget (members_refresh_path chatID profileUserID) = Inr (members_refresh_path chatID profileUserID) \<and>
    (\<forall>params'. mset params' = mset (room_events_params userID eventType limit after before order) \<longrightarrow>
       appendCanonicalQuery (room_path chatID ''events'') params' = room_events_path chatID userID eventType limit after before order)"
proof (intro conjI allI impI)
  show "CanonicalRequestTarget (room_events_path chatID userID eventType limit after before order) =
      Inr (room_events_path chatID userID eventType limit after before order)"
    unfolding room_events_path_def using assms by (intro simple_params_canonical room_events_simple room_path_no_query) simp_all
  show "CanonicalRequestTarget (nickname_search_path chatID name limit) = Inr (nickname_search_path chatID name limit)"
    unfolding nickname_search_path_def Let_def
    by (intro simple_params_canonical room_path_no_query set_if_simple values_Set_simple simple_Nil)
      (simp_all add: letter_keys valid_format_int assms valid_string_ascii is_ascii_def)
  show "CanonicalRequestTarget (members_refresh_path chatID profileUserID) = Inr (members_refresh_path chatID profileUserID)"
    unfolding members_refresh_path_def
    by (intro simple_params_canonical room_path_no_query set_if_simple simple_Nil) (simp_all add: letter_keys valid_format_int)
  fix params'
  assume "mset params' = mset (room_events_params userID eventType limit after before order)"
  from canonicalQueryString_perm [OF this]
  show "appendCanonicalQuery (room_path chatID ''events'') params' = room_events_path chatID userID eventType limit after before order"
    by (simp add: room_events_path_def appendCanonicalQuery_def)
qed

text \<open>
  A path segment is accepted exactly when, trimmed, it has 1 to 160 bytes, all letters, digits,
  dots, underscores, colons and hyphens, and is not a dot segment; the path then has exactly one
  segment more and is its own canonical target.
\<close>

theorem safe_segment_exact:
  "(appendSafePathSegment PathReplyStatus label v = Inr path \<longleftrightarrow>
      path = ''/reply-status/'' @ trim_space v \<and> 1 \<le> length (trim_space v) \<and> length (trim_space v) \<le> 160 \<and>
      trim_space v \<notin> {''.'', ''..''} \<and> (\<forall>b \<in> set (trim_space v). isSafePathSegmentTokenByte b)) \<and>
   (appendSafePathSegment PathReplyStatus label v = Inr path \<longrightarrow>
      count_byte CHR ''/'' path = 2 \<and> CanonicalRequestTarget path = Inr path)"
proof (intro conjI impI)
  show "appendSafePathSegment PathReplyStatus label v = Inr path \<longleftrightarrow>
      path = ''/reply-status/'' @ trim_space v \<and> 1 \<le> length (trim_space v) \<and> length (trim_space v) \<le> 160 \<and>
      trim_space v \<notin> {''.'', ''..''} \<and> (\<forall>b \<in> set (trim_space v). isSafePathSegmentTokenByte b)"
    by (auto simp: appendSafePathSegment_def safePathSegmentToken_def Let_def maxPathSegmentTokenBytes_def PathReplyStatus_def
        list_all_iff Suc_le_eq split: if_splits)
  assume "appendSafePathSegment PathReplyStatus label v = Inr path"
  then obtain seg where seg: "path = ''/reply-status/'' @ seg" "list_all isSafePathSegmentTokenByte seg"
    by (auto simp: appendSafePathSegment_def safePathSegmentToken_def Let_def PathReplyStatus_def split: if_splits)
  then have "CHR ''/'' \<notin> set seg" "CHR ''?'' \<notin> set seg"
    by (auto simp: list_all_iff isSafePathSegmentTokenByte_def is_lower_def is_upper_def is_digit_def less_eq_char_def)
  with seg show "count_byte CHR ''/'' path = 2" and "CanonicalRequestTarget path = Inr path"
    by (auto simp: count_byte_def CanonicalRequestTarget_def canonicalTarget_path filter_empty_conv)
qed


end
