(* ===== verification/Multipart.thy ===== *)
theory Multipart
  imports Client_Errors Irishmac
begin

text \<open>
  Multipart bodies of image and file replies (\<open>internal/client/multipart\<close>): the limits, the body
  factories with their digests, and the readers that deliver the bodies. A reader is a state that
  \<open>Read\<close> advances. The lemmas say exactly which payloads are admitted, that the readers deliver the
  announced bytes however they are read, and that the announced digest and length are theirs.
\<close>

section \<open>Limits\<close>

definition maxReplyImagesPerRequest :: nat where "maxReplyImagesPerRequest = 8"
definition maxReplyMultipartBodyBytes :: nat where "maxReplyMultipartBodyBytes = 31 * 1024 * 1024"
definition maxReplyMetadataBytes :: nat where "maxReplyMetadataBytes = 64 * 1024"
definition maxReplySingleImageBytes :: nat where "maxReplySingleImageBytes = 20 * 1024 * 1024"
definition maxReplyTotalImageBytes :: nat where "maxReplyTotalImageBytes = 30 * 1024 * 1024"

lemmas multipart_limits = maxReplyImagesPerRequest_def maxReplyMultipartBodyBytes_def maxReplyMetadataBytes_def
  maxReplySingleImageBytes_def maxReplyTotalImageBytes_def

datatype multipart_error =
    NoImage | TooManyImages nat | EmptyImage nat | ImageTooLarge nat nat | ImagesTooLarge nat
  | MetadataTooLarge nat | BodyTooLarge nat | LengthOverflow
  | NilReader | EmptyFile | FileTooLarge | InvalidFileName | InvalidFileContentType string
  | NegativeLength | ShortSource nat nat | NoProgress | ReadFailure go_error | CopyCancelled go_error

fun validate_images_from :: "nat \<Rightarrow> nat \<Rightarrow> bytes list \<Rightarrow> multipart_error option" where
  "validate_images_from index totalBytes [] = None"
| "validate_images_from index totalBytes (img # images) =
     (if img = [] then Some (EmptyImage index)
      else if maxReplySingleImageBytes < length img then Some (ImageTooLarge index (length img))
      else let totalBytes' = totalBytes + length img in
        if maxReplyTotalImageBytes < totalBytes' then Some (ImagesTooLarge totalBytes')
        else validate_images_from (Suc index) totalBytes' images)"

definition ValidateReplyImages :: "bytes list \<Rightarrow> multipart_error option" where
  "ValidateReplyImages images =
     (if images = [] then Some NoImage
      else if maxReplyImagesPerRequest < length images then Some (TooManyImages (length images))
      else validate_images_from 0 0 images)"

definition ValidateReplyMultipartEnvelope :: "bytes \<Rightarrow> nat \<Rightarrow> multipart_error option" where
  "ValidateReplyMultipartEnvelope metadataBytes bodyLength =
     (if maxReplyMetadataBytes < length metadataBytes then Some (MetadataTooLarge (length metadataBytes))
      else if maxReplyMultipartBodyBytes < bodyLength then Some (BodyTooLarge bodyLength)
      else None)"

section \<open>Image bodies\<close>

definition crlf :: string where "crlf = [CHR 0x0D, CHR 0x0A]"

record BodyFactory =
  bf_contentType :: string
  bf_bodySHA256 :: string
  bf_bodyLength :: nat
  bf_chunks :: "bytes list"

definition metadata_head :: "string \<Rightarrow> bytes" where
  "metadata_head boundary =
     ''--'' @ boundary @ crlf @ ''Content-Disposition: form-data; name='' @ [CHR 0x22] @ ''metadata'' @ [CHR 0x22] @ crlf @ crlf"

definition image_head :: "string \<Rightarrow> nat \<Rightarrow> string \<Rightarrow> bytes" where
  "image_head boundary i contentType =
     ''--'' @ boundary @ crlf @ ''Content-Disposition: form-data; name='' @ [CHR 0x22] @ ''image'' @ [CHR 0x22] @
     ''; filename='' @ [CHR 0x22] @ ''image-'' @ format_nat i @ [CHR 0x22] @ crlf @
     ''Content-Type: '' @ contentType @ crlf @ crlf"

definition image_chunks :: "string \<Rightarrow> bytes \<Rightarrow> bytes list \<Rightarrow> string list \<Rightarrow> bytes list" where
  "image_chunks boundary metadataBytes images contentTypes =
     [metadata_head boundary, metadataBytes, crlf] @
     concat (map (\<lambda>(i, img, ct). [image_head boundary i ct, img, crlf]) (zip [0..<length images] (zip images contentTypes))) @
     [''--'' @ boundary @ ''--'' @ crlf]"

text \<open>The caller passes as many content types as images; the source would panic otherwise.\<close>

definition NewBodyFactory :: "string \<Rightarrow> bytes \<Rightarrow> bytes list \<Rightarrow> string list \<Rightarrow> (multipart_error, BodyFactory) result" where
  "NewBodyFactory boundary metadataBytes images contentTypes =
     (let chunks = image_chunks boundary metadataBytes images contentTypes;
          bodyLength = sum_list (map length chunks)
      in case ValidateReplyMultipartEnvelope metadataBytes bodyLength of
           Some err \<Rightarrow> Inl err
         | None \<Rightarrow> Inr \<lparr>bf_contentType = ''multipart/form-data; boundary='' @ boundary,
             bf_bodySHA256 = hex_encode (sha256 (concat chunks)), bf_bodyLength = bodyLength, bf_chunks = chunks\<rparr>)"

text \<open>The reader; \<open>Read\<close> fills a buffer of \<open>n\<close> bytes, \<open>written\<close> of which are filled already.\<close>

datatype read_outcome = ReadOk | ReadEOF | ErrClosedPipe | ReadErr go_error

record bodyReader =
  br_chunks :: "bytes list"
  br_index :: nat
  br_offset :: nat
  br_closed :: bool

definition NewBody :: "BodyFactory \<Rightarrow> bodyReader" where
  "NewBody f = \<lparr>br_chunks = bf_chunks f, br_index = 0, br_offset = 0, br_closed = False\<rparr>"

function read_chunks :: "bodyReader \<Rightarrow> nat \<Rightarrow> bytes \<Rightarrow> bytes \<times> bodyReader" where
  "read_chunks r n written =
     (if length written < n \<and> br_index r < length (br_chunks r) then
        let chunk = br_chunks r ! br_index r in
        if length chunk \<le> br_offset r then read_chunks (r\<lparr>br_index := Suc (br_index r), br_offset := 0\<rparr>) n written
        else let out = take (n - length written) (drop (br_offset r) chunk) in
          read_chunks (r\<lparr>br_offset := br_offset r + length out\<rparr>) n (written @ out)
      else (written, r))"
  by pat_completeness auto
termination
  by (relation "measures [\<lambda>(r, n, written). length (br_chunks r) - br_index r, \<lambda>(r, n, written). n - length written]")
    (auto simp: Let_def)

declare read_chunks.simps [simp del]

definition bodyReader_Read :: "bodyReader \<Rightarrow> nat \<Rightarrow> bytes \<times> read_outcome \<times> bodyReader" where
  "bodyReader_Read r n =
     (if br_closed r then ([], ErrClosedPipe, r)
      else if n = 0 then ([], ReadOk, r)
      else case read_chunks r n [] of (out, r') \<Rightarrow> if out \<noteq> [] then (out, ReadOk, r') else ([], ReadEOF, r'))"

definition bodyReader_Close :: "bodyReader \<Rightarrow> bodyReader" where
  "bodyReader_Close r = r\<lparr>br_closed := True\<rparr>"

section \<open>Files\<close>

definition maxReplySingleFileBytes :: int where "maxReplySingleFileBytes = 30 * 1024 * 1024"
definition maxReplyFileNameBytes :: nat where "maxReplyFileNameBytes = 255"
definition maxReplyFileMIMEBytes :: nat where "maxReplyFileMIMEBytes = 127"
definition fileCopyBufferBytes :: nat where "fileCopyBufferBytes = 32 * 1024"

text \<open>\<open>unicode.IsControl\<close>: the code points of category Cc.\<close>

definition is_control_rune :: "nat \<Rightarrow> bool" where
  "is_control_rune r \<longleftrightarrow> r < 32 \<or> 127 \<le> r \<and> r < 160"

definition file_name_rune :: "nat \<Rightarrow> bool" where
  "file_name_rune r \<longleftrightarrow> \<not> is_control_rune r \<and> r \<notin> {47, 92, 34, 59}"

definition validateReplyFileName :: "string \<Rightarrow> bool" where
  "validateReplyFileName fileName \<longleftrightarrow>
     \<not> (fileName = [] \<or> fileName = ''.'' \<or> fileName = ''..'') \<and>
     valid_string fileName \<and> length fileName \<le> maxReplyFileNameBytes \<and>
     list_all (\<lambda>rw. file_name_rune (fst rw)) (runes fileName)"

definition isMIMETokenByte :: "char \<Rightarrow> bool" where
  "isMIMETokenByte c \<longleftrightarrow> is_lower c \<or> is_digit c \<or> c \<in> set ''!#$%&*+-.^_`|~'' \<or> c = CHR 0x27"

definition isMIMEToken :: "string \<Rightarrow> bool" where
  "isMIMEToken v \<longleftrightarrow> list_all isMIMETokenByte v"

definition normalizeReplyFileContentType :: "ucase \<Rightarrow> string \<Rightarrow> (multipart_error, string) result" where
  "normalizeReplyFileContentType uc contentType =
     (let normalized = to_lower uc (trim_space contentType) in
      if normalized = [] \<or> maxReplyFileMIMEBytes < length normalized \<or> CHR '';'' \<in> set normalized
      then Inl (InvalidFileContentType contentType)
      else case cut_at CHR ''/'' normalized of (topLevel, subtype, found) \<Rightarrow>
        if \<not> found \<or> topLevel = [] \<or> subtype = [] \<or> CHR ''/'' \<in> set subtype then Inl (InvalidFileContentType contentType)
        else if \<not> isMIMEToken topLevel \<or> \<not> isMIMEToken subtype then Inl (InvalidFileContentType contentType)
        else Inr normalized)"

text \<open>
  An \<open>io.ReaderAt\<close>: what \<open>ReadAt\<close> delivers at an offset into a buffer of a size. By its contract it
  delivers no more than the buffer holds, and fewer only with an error.
\<close>

type_synonym reader_at = "nat \<Rightarrow> nat \<Rightarrow> bytes \<times> read_outcome"

definition NormalizeReplyFile ::
  "ucase \<Rightarrow> string \<Rightarrow> string \<Rightarrow> int \<Rightarrow> reader_at option \<Rightarrow> (multipart_error, string) result" where
  "NormalizeReplyFile uc fileName contentType byteLength readerAt =
     (if readerAt = None then Inl NilReader
      else if byteLength \<le> 0 then Inl EmptyFile
      else if maxReplySingleFileBytes < byteLength then Inl FileTooLarge
      else if \<not> validateReplyFileName fileName then Inl InvalidFileName
      else normalizeReplyFileContentType uc contentType)"

definition copy_finish :: "nat \<Rightarrow> bytes \<Rightarrow> (multipart_error, bytes) result" where
  "copy_finish byteLength copied =
     (if length copied \<noteq> byteLength then Inl (ShortSource (length copied) byteLength) else Inr copied)"

text \<open>\<open>ctx\<close> gives the error of the context once so many bytes are copied; \<open>copied\<close> is what the hash got.\<close>

function copy_loop :: "(nat \<Rightarrow> go_error option) \<Rightarrow> reader_at \<Rightarrow> nat \<Rightarrow> bytes \<Rightarrow> (multipart_error, bytes) result" where
  "copy_loop ctx readerAt byteLength copied =
     (if length copied < byteLength then
        (case ctx (length copied) of
           Some err \<Rightarrow> Inl (CopyCancelled err)
         | None \<Rightarrow>
             let want = min (byteLength - length copied) fileCopyBufferBytes;
                 (out, readErr) = readerAt (length copied) want;
                 copied' = copied @ take want out
             in (case readErr of
                  ReadEOF \<Rightarrow> copy_finish byteLength copied'
                | ReadErr err \<Rightarrow> Inl (ReadFailure err)
                | ErrClosedPipe \<Rightarrow> Inl (ReadFailure (Opaque ''closed''))
                | ReadOk \<Rightarrow> if take want out = [] then Inl NoProgress else copy_loop ctx readerAt byteLength copied'))
      else copy_finish byteLength copied)"
  by pat_completeness auto
termination
  by (relation "measure (\<lambda>(ctx, readerAt, byteLength, copied). byteLength - length copied)") (auto simp: fileCopyBufferBytes_def intro!: diff_less_mono2)

declare copy_loop.simps [simp del]

definition copyReaderAtContext ::
  "(nat \<Rightarrow> go_error option) \<Rightarrow> reader_at option \<Rightarrow> int \<Rightarrow> (multipart_error, bytes) result" where
  "copyReaderAtContext ctx readerAt byteLength =
     (case readerAt of
        None \<Rightarrow> Inl NilReader
      | Some ra \<Rightarrow> if byteLength < 0 then Inl NegativeLength else copy_loop ctx ra (nat byteLength) [])"

definition DigestReaderAt :: "(nat \<Rightarrow> go_error option) \<Rightarrow> reader_at option \<Rightarrow> int \<Rightarrow> (multipart_error, string) result" where
  "DigestReaderAt ctx readerAt byteLength =
     and_then (copyReaderAtContext ctx readerAt byteLength) (\<lambda>data. Inr (hex_encode (sha256 data)))"

text \<open>64-bit signed addition wraps around.\<close>

definition wrap64 :: "int \<Rightarrow> int" where
  "wrap64 i = (i + 2 ^ 63) mod 2 ^ 64 - 2 ^ 63"

fun checked_length_from :: "int \<Rightarrow> int list \<Rightarrow> int option" where
  "checked_length_from acc [] = Some acc"
| "checked_length_from acc (part # parts) =
     (if part < 0 \<or> wrap64 (max_int64 - part) < acc then None else checked_length_from (wrap64 (acc + part)) parts)"

definition checkedMultipartLength :: "int list \<Rightarrow> int option" where
  "checkedMultipartLength parts = checked_length_from 0 parts"

record FileBodyFactory =
  ff_contentType :: string
  ff_bodySHA256 :: string
  ff_bodyLength :: int
  ff_prefix :: bytes
  ff_suffix :: bytes
  ff_readerAt :: reader_at
  ff_fileLength :: int

definition reply_file_head :: "string \<Rightarrow> bytes \<Rightarrow> string \<Rightarrow> string \<Rightarrow> bytes" where
  "reply_file_head boundary metadataBytes fileName contentType =
     metadata_head boundary @ metadataBytes @ crlf @ ''--'' @ boundary @ crlf @
     ''Content-Disposition: form-data; name='' @ [CHR 0x22] @ ''file'' @ [CHR 0x22] @
     ''; filename='' @ [CHR 0x22] @ fileName @ [CHR 0x22] @ crlf @ ''Content-Type: '' @ contentType @ crlf @ crlf"

definition reply_file_tail :: "string \<Rightarrow> bytes" where
  "reply_file_tail boundary = crlf @ ''--'' @ boundary @ ''--'' @ crlf"

definition NewFileBodyFactory ::
  "(nat \<Rightarrow> go_error option) \<Rightarrow> string \<Rightarrow> bytes \<Rightarrow> string \<Rightarrow> string \<Rightarrow> int \<Rightarrow> reader_at option
     \<Rightarrow> (multipart_error, FileBodyFactory) result" where
  "NewFileBodyFactory ctx boundary metadataBytes fileName contentType byteLength readerAt =
     (let pre = reply_file_head boundary metadataBytes fileName contentType; suf = reply_file_tail boundary in
      case checkedMultipartLength [int (length pre), byteLength, int (length suf)] of
        None \<Rightarrow> Inl LengthOverflow
      | Some bodyLength \<Rightarrow>
          (case ValidateReplyMultipartEnvelope metadataBytes (nat bodyLength) of
             Some err \<Rightarrow> Inl err
           | None \<Rightarrow>
               (case readerAt of
                  None \<Rightarrow> Inl NilReader
                | Some ra \<Rightarrow>
                    (case copyReaderAtContext ctx readerAt byteLength of
                       Inl err \<Rightarrow> Inl err
                     | Inr data \<Rightarrow>
                         Inr \<lparr>ff_contentType = ''multipart/form-data; boundary='' @ boundary,
                           ff_bodySHA256 = hex_encode (sha256 (pre @ data @ suf)), ff_bodyLength = bodyLength,
                           ff_prefix = pre, ff_suffix = suf, ff_readerAt = ra, ff_fileLength = byteLength\<rparr>))))"

text \<open>The readers \<open>NewBody\<close> chains: bytes in memory and a section of the file.\<close>

datatype piece = BytesPiece bytes | SectionPiece reader_at nat nat

fun piece_read :: "piece \<Rightarrow> nat \<Rightarrow> bytes \<times> read_outcome \<times> piece" where
  "piece_read (BytesPiece bs) n = (if bs = [] then ([], ReadEOF, BytesPiece []) else (take n bs, ReadOk, BytesPiece (drop n bs)))"
| "piece_read (SectionPiece ra off limit) n =
     (if limit \<le> off then ([], ReadEOF, SectionPiece ra off limit)
      else case ra off (min n (limit - off)) of (out, oc) \<Rightarrow> (out, oc, SectionPiece ra (off + length out) limit))"

text \<open>\<open>io.MultiReader\<close>.\<close>

fun multi_read :: "piece list \<Rightarrow> nat \<Rightarrow> bytes \<times> read_outcome \<times> piece list" where
  "multi_read [] n = ([], ReadEOF, [])"
| "multi_read (p # ps) n =
     (case piece_read p n of (out, oc, p') \<Rightarrow>
        let ps' = (if oc = ReadEOF then ps else p' # ps) in
        if out \<noteq> [] \<or> oc \<noteq> ReadEOF then (out, if oc = ReadEOF \<and> ps' \<noteq> [] then ReadOk else oc, ps')
        else multi_read ps n)"

record fileBodyReader =
  fr_pieces :: "piece list"
  fr_closed :: bool

definition file_NewBody :: "FileBodyFactory \<Rightarrow> fileBodyReader" where
  "file_NewBody f =
     \<lparr>fr_pieces = [BytesPiece (ff_prefix f), SectionPiece (ff_readerAt f) 0 (nat (ff_fileLength f)), BytesPiece (ff_suffix f)],
      fr_closed = False\<rparr>"

definition fileBodyReader_Read :: "fileBodyReader \<Rightarrow> nat \<Rightarrow> bytes \<times> read_outcome \<times> fileBodyReader" where
  "fileBodyReader_Read r n =
     (if fr_closed r then ([], ErrClosedPipe, r)
      else case multi_read (fr_pieces r) n of (out, oc, ps) \<Rightarrow> (out, oc, r\<lparr>fr_pieces := ps\<rparr>))"

definition fileBodyReader_Close :: "fileBodyReader \<Rightarrow> fileBodyReader" where
  "fileBodyReader_Close r = r\<lparr>fr_closed := True\<rparr>"

section \<open>The contract of a request body\<close>

text \<open>
  What the HTTP client relies on of a body: while the state is sound, a read delivers the next bytes
  of what remains, at least one if there is one, and reports the end exactly when nothing remains.
\<close>

locale body_source =
  fixes sound :: "'s \<Rightarrow> bool"
    and remaining :: "'s \<Rightarrow> bytes"
    and read :: "'s \<Rightarrow> nat \<Rightarrow> bytes \<times> read_outcome \<times> 's"
  assumes read_next: "sound s \<Longrightarrow> 0 < n \<Longrightarrow> read s n = (out, oc, s') \<Longrightarrow>
      sound s' \<and> remaining s = out @ remaining s' \<and> length out \<le> n"
    and read_progress: "sound s \<Longrightarrow> 0 < n \<Longrightarrow> read s n = (out, oc, s') \<Longrightarrow>
      (if remaining s = [] then out = [] \<and> oc = ReadEOF else out \<noteq> []) \<and>
      (oc = ReadOk \<or> oc = ReadEOF \<and> remaining s' = [])"
begin

text \<open>Reading with buffers of the given sizes until the end.\<close>

fun drain :: "nat list \<Rightarrow> 's \<Rightarrow> bytes \<times> bool" where
  "drain [] s = ([], False)"
| "drain (n # ns) s =
     (case read s n of (out, oc, s') \<Rightarrow>
        if oc = ReadEOF then (out, True) else if oc \<noteq> ReadOk then (out, False)
        else case drain ns s' of (rest, eof) \<Rightarrow> (out @ rest, eof))"

lemma drain_complete:
  "sound s \<Longrightarrow> list_all (\<lambda>n. 0 < n) ns \<Longrightarrow> length (remaining s) < length ns \<Longrightarrow> drain ns s = (remaining s, True)"
proof (induction ns arbitrary: s)
  case (Cons n ns)
  obtain out oc s' where r: "read s n = (out, oc, s')" by (meson prod_cases3)
  from Cons.prems have n: "0 < n" "list_all (\<lambda>n. 0 < n) ns" by auto
  note next_ = read_next [OF Cons.prems(1) n(1) r] and progress = read_progress [OF Cons.prems(1) n(1) r]
  show ?case
  proof (cases "oc = ReadEOF")
    case True
    with next_ progress r show ?thesis by (auto split: if_splits)
  next
    case False
    with progress have ok: "oc = ReadOk" "out \<noteq> []" by (auto split: if_splits)
    then have "length (remaining s') < length ns" using next_ Cons.prems(3) by (cases out) auto
    with Cons.IH [of s'] next_ n(2) have "drain ns s' = (remaining s', True)" by auto
    with ok r next_ show ?thesis by simp
  qed
qed simp

lemma drain_prefix:
  "sound s \<Longrightarrow> list_all (\<lambda>n. 0 < n) ns \<Longrightarrow> drain ns s = (out, eof) \<Longrightarrow>
     prefix out (remaining s) \<and> (eof \<longrightarrow> out = remaining s)"
proof (induction ns arbitrary: s out eof)
  case (Cons n ns)
  obtain o1 oc s' where r: "read s n = (o1, oc, s')" by (meson prod_cases3)
  from Cons.prems have n: "0 < n" "list_all (\<lambda>n. 0 < n) ns" by auto
  note next_ = read_next [OF Cons.prems(1) n(1) r] and progress = read_progress [OF Cons.prems(1) n(1) r]
  obtain rest f where d: "drain ns s' = (rest, f)" by fastforce
  from Cons.IH [OF _ n(2) d] next_ have "prefix rest (remaining s')" "f \<longrightarrow> rest = remaining s'" by auto
  moreover have "(out, eof) = (if oc = ReadEOF then (o1, True) else (o1 @ rest, f))"
    using Cons.prems(3) r d progress by (auto split: if_splits)
  moreover have "oc = ReadEOF \<Longrightarrow> remaining s' = []" using progress by simp
  moreover have "remaining s = o1 @ remaining s'" using next_ by simp
  ultimately show ?case by (cases "oc = ReadEOF") simp_all
qed simp

end

section \<open>Image bodies\<close>

lemma take_drop_length: "xs = take k xs @ drop (length (take k xs)) xs"
  by (cases "k \<le> length xs") auto

definition br_sound :: "bodyReader \<Rightarrow> bool" where "br_sound r \<longleftrightarrow> \<not> br_closed r"

definition br_remaining :: "bodyReader \<Rightarrow> bytes" where
  "br_remaining r =
     (if br_index r < length (br_chunks r)
      then drop (br_offset r) (br_chunks r ! br_index r) @ concat (drop (Suc (br_index r)) (br_chunks r)) else [])"

lemma br_remaining_at:
  "i < length cs \<Longrightarrow> concat (drop i cs) = (cs ! i) @ concat (drop (Suc i) cs)"
  by (simp add: Cons_nth_drop_Suc [symmetric])

lemma br_remaining_start: "br_offset r = 0 \<Longrightarrow> br_remaining r = concat (drop (br_index r) (br_chunks r))"
  by (simp add: br_remaining_def br_remaining_at)

lemma read_chunks_run:
  "read_chunks r n written = (out, r') \<Longrightarrow> length written \<le> n \<Longrightarrow>
     \<exists>new. out = written @ new \<and> br_remaining r = new @ br_remaining r' \<and> length out \<le> n \<and>
       br_closed r' = br_closed r \<and> (length out < n \<longrightarrow> br_remaining r' = [])"
proof (induction r n written arbitrary: out rule: read_chunks.induct)
  case (1 r n written)
  show ?case
  proof (cases "length written < n \<and> br_index r < length (br_chunks r)")
    case False
    with 1(3,4) show ?thesis by (auto simp: read_chunks.simps [of r n written] br_remaining_def)
  next
    case more: True
    let ?chunk = "br_chunks r ! br_index r"
    show ?thesis
    proof (cases "length ?chunk \<le> br_offset r")
      case True
      let ?r1 = "r\<lparr>br_index := Suc (br_index r), br_offset := 0\<rparr>"
      have "read_chunks ?r1 n written = (out, r')" using 1(3) more True by (simp add: read_chunks.simps [of r n written])
      from 1(1) [OF more refl True this 1(4)] have "\<exists>new. out = written @ new \<and> br_remaining ?r1 = new @ br_remaining r' \<and>
          length out \<le> n \<and> br_closed r' = br_closed r \<and> (length out < n \<longrightarrow> br_remaining r' = [])" by simp
      moreover have "br_remaining ?r1 = br_remaining r"
        using more True br_remaining_start [of ?r1] by (simp add: br_remaining_def)
      ultimately show ?thesis by simp
    next
      case False
      let ?out = "take (n - length written) (drop (br_offset r) ?chunk)"
      let ?r1 = "r\<lparr>br_offset := br_offset r + length ?out\<rparr>"
      have "read_chunks ?r1 n (written @ ?out) = (out, r')"
        using 1(3) more False by (simp add: read_chunks.simps [of r n written] Let_def)
      from 1(2) [OF more refl False refl this] have "\<exists>new. out = (written @ ?out) @ new \<and> br_remaining ?r1 = new @ br_remaining r' \<and>
          length out \<le> n \<and> br_closed r' = br_closed r \<and> (length out < n \<longrightarrow> br_remaining r' = [])"
        using more by auto
      moreover have "br_remaining r = ?out @ br_remaining ?r1"
      proof -
        have "drop (br_offset r) ?chunk = ?out @ drop (length ?out) (drop (br_offset r) ?chunk)"
          by (rule take_drop_length)
        then show ?thesis using more by (simp add: br_remaining_def add.commute)
      qed
      ultimately show ?thesis by auto
    qed
  qed
qed

interpretation image_body: body_source br_sound br_remaining bodyReader_Read
proof
  fix s n out oc s'
  assume s: "br_sound s" "0 < n" "bodyReader_Read s n = (out, oc, s')"
  obtain o1 s1 where r: "read_chunks s n [] = (o1, s1)" by fastforce
  from read_chunks_run [OF r] have run: "br_remaining s = o1 @ br_remaining s1" "length o1 \<le> n" "br_closed s1 = br_closed s"
    "length o1 < n \<longrightarrow> br_remaining s1 = []" by auto
  have res: "out = o1" "s' = s1" "oc = (if o1 \<noteq> [] then ReadOk else ReadEOF)"
    using s r by (auto simp: bodyReader_Read_def br_sound_def split: if_splits)
  show "br_sound s' \<and> br_remaining s = out @ br_remaining s' \<and> length out \<le> n"
    using run s(1) res by (simp add: br_sound_def)
  show "(if br_remaining s = [] then out = [] \<and> oc = ReadEOF else out \<noteq> []) \<and>
      (oc = ReadOk \<or> oc = ReadEOF \<and> br_remaining s' = [])"
    using run s(2) res by auto
qed

section \<open>File bodies\<close>

text \<open>A reader of a file that keeps its contents, as the caller of \<open>SendFile\<close> promises, and obeys \<open>io.ReaderAt\<close>.\<close>

definition reads_file :: "reader_at \<Rightarrow> bytes \<Rightarrow> bool" where
  "reads_file ra content \<longleftrightarrow>
     (\<forall>off n. fst (ra off n) = take n (drop off content) \<and>
        (snd (ra off n) = ReadOk \<and> off + n \<le> length content \<or> snd (ra off n) = ReadEOF \<and> length content \<le> off + n))"

fun piece_sound :: "bytes \<Rightarrow> piece \<Rightarrow> bool" where
  "piece_sound content (BytesPiece bs) \<longleftrightarrow> True"
| "piece_sound content (SectionPiece ra off limit) \<longleftrightarrow> reads_file ra content \<and> limit \<le> length content"

fun piece_remaining :: "bytes \<Rightarrow> piece \<Rightarrow> bytes" where
  "piece_remaining content (BytesPiece bs) = bs"
| "piece_remaining content (SectionPiece ra off limit) = take (limit - off) (drop off content)"

lemma piece_read_run:
  assumes "piece_sound content p" and "0 < n" and "piece_read p n = (out, oc, p')"
  shows "piece_sound content p' \<and> piece_remaining content p = out @ piece_remaining content p' \<and> length out \<le> n \<and>
    (oc = ReadOk \<and> out \<noteq> [] \<or> oc = ReadEOF \<and> piece_remaining content p' = [])"
proof (cases p)
  case (BytesPiece bs)
  with assms show ?thesis by (auto split: if_splits)
next
  case (SectionPiece ra off limit)
  show ?thesis
  proof (cases "limit \<le> off")
    case True
    with SectionPiece assms show ?thesis by auto
  next
    case False
    let ?w = "min n (limit - off)"
    have h: "reads_file ra content" "limit \<le> length content" using assms(1) SectionPiece by auto
    have ra: "fst (ra off ?w) = take ?w (drop off content)"
      "snd (ra off ?w) = ReadOk \<or> snd (ra off ?w) = ReadEOF \<and> length content \<le> off + ?w" "limit \<le> length content"
      using h unfolding reads_file_def by blast+
    have out: "out = take ?w (drop off content)" "oc = snd (ra off ?w)" "p' = SectionPiece ra (off + length out) limit"
      using assms(3) SectionPiece False ra(1) by (auto split: prod.splits)
    have len: "length out = ?w" "off + ?w \<le> limit" using False ra(3) by (auto simp: out(1))
    have "take (limit - off) (drop off content) = out @ take (limit - (off + ?w)) (drop (off + ?w) content)"
    proof -
      have "limit - off = ?w + (limit - (off + ?w))" using len(2) by simp
      then show ?thesis unfolding out(1) by (metis take_add drop_drop add.commute)
    qed
    moreover have "0 < ?w" using False assms(2) by simp
    then have "out \<noteq> []" using len(1) by auto
    ultimately show ?thesis using out len ra SectionPiece assms(1) by auto
  qed
qed

lemma multi_read_run:
  "list_all (piece_sound content) ps \<Longrightarrow> 0 < n \<Longrightarrow> multi_read ps n = (out, oc, ps') \<Longrightarrow>
     list_all (piece_sound content) ps' \<and> concat (map (piece_remaining content) ps) = out @ concat (map (piece_remaining content) ps') \<and>
     length out \<le> n \<and> (oc = ReadOk \<and> out \<noteq> [] \<or> oc = ReadEOF \<and> concat (map (piece_remaining content) ps') = [])"
proof (induction ps arbitrary: out oc ps')
  case (Cons p ps)
  obtain o1 oc1 p1 where r: "piece_read p n = (o1, oc1, p1)" by (meson prod_cases3)
  from Cons.prems have sound: "piece_sound content p" "list_all (piece_sound content) ps" by auto
  note run = piece_read_run [OF sound(1) Cons.prems(2) r]
  show ?case
  proof (cases "o1 = [] \<and> oc1 = ReadEOF")
    case True
    with Cons.prems(3) r have "multi_read ps n = (out, oc, ps')" by simp
    from Cons.IH [OF sound(2) Cons.prems(2) this] True run show ?thesis by auto
  next
    case False
    show ?thesis
    proof (cases "oc1 = ReadEOF")
      case True
      then have "out = o1" "ps' = ps" "oc = (if ps \<noteq> [] then ReadOk else ReadEOF)"
        using Cons.prems(3) r False by auto
      with run True False sound(2) show ?thesis by auto
    next
      case ok: False
      then have "out = o1" "ps' = p1 # ps" "oc = oc1" using Cons.prems(3) r by auto
      with run ok sound(2) show ?thesis by auto
    qed
  qed
qed simp

definition fr_sound :: "bytes \<Rightarrow> fileBodyReader \<Rightarrow> bool" where
  "fr_sound content r \<longleftrightarrow> \<not> fr_closed r \<and> list_all (piece_sound content) (fr_pieces r)"

definition fr_remaining :: "bytes \<Rightarrow> fileBodyReader \<Rightarrow> bytes" where
  "fr_remaining content r = concat (map (piece_remaining content) (fr_pieces r))"

interpretation file_body: body_source "fr_sound content" "fr_remaining content" fileBodyReader_Read
  for content
proof
  fix s n out oc s'
  assume s: "fr_sound content s" "0 < n" "fileBodyReader_Read s n = (out, oc, s')"
  obtain ps where r: "multi_read (fr_pieces s) n = (out, oc, ps)" "s' = s\<lparr>fr_pieces := ps\<rparr>"
    using s by (auto simp: fileBodyReader_Read_def fr_sound_def split: prod.splits)
  from s(1) have "list_all (piece_sound content) (fr_pieces s)" by (simp add: fr_sound_def)
  note run = multi_read_run [OF this s(2) r(1)]
  show "fr_sound content s' \<and> fr_remaining content s = out @ fr_remaining content s' \<and> length out \<le> n"
    using run s(1) r(2) by (simp add: fr_sound_def fr_remaining_def)
  show "(if fr_remaining content s = [] then out = [] \<and> oc = ReadEOF else out \<noteq> []) \<and>
      (oc = ReadOk \<or> oc = ReadEOF \<and> fr_remaining content s' = [])"
    using run r(2) by (auto simp: fr_remaining_def)
qed

lemma copy_loop_exact:
  assumes "reads_file ra content" and "\<And>n. ctx n = None"
  shows "copied = take (length copied) content \<Longrightarrow> length copied \<le> byteLength \<Longrightarrow> length copied \<le> length content \<Longrightarrow>
    copy_loop ctx ra byteLength copied =
      (if byteLength \<le> length content then Inr (take byteLength content) else Inl (ShortSource (length content) byteLength))"
proof (induction "byteLength - length copied" arbitrary: copied rule: less_induct)
  case less
  show ?case
  proof (cases "length copied < byteLength")
    case False
    with less.prems have "length copied = byteLength" by simp
    with less.prems show ?thesis by (subst copy_loop.simps) (auto simp: copy_finish_def)
  next
    case True
    let ?want = "min (byteLength - length copied) fileCopyBufferBytes"
    have want: "0 < ?want" "length copied + ?want \<le> byteLength" using True by (auto simp: fileCopyBufferBytes_def)
    obtain out oc where r: "ra (length copied) ?want = (out, oc)" by fastforce
    with assms(1) have out: "out = take ?want (drop (length copied) content)"
      and oc: "oc = ReadOk \<and> length copied + ?want \<le> length content \<or> oc = ReadEOF \<and> length content \<le> length copied + ?want"
      unfolding reads_file_def by (metis fst_conv snd_conv)+
    define copied' where "copied' = take (length copied + ?want) content"
    have c': "copied @ take ?want out = copied'"
      using less.prems(1) by (simp add: out copied'_def take_add)
    have step: "copy_loop ctx ra byteLength copied =
        (if oc = ReadEOF then copy_finish byteLength copied'
         else if take ?want out = [] then Inl NoProgress else copy_loop ctx ra byteLength copied')"
      using True r oc assms(2) c' by (auto simp: copy_loop.simps [of ctx ra byteLength copied] Let_def)
    show ?thesis
    proof (cases "oc = ReadEOF")
      case True
      with oc have "copied' = content" "length content \<le> byteLength" using want(2) by (auto simp: copied'_def)
      with step True show ?thesis by (auto simp: copy_finish_def)
    next
      case False
      with oc have full: "length copied + ?want \<le> length content" by simp
      then have len: "length copied' = length copied + ?want" by (simp add: copied'_def)
      with c' want(1) have "take ?want out \<noteq> []" by auto
      with step False have "copy_loop ctx ra byteLength copied = copy_loop ctx ra byteLength copied'"
        by (simp only: if_False)
      also have "\<dots> = (if byteLength \<le> length content then Inr (take byteLength content) else Inl (ShortSource (length content) byteLength))"
      proof (rule less.hyps)
        show "byteLength - length copied' < byteLength - length copied" using len want True by linarith
        show "copied' = take (length copied') content" by (simp add: len) (simp add: copied'_def)
      qed (use len want(2) full in linarith)+
      finally show ?thesis .
    qed
  qed
qed


section \<open>Lengths and limits\<close>

lemma wrap64_id: "min_int64 \<le> i \<Longrightarrow> i \<le> max_int64 \<Longrightarrow> wrap64 i = i"
  by (simp add: wrap64_def min_int64_def max_int64_def)

lemma checked_length_exact:
  "0 \<le> acc \<Longrightarrow> acc \<le> max_int64 \<Longrightarrow> list_all (\<lambda>p. p \<le> max_int64) parts \<Longrightarrow>
     checked_length_from acc parts =
       (if list_all (\<lambda>p. 0 \<le> p) parts \<and> acc + sum_list parts \<le> max_int64 then Some (acc + sum_list parts) else None)"
proof (induction acc parts rule: checked_length_from.induct)
  case (2 acc part parts)
  show ?case
  proof (cases "0 \<le> part")
    case True
    then have w: "wrap64 (max_int64 - part) = max_int64 - part"
      using 2(4) by (intro wrap64_id) (auto simp: min_int64_def max_int64_def)
    show ?thesis
    proof (cases "acc + part \<le> max_int64")
      case ok: True
      then have "wrap64 (acc + part) = acc + part" using True 2(2) by (intro wrap64_id) (auto simp: min_int64_def)
      with 2 True ok w show ?thesis by (simp add: add.assoc)
    next
      case False
      then have "list_all (\<lambda>p. 0 \<le> p) parts \<Longrightarrow> \<not> acc + (part + sum_list parts) \<le> max_int64"
        using sum_list_nonneg [of parts] by (auto simp: list_all_iff)
      with False w True show ?thesis by auto
    qed
  qed simp
qed simp

lemma validate_images_from_exact:
  "validate_images_from index acc images = None \<longleftrightarrow>
     list_all (\<lambda>img. img \<noteq> [] \<and> length img \<le> maxReplySingleImageBytes) images \<and>
     (images = [] \<or> acc + sum_list (map length images) \<le> maxReplyTotalImageBytes)"
  by (induction index acc images rule: validate_images_from.induct) (auto simp: Let_def add.assoc)

section \<open>Claims\<close>

text \<open>
  C32: a multipart image body, read to the end with buffers of any sizes, is exactly the announced
  number of bytes whose digest was announced (and signed); it holds the metadata and every image in
  order between the boundaries, and it never exceeds 31 MiB.
\<close>

theorem image_body_as_announced:
  assumes "NewBodyFactory boundary meta images contentTypes = Inr f"
    and "list_all (\<lambda>n. 0 < n) sizes" and "bf_bodyLength f < length sizes"
  shows "image_body.drain sizes (NewBody f) = (concat (image_chunks boundary meta images contentTypes), True) \<and>
    bf_bodySHA256 f = hex_encode (sha256 (concat (image_chunks boundary meta images contentTypes))) \<and>
    bf_bodyLength f = length (concat (image_chunks boundary meta images contentTypes)) \<and>
    bf_bodyLength f \<le> 31 * 1024 * 1024"
proof -
  let ?chunks = "image_chunks boundary meta images contentTypes"
  have f: "bf_chunks f = ?chunks" "bf_bodySHA256 f = hex_encode (sha256 (concat ?chunks))"
      "bf_bodyLength f = length (concat ?chunks)" "bf_bodyLength f \<le> maxReplyMultipartBodyBytes"
    using assms(1)
    by (auto simp: NewBodyFactory_def Let_def length_concat ValidateReplyMultipartEnvelope_def split: option.splits if_splits)
  have "br_sound (NewBody f)" "br_remaining (NewBody f) = concat ?chunks"
    using f(1) by (simp_all add: br_sound_def NewBody_def br_remaining_start)
  with image_body.drain_complete [of "NewBody f" sizes] assms(2,3) f show ?thesis
    by (simp add: maxReplyMultipartBodyBytes_def)
qed

text \<open>
  C33: a file body over a file that keeps its contents, read to the end with buffers of any sizes, is
  exactly the announced number of bytes whose digest was announced: head, the first bytes of the
  file, tail; the factory refuses a file that is shorter than announced, and the digest in the
  metadata is the digest of the same bytes.
\<close>

theorem file_body_as_announced:
  assumes "reads_file ra content" and "\<And>n. ctx n = None"
    and "NewFileBodyFactory ctx boundary meta fileName contentType len (Some ra) = Inr f"
    and "len \<le> max_int64" and "list_all (\<lambda>n. 0 < n) sizes" and "ff_bodyLength f < int (length sizes)"
    and "int (length (reply_file_head boundary meta fileName contentType)) \<le> max_int64"
    and "int (length (reply_file_tail boundary)) \<le> max_int64"
  shows "let data = take (nat len) content;
      body = reply_file_head boundary meta fileName contentType @ data @ reply_file_tail boundary in
    file_body.drain sizes (file_NewBody f) = (body, True) \<and> ff_bodySHA256 f = hex_encode (sha256 body) \<and>
    ff_bodyLength f = int (length body) \<and> ff_bodyLength f \<le> 31 * 1024 * 1024 \<and> nat len \<le> length content \<and>
    DigestReaderAt ctx (Some ra) len = Inr (hex_encode (sha256 data))"
proof -
  let ?pre = "reply_file_head boundary meta fileName contentType" and ?suf = "reply_file_tail boundary"
  obtain total where total: "checkedMultipartLength [int (length ?pre), len, int (length ?suf)] = Some total"
    "ValidateReplyMultipartEnvelope meta (nat total) = None" "ff_bodyLength f = total"
    using assms(3) by (auto simp: NewFileBodyFactory_def Let_def split: option.splits sum.splits)
  have len: "0 \<le> len" "total = int (length ?pre) + len + int (length ?suf)"
    using total(1) assms(4,7,8) checked_length_exact [of 0 "[int (length ?pre), len, int (length ?suf)]"]
    by (auto simp: checkedMultipartLength_def max_int64_def split: if_splits)
  obtain data where data: "copyReaderAtContext ctx (Some ra) len = Inr data"
    and f: "ff_bodySHA256 f = hex_encode (sha256 (?pre @ data @ ?suf))" "ff_prefix f = ?pre" "ff_suffix f = ?suf"
      "ff_readerAt f = ra" "ff_fileLength f = len"
    using assms(3) by (auto simp: NewFileBodyFactory_def Let_def split: option.splits sum.splits)
  have loop: "copy_loop ctx ra (nat len) [] =
      (if nat len \<le> length content then Inr (take (nat len) content) else Inl (ShortSource (length content) (nat len)))"
    using copy_loop_exact [OF assms(1,2), of "[]" "nat len"] by simp
  with data len(1) have d: "data = take (nat len) content" "nat len \<le> length content"
    by (auto simp: copyReaderAtContext_def split: if_splits)
  have sound: "fr_sound content (file_NewBody f)" and rem: "fr_remaining content (file_NewBody f) = ?pre @ data @ ?suf"
    using assms(1) d f by (simp_all add: fr_sound_def fr_remaining_def file_NewBody_def)
  have blen: "total = int (length (?pre @ data @ ?suf))" using len d by simp
  from file_body.drain_complete [OF sound assms(5)] rem blen assms(6) total(3)
  have "file_body.drain sizes (file_NewBody f) = (?pre @ data @ ?suf, True)" by simp
  moreover have "total \<le> 31 * 1024 * 1024"
    using total(2) by (auto simp: ValidateReplyMultipartEnvelope_def multipart_limits split: if_splits)
  moreover have "DigestReaderAt ctx (Some ra) len = Inr (hex_encode (sha256 data))" by (simp add: DigestReaderAt_def data)
  ultimately show ?thesis using f(1) d blen total(3) by (simp add: Let_def)
qed

text \<open>
  Image payloads are admitted exactly when there are one to eight of them, none empty, none over
  20 MiB, all together at most 30 MiB.
\<close>

theorem reply_images_exact:
  "ValidateReplyImages images = None \<longleftrightarrow>
     1 \<le> length images \<and> length images \<le> 8 \<and>
     (\<forall>i < length images. 1 \<le> length (images ! i) \<and> length (images ! i) \<le> 20 * 1024 * 1024) \<and>
     sum_list (map length images) \<le> 30 * 1024 * 1024"
proof -
  have "list_all (\<lambda>img. img \<noteq> [] \<and> length img \<le> maxReplySingleImageBytes) images \<longleftrightarrow>
      (\<forall>i < length images. 1 \<le> length (images ! i) \<and> length (images ! i) \<le> maxReplySingleImageBytes)"
    by (auto simp: list_all_length Suc_le_eq)
  then show ?thesis
    by (auto simp: ValidateReplyImages_def validate_images_from_exact multipart_limits Suc_le_eq)
qed

section \<open>Witnesses\<close>

lemma sample_image_factory:
  "\<exists>f. NewBodyFactory ''b'' ''{}'' [''x''] [''image/png''] = Inr f \<and> bf_bodyLength f < 1000"
  by (simp add: NewBodyFactory_def Let_def ValidateReplyMultipartEnvelope_def multipart_limits image_chunks_def
      metadata_head_def image_head_def crlf_def format_nat.simps)

theorem image_body_as_announced_witness:
  "\<exists>f. NewBodyFactory ''b'' ''{}'' [''x''] [''image/png''] = Inr f \<and>
     snd (image_body.drain (replicate 1000 1) (NewBody f)) = True"
proof -
  obtain f where f: "NewBodyFactory ''b'' ''{}'' [''x''] [''image/png''] = Inr f" "bf_bodyLength f < length (replicate 1000 (1 :: nat))"
    using sample_image_factory by auto
  have "list_all (\<lambda>n. 0 < n) (replicate 1000 (1 :: nat))" by (simp add: list_all_iff)
  from image_body_as_announced [OF f(1) this f(2)] f(1) show ?thesis by auto
qed

definition sample_file :: reader_at where
  "sample_file off n = (take n (drop off ''hello''), if off + n \<le> 5 then ReadOk else ReadEOF)"

lemma sample_file_reads: "reads_file sample_file ''hello''"
  by (auto simp: reads_file_def sample_file_def)

lemma sample_file_factory:
  "\<exists>f. NewFileBodyFactory (\<lambda>_. None) ''b'' ''{}'' ''a.txt'' ''text/plain'' 5 (Some sample_file) = Inr f \<and> ff_bodyLength f < 1000"
proof -
  have "copyReaderAtContext (\<lambda>_. None) (Some sample_file) 5 = Inr ''hello''"
    using copy_loop_exact [OF sample_file_reads, of "\<lambda>_. None" "[]" 5] by (simp add: copyReaderAtContext_def)
  then show ?thesis
    by (simp add: NewFileBodyFactory_def Let_def checkedMultipartLength_def wrap64_def max_int64_def
        ValidateReplyMultipartEnvelope_def multipart_limits reply_file_head_def reply_file_tail_def metadata_head_def crlf_def)
qed

theorem file_body_as_announced_witness:
  "\<exists>f. NewFileBodyFactory (\<lambda>_. None) ''b'' ''{}'' ''a.txt'' ''text/plain'' 5 (Some sample_file) = Inr f \<and>
     snd (file_body.drain (replicate 1000 1) (file_NewBody f)) = True"
proof -
  obtain f where f: "NewFileBodyFactory (\<lambda>_. None) ''b'' ''{}'' ''a.txt'' ''text/plain'' 5 (Some sample_file) = Inr f"
    "ff_bodyLength f < int (length (replicate 1000 (1 :: nat)))"
    using sample_file_factory by auto
  have sizes: "list_all (\<lambda>n. 0 < n) (replicate 1000 (1 :: nat))" by (simp add: list_all_iff)
  have small: "5 \<le> max_int64" "int (length (reply_file_head ''b'' ''{}'' ''a.txt'' ''text/plain'')) \<le> max_int64"
    "int (length (reply_file_tail ''b'')) \<le> max_int64"
    by (simp_all add: max_int64_def reply_file_head_def reply_file_tail_def metadata_head_def crlf_def)
  from file_body_as_announced [OF sample_file_reads refl f(1) small(1) sizes f(2) small(2,3)] f(1) show ?thesis
    by (auto simp: Let_def)
qed


end
