(* ===== verification/Client_Resend.thy ===== *)
theory Client_Resend
  imports Client_Replies
begin

text \<open>
  When a reply is sent again (\<open>internal/client/transport/retry.go\<close>, \<open>client.go\<close>, \<open>execute.go\<close>, \<open>sender.go\<close>): the
  retry loop, the replay for a new epoch and the decoding of answers together. The lemmas show, for
  every request builder, that a call without a client request identifier sends a request again only
  after the server turned the earlier one away.
\<close>

section \<open>What may be sent again\<close>

text \<open>
  A request the server turned away: it answered 429, or it refused the request for its epoch.
  Either answer says that the request was not carried out.
\<close>

definition turned_away :: "client_io \<Rightarrow> string \<Rightarrow> creq list \<Rightarrow> creq \<Rightarrow> bool" where
  "turned_away io path sent q \<longleftrightarrow>
     (\<exists>resp. io_do io sent q = Inr resp \<and> resp_status resp = 429) \<or> epoch_refused io path sent q"

text \<open>
  Among the requests \<open>new\<close>, sent after \<open>sent\<close>, every one that is not discovery and is followed by
  another such request was turned away; \<open>again\<close> says that one follows behind \<open>new\<close>.
\<close>

fun resends_ok :: "client_io \<Rightarrow> string \<Rightarrow> APIClient \<Rightarrow> creq list \<Rightarrow> creq list \<Rightarrow> bool \<Rightarrow> bool" where
  "resends_ok io path c sent [] again \<longleftrightarrow> True"
| "resends_ok io path c sent (q # new) again \<longleftrightarrow>
     (\<not> discovery_of c q \<and> (protected_of c new \<noteq> [] \<or> again) \<longrightarrow> turned_away io path sent q) \<and>
     resends_ok io path c (sent @ [q]) new again"

lemma resends_ok_append:
  "resends_ok io path c sent (xs @ ys) again \<longleftrightarrow>
     resends_ok io path c sent xs (protected_of c ys \<noteq> [] \<or> again) \<and> resends_ok io path c (sent @ xs) ys again"
  by (induction xs arbitrary: sent) auto

lemma resends_ok_discovery [simp]: "list_all (discovery_of c) ps \<Longrightarrow> resends_ok io path c sent ps again"
  by (induction ps arbitrary: sent) auto

lemma resends_ok_mono: "resends_ok io path c sent xs a \<Longrightarrow> (b \<Longrightarrow> a) \<Longrightarrow> resends_ok io path c sent xs b"
  by (induction xs arbitrary: sent) auto

lemma resends_ok_config:
  "same_config c c' \<Longrightarrow> resends_ok io path c' sent xs again = resends_ok io path c sent xs again"
  by (induction xs arbitrary: sent) (auto simp: same_config_discovery protected_of_def)

lemma resends_ok_split:
  assumes "resends_ok io path c sent (before @ q # after) False" and "\<not> discovery_of c q" and "protected_of c after \<noteq> []"
  shows "turned_away io path (sent @ before) q"
  using assms by (simp add: resends_ok_append)

section \<open>Rounds and calls\<close>

text \<open>
  What the program relies on of the network and of the decoder: their errors are never the client's
  own sentinel for a rate limit.
\<close>

definition network_errors_ok :: "client_io \<Rightarrow> sentinel \<Rightarrow> bool" where
  "network_errors_ok io t \<longleftrightarrow> (\<forall>sent q e. io_do io sent q = Inl e \<longrightarrow> \<not> errors_Is e t)"

definition answers_ok :: "'t call_io \<Rightarrow> sentinel \<Rightarrow> bool" where
  "answers_ok ci t \<longleftrightarrow>
     (\<forall>sent q resp n. io_do (ci_io ci) sent q = Inr resp \<longrightarrow> response_errors_ok t (ci_decode ci n) (resp_body resp))"

definition rate_limited :: "go_error \<Rightarrow> bool" where
  "rate_limited e \<longleftrightarrow> errors_Is e ErrRateLimited \<and> \<not> is_stop e"

lemma unkeyed_retry: "isRetryableReplyError e False \<Longrightarrow> rate_limited e"
  by (auto simp: isRetryableReplyError_def isRetryableError_def rate_limited_def split: if_splits)

lemma http_rate_limited: "errors_Is (HTTPErr e) ErrRateLimited \<Longrightarrow> he_StatusCode e = 429"
  by (auto simp: HTTPError_Is_def http_status_defs split: if_splits)

lemma do_round_rate_limited:
  assumes "network_errors_ok io ErrRateLimited" and "rate_limited e"
    and "do_round io op path errURL idem req c refreshed = (Inl (Some (Inl e)), c', refreshed')"
  shows "turned_away io path (ac_sent c) req"
  using assms(3)
proof (cases rule: do_round_cases)
  case (network err)
  then have "\<not> errors_Is err ErrRateLimited" using assms(1) unfolding network_errors_ok_def by blast
  with network assms(2) show ?thesis by (simp add: rate_limited_def TransportError_Is_def)
next
  case (unclosed resp he err)
  with assms(2) show ?thesis by (simp add: rate_limited_def)
next
  case (refused resp he)
  then have "errors_Is (HTTPErr he) ErrRateLimited" using assms(2) by (auto simp: rate_limited_def split: if_splits)
  with http_rate_limited refused(1) readErrorResponse_status [OF refused(2)] show ?thesis by (auto simp: turned_away_def)
next
  case (stale resp he c2 s)
  with assms(2) show ?thesis by (auto simp: rate_limited_def split: sum.splits option.splits)
qed auto

lemma client_do_resends:
  assumes ok: "network_errors_ok io ErrRateLimited"
    and run: "client_do io op path errURL idem req c refreshed = (r, c', refreshed')"
  shows "\<exists>new. ac_sent c' = ac_sent c @ new \<and>
    resends_ok io path c (ac_sent c) new (\<exists>e. r = Some (Inl e) \<and> rate_limited e)"
  using run
proof (cases rule: client_do_cases)
  case once
  from do_round_sends(1) [OF once] obtain probes where
    "ac_sent c' = ac_sent c @ req # probes" "list_all (discovery_of c) probes" by blast
  with do_round_rate_limited [OF ok] once show ?thesis by (intro exI [of _ "req # probes"]) auto
next
  case (twice replay c1)
  from do_round_sends(1) [OF twice(1)] obtain probes where probes:
    "ac_sent c1 = ac_sent c @ req # probes" "list_all (discovery_of c) probes" by blast
  from do_round_sends(1) [OF twice(3)] have "ac_sent c' = ac_sent c1 @ [replay]" by auto
  moreover have "turned_away io path (ac_sent c) req" using do_round_sends(3) [OF twice(1) refl] by (simp add: turned_away_def)
  moreover have "turned_away io path (ac_sent c1) replay" if "r = Some (Inl e)" "rate_limited e" for e
    using do_round_rate_limited [OF ok that(2)] twice(3) that(1) by blast
  ultimately show ?thesis using probes by (intro exI [of _ "req # probes @ [replay]"]) (auto simp: resends_ok_append)
qed

lemma client_do_answer:
  assumes "client_do io op path errURL idem req c refreshed = (Some (Inr resp), c', refreshed')"
  shows "\<exists>sent q. io_do io sent q = Inr resp"
proof -
  have round: "\<exists>sent q. io_do io sent q = Inr resp"
    if "do_round io op path errURL idem q d f = (Inl (Some (Inr resp)), d', f')" for q d f d' f'
    using that by (cases rule: do_round_cases) (auto split: sum.splits option.splits)
  from assms show ?thesis by (cases rule: client_do_cases) (auto dest: round)
qed

lemma doSignedJSON_resends:
  assumes ok: "network_errors_ok (ci_io ci) ErrRateLimited" "answers_ok ci ErrRateLimited"
    and run: "doSignedJSON ci path idem n q s = (r, s')"
  shows "\<exists>new. ac_sent (cs_client s') = ac_sent (cs_client s) @ new \<and>
    resends_ok (ci_io ci) path (cs_client s) (ac_sent (cs_client s)) new (\<exists>e. r = Some e \<and> rate_limited e)"
proof -
  obtain a c f where call: "client_do (ci_io ci) ''post'' path path idem q (cs_client s) (cs_refreshed s) = (a, c, f)"
    by (meson prod_cases3)
  have decode: "\<not> rate_limited e"
    if "a = Some (Inr resp)" "decodeJSONBody uc (ci_decode ci n) ''POST'' path idem (resp_body resp) = Inl e" for resp e uc
  proof -
    from client_do_answer [OF call [unfolded that(1)]] ok(2) have "response_errors_ok ErrRateLimited (ci_decode ci n) (resp_body resp)"
      unfolding answers_ok_def by blast
    from decodeJSONBody_error [OF _ this that(2)] show ?thesis
      by (auto simp: foreign_sentinel_def rate_limited_def TransportError_Is_def)
  qed
  have r: "a = Some (Inl e)" if "r = Some e" "rate_limited e" for e
    using run [unfolded doSignedJSON_def call] decode that by (auto simp: Let_def split: option.splits sum.splits)
  have c: "c = cs_client s'"
    using run [unfolded doSignedJSON_def call] by (auto simp: Let_def split: option.splits sum.splits)
  from client_do_resends [OF ok(1) call] obtain new where new: "ac_sent c = ac_sent (cs_client s) @ new"
    "resends_ok (ci_io ci) path (cs_client s) (ac_sent (cs_client s)) new (\<exists>e. a = Some (Inl e) \<and> rate_limited e)" by blast
  have "resends_ok (ci_io ci) path (cs_client s) (ac_sent (cs_client s)) new (\<exists>e. r = Some e \<and> rate_limited e)"
    using new(2) by (rule resends_ok_mono) (use r in blast)
  with new(1) c show ?thesis by blast
qed

section \<open>Calls without an identifier\<close>

context request_builder begin

lemma loop_resends:
  assumes ok: "network_errors_ok (ci_io ci) ErrRateLimited" "answers_ok ci ErrRateLimited"
  shows "retry_loop (post_attempts ci p False buildRequest) p False left attempt backoff u s = (r, evs, s') \<Longrightarrow>
   same_config c (cs_client s) \<Longrightarrow>
   \<exists>new. ac_sent (cs_client s') = ac_sent (cs_client s) @ new \<and> resends_ok (ci_io ci) p c (ac_sent (cs_client s)) new False"
proof (induction left arbitrary: attempt backoff u s evs rule: less_induct)
  case (less left)
  have attempt: "\<exists>new. ac_sent (cs_client s2) = ac_sent (cs_client s) @ new \<and>
      resends_ok (ci_io ci) p c (ac_sent (cs_client s)) new (\<exists>e. x = Some e \<and> rate_limited e)"
    if b: "build (post_attempts ci p False buildRequest) attempt s = (Inr q, s1)"
      and d: "send (post_attempts ci p False buildRequest) attempt q s1 = (x, s2)" for q s1 x s2
  proof -
    note built = built [OF b less.prems(2)]
    from d have "doSignedJSON ci p False attempt q s1 = (x, s2)" by (simp add: post_attempts_def)
    from doSignedJSON_resends [OF ok this] obtain new where new: "ac_sent (cs_client s2) = ac_sent (cs_client s1) @ new"
      "resends_ok (ci_io ci) p (cs_client s1) (ac_sent (cs_client s1)) new (\<exists>e. x = Some e \<and> rate_limited e)" by blast
    from built(1) obtain probes where "ac_sent (cs_client s1) = ac_sent (cs_client s) @ probes" "list_all (discovery_of c) probes" by blast
    with new resends_ok_config [OF built(2)] show ?thesis
      by (intro exI [of _ "probes @ new"]) (simp add: resends_ok_append)
  qed
  from less.prems(1) show ?case
  proof (cases rule: retry_loop_cases)
    case (unbuilt e)
    from built(1) [OF unbuilt(1) less.prems(2)] show ?thesis by auto
  next
    case (success q s1)
    from attempt [OF success(1,2)] show ?thesis by simp
  next
    case (final q s1 e u')
    from attempt [OF final(1,3)] show ?thesis by (blast intro: resends_ok_mono)
  next
    case (interrupted q s1 e u' x d a)
    from attempt [OF interrupted(1,3)] show ?thesis by (blast intro: resends_ok_mono)
  next
    case (again q s1 e u' s2 left' d a evs')
    have "\<exists>e'. Some e = Some e' \<and> rate_limited e'" using unkeyed_retry [OF again(5)] by blast
    with attempt [OF again(1,4)] obtain new where new: "ac_sent (cs_client s2) = ac_sent (cs_client s) @ new"
      "resends_ok (ci_io ci) p c (ac_sent (cs_client s)) new True" by auto
    have "left' < left" by (simp add: again(3))
    note built = built [OF again(1) less.prems(2)]
    have "doSignedJSON ci p False attempt q s1 = (Some e, s2)" using again(4) by (simp add: post_attempts_def)
    from doSignedJSON_sends(2) [OF this conjunct1 [OF built(4) [OF refl]] built(2)] built(4)
    have "same_config c (cs_client s2)" by blast
    from less.IH [OF \<open>left' < left\<close> again(7) this] obtain rest where
      "ac_sent (cs_client s') = ac_sent (cs_client s2) @ rest" "resends_ok (ci_io ci) p c (ac_sent (cs_client s2)) rest False" by blast
    with new show ?thesis by (intro exI [of _ "new @ rest"]) (simp add: resends_ok_append resends_ok_mono [OF new(2)])
  qed
qed

lemma call_resends:
  assumes "network_errors_ok (ci_io ci) ErrRateLimited" "answers_ok ci ErrRateLimited"
    and "retryPostJSON ci retryMax c p False buildRequest = (r, c')"
    and "ac_sent c' = ac_sent c @ before @ q # after" and "\<not> discovery_of c q" and "protected_of c after \<noteq> []"
  shows "turned_away (ci_io ci) p (ac_sent c @ before) q"
proof -
  let ?s = "\<lparr>cs_client = c, cs_refreshed = False, cs_result = None, cs_panic = False\<rparr>"
  obtain x evs s' where run: "retryPost (post_attempts ci p False buildRequest) retryMax p False ?s = (x, evs, s')"
    by (meson prod_cases3)
  with assms(3) have c': "c' = cs_client s'" by (auto simp: retryPostJSON_def split: option.splits)
  have "same_config c (cs_client ?s)" by (simp add: same_config_def)
  from loop_resends [OF assms(1,2) run [unfolded retryPost_def] this] c' assms(4)
  have "resends_ok (ci_io ci) p c (ac_sent c) (before @ q # after) False" by auto
  from resends_ok_split [OF this assms(5,6)] show ?thesis .
qed

end

section \<open>The sending interface\<close>

text \<open>
  The reply operations of \<open>Sender\<close> and \<open>FileSender\<close> and \<open>SendRichText\<close>, with what each takes beside room and
  options; the encoders of the three request types and the random bytes of a boundary are arguments.
\<close>

datatype reply =
    TextReply string | MarkdownReply string | RichTextReply string
  | ImageReply bytes bytes | ImagesReply bytes "bytes list" | FileReply bytes "nat \<Rightarrow> go_error option" ReplyFile

record reply_encoders =
  enc_reply :: "ReplyRequest \<Rightarrow> (go_error, bytes) result"
  enc_images :: "ReplyImageMetadata \<Rightarrow> (go_error, bytes) result"
  enc_file :: "replyFileMetadata \<Rightarrow> (go_error, bytes) result"

fun send_reply ::
  "'t call_io \<Rightarrow> int \<Rightarrow> reply_encoders \<Rightarrow> APIClient \<Rightarrow> string \<Rightarrow> SendOption option list \<Rightarrow> reply \<Rightarrow> 't send_result \<times> APIClient" where
  "send_reply ci retryMax encs c room opts (TextReply message) = SendMessageAccepted ci retryMax (enc_reply encs) c room message opts"
| "send_reply ci retryMax encs c room opts (MarkdownReply md) = SendMarkdown ci retryMax (enc_reply encs) c room md opts"
| "send_reply ci retryMax encs c room opts (RichTextReply md) = SendRichText ci retryMax (enc_reply encs) c room md opts"
| "send_reply ci retryMax encs c room opts (ImageReply random img) = SendImage ci retryMax (enc_images encs) c random room img opts"
| "send_reply ci retryMax encs c room opts (ImagesReply random imgs) =
     SendMultipleImages ci retryMax (enc_images encs) c random room imgs opts"
| "send_reply ci retryMax encs c room opts (FileReply random ctx fl) = SendFile ci retryMax (enc_file encs) c random ctx room fl opts"

definition has_client_request_id :: "SendOption option list \<Rightarrow> bool" where
  "has_client_request_id opts \<longleftrightarrow> normalizeClientRequestID (so_ClientRequestID (applySendOptions opts)) \<noteq> None"

text \<open>Every reply is one retried POST on the reply path, or fails before anything is sent.\<close>

lemma call_result_snd: "call_result x = (r, c') \<Longrightarrow> \<exists>y. x = (y, c')"
  by (cases x) (auto simp: call_result_def)

lemma postJSON_call:
  assumes "call_result (postJSON ci retryMax c path marshalled idem) = (r, c')"
  shows "c' = c \<or> (\<exists>payload y. retryPostJSON ci retryMax c path idem (newSignedJSONRequest (ci_io ci) path payload) = (y, c'))"
  using call_result_snd [OF assms] by (auto simp: postJSON_def split: sum.splits)

lemma postMultipart_call:
  assumes "postMultipart ci retryMax c random path idem marshalled images cts = (r, c')"
  shows "c' = c \<or> (\<exists>b sha len ct y. retryPostJSON ci retryMax c path idem (multipart_request (ci_io ci) path (Inr b) sha len ct None) = (y, c'))"
  using assms by (auto simp: postMultipart_def split: sum.splits dest!: call_result_snd)

lemma postFileMultipart_call:
  assumes "postFileMultipart ci retryMax c random ctx idem marshalled fl cty = (r, c')"
  shows "c' = c \<or> (\<exists>b sha len ct y. retryPostJSON ci retryMax c PathReply idem (multipart_request (ci_io ci) PathReply (Inr b) sha len ct None) = (y, c'))"
  using assms by (auto simp: postFileMultipart_def split: sum.splits dest!: call_result_snd)

lemma send_reply_call:
  assumes "send_reply ci retryMax encs c room opts rp = (r, c')"
  obtains "c' = c"
  | payload y where "retryPostJSON ci retryMax c PathReply (has_client_request_id opts) (newSignedJSONRequest (ci_io ci) PathReply payload) = (y, c')"
  | b sha len ct y where "retryPostJSON ci retryMax c PathReply (has_client_request_id opts)
      (multipart_request (ci_io ci) PathReply (Inr b) sha len ct None) = (y, c')"
proof -
  let ?id = "has_client_request_id opts"
  have "c' = c \<or>
    (\<exists>payload y. retryPostJSON ci retryMax c PathReply ?id (newSignedJSONRequest (ci_io ci) PathReply payload) = (y, c')) \<or>
    (\<exists>b sha len ct y. retryPostJSON ci retryMax c PathReply ?id (multipart_request (ci_io ci) PathReply (Inr b) sha len ct None) = (y, c'))"
  proof (cases rp)
    case (TextReply message)
    with assms show ?thesis
      by (auto simp: SendMessageAccepted_def newTextReplyRequest_def text_request_def has_client_request_id_def Let_def
          split: option.splits dest!: postJSON_call)
  next
    case (MarkdownReply md)
    with assms show ?thesis
      by (auto simp: SendMarkdown_def send_formatted_def text_request_def has_client_request_id_def Let_def
          split: option.splits dest!: postJSON_call)
  next
    case (RichTextReply md)
    with assms show ?thesis
      by (auto simp: SendRichText_def send_formatted_def text_request_def has_client_request_id_def Let_def
          split: option.splits dest!: postJSON_call)
  next
    case (ImageReply random img)
    with assms show ?thesis
      by (auto simp: SendImage_def image_metadata_def has_client_request_id_def Let_def
          split: option.splits sum.splits dest!: postMultipart_call)
  next
    case (ImagesReply random imgs)
    with assms show ?thesis
      by (auto simp: SendMultipleImages_def image_metadata_def has_client_request_id_def Let_def
          split: option.splits sum.splits if_splits dest!: postMultipart_call)
  next
    case (FileReply random ctx fl)
    with assms show ?thesis
      by (auto simp: SendFile_def has_client_request_id_def Let_def split: option.splits sum.splits dest!: postFileMultipart_call)
  qed
  with that show thesis by blast
qed

section \<open>A busy server\<close>

text \<open>A server that answers the first request with 429 and the later ones with an empty object.\<close>

definition busy_io :: client_io where
  "busy_io = offline_io\<lparr>io_do := \<lambda>sent q. Inr \<lparr>resp_status = (if sent = [] then 429 else 200), resp_header = [],
     resp_body = \<lparr>rb_data = (if sent = [] then [] else ''{}''), rb_end = None, rb_close = None\<rparr>\<rparr>\<rparr>"

definition busy_ci :: "unit call_io" where
  "busy_ci = sample_ci\<lparr>ci_io := busy_io\<rparr>"

definition plain_encoders :: reply_encoders where
  "plain_encoders = \<lparr>enc_reply = \<lambda>_. Inr ''{}'', enc_images = \<lambda>_. Inr ''{}'', enc_file = \<lambda>_. Inr ''{}''\<rparr>"

definition plain_post :: creq where
  "plain_post = \<lparr>cr_method = ''POST'', cr_url = ''https://iris'' @ PathReply, cr_header = header_Set [] ''Content-Type'' contentTypeJSON,
     cr_body = Some ''{}'', cr_get_body = Some (Inr ''{}''), cr_content_length = 2\<rparr>"

lemma busy_build:
  "newSignedJSONRequest busy_io PathReply ''{}'' (sample_client\<lparr>ac_sent := qs\<rparr>) = (Inr plain_post, sample_client\<lparr>ac_sent := qs\<rparr>)"
  by (simp add: newSignedJSONRequest_def newSignedStreamRequest_def newRequest_def signRequest_def sample_client_def
      plain_post_def busy_io_def offline_io_def)

definition busy_error :: HTTPError where
  "busy_error = \<lparr>he_StatusCode = 429, he_URL = PathReply, he_RetryAfter = 0, he_Body = [], he_code = []\<rparr>"

lemma busy_answer:
  "readErrorResponse busy_io now PathReply
     \<lparr>resp_status = 429, resp_header = [], resp_body = \<lparr>rb_data = [], rb_end = None, rb_close = None\<rparr>\<rparr> = Some busy_error"
  by (simp add: readErrorResponse_def readErrorBody_def read_all_limited_def httpErrorBodyParseMaxLen_def truncateErrorBody_def
      busy_io_def offline_io_def redactSensitiveTokens_empty
      parseHTTPErrorCode_def busy_error_def parseRetryAfterHeader_def header_Get_def header_Values_def)

lemma busy_first:
  "doSignedJSON busy_ci PathReply False n plain_post \<lparr>cs_client = sample_client, cs_refreshed = False, cs_result = None, cs_panic = False\<rparr> =
     (Some (WrapErr ''post'' [HTTPErr busy_error]),
      \<lparr>cs_client = sample_client\<lparr>ac_sent := [plain_post]\<rparr>, cs_refreshed = False, cs_result = None, cs_panic = False\<rparr>)"
  using busy_answer
  by (simp add: doSignedJSON_def client_do.simps do_round_def http_Do_def busy_ci_def busy_io_def sample_client_def
      isSuccessfulHTTPStatus_def refreshAuthEpoch_def busy_error_def HTTPError_Is_def http_status_defs Let_def offline_io_def)

lemma busy_second:
  "doSignedJSON busy_ci PathReply False n plain_post
     \<lparr>cs_client = sample_client\<lparr>ac_sent := [plain_post]\<rparr>, cs_refreshed = False, cs_result = None, cs_panic = False\<rparr> =
     (None, \<lparr>cs_client = sample_client\<lparr>ac_sent := [plain_post, plain_post]\<rparr>, cs_refreshed = False, cs_result = Some (), cs_panic = False\<rparr>)"
  by (simp add: doSignedJSON_def client_do.simps do_round_def http_Do_def busy_ci_def busy_io_def sample_client_def
      isSuccessfulHTTPStatus_def Let_def sample_ci_def decodeJSONBody_def decode_open_body_def sample_dc_def limited_data_def
      limited_end_def drain_trailer_def typed_limit_def drain_limit_def decode_limits classifyTrailerDrain_def)

lemma busy_loop:
  "\<exists>evs. retry_loop (post_attempts busy_ci PathReply False (newSignedJSONRequest busy_io PathReply ''{}'')) PathReply False 2 1 (50 * Millisecond) None
     \<lparr>cs_client = sample_client, cs_refreshed = False, cs_result = None, cs_panic = False\<rparr> =
     (None, evs, \<lparr>cs_client = sample_client\<lparr>ac_sent := [plain_post, plain_post]\<rparr>, cs_refreshed = False, cs_result = Some (), cs_panic = False\<rparr>)"
proof -
  have first: "newSignedJSONRequest busy_io PathReply ''{}'' sample_client = (Inr plain_post, sample_client)"
    using busy_build [of "[]"] by (simp add: sample_client_def)
  have retry: "isRetryableReplyError (WrapErr ''post'' [HTTPErr busy_error]) False"
    by (simp add: isRetryableReplyError_def isRetryableError_def busy_error_def HTTPError_Is_def http_status_defs)
  have ci: "ci_wait busy_ci n = None" for n by (simp add: busy_ci_def sample_ci_def)
  show ?thesis
    by (simp add: retry_loop.simps retry ci first busy_build busy_first busy_second post_attempts_def
        Let_def eval_nat_numeral split: prod.splits)
qed

lemma busy_run:
  "send_reply busy_ci 3 plain_encoders sample_client ''7'' [] (TextReply ''hi'') =
     (Some (Inr ()), sample_client\<lparr>ac_sent := [plain_post, plain_post]\<rparr>)"
  using busy_loop
  by (auto simp: SendMessageAccepted_def newTextReplyRequest_def applySendOptions_def validateSendOptions_def text_request_def
      cloneReplyMentions_def normalizeClientRequestID_def normalizeReplyThreadID_def marshal_reply_def plain_encoders_def call_result_def postJSON_def
      retryPostJSON_def retryPost_def max_attempts_def busy_ci_def)

end
