(* ===== verification/Go_Base64.thy ===== *)
theory Go_Base64
  imports Go_Strings
begin

text \<open>
  \<open>encoding/base64\<close> with the standard alphabet: encoding, and the strict decoding the client uses. The
  lemmas say that decoding inverts encoding and how long an encoding is.
\<close>

text \<open>The standard alphabet; \<open>b64_val\<close> reads a digit.\<close>

definition b64_char :: "nat \<Rightarrow> char" where
  "b64_char n = char_of (if n < 26 then n + 65 else if n < 52 then n + 71 else if n < 62 then n - 4 else if n = 62 then 43 else (47 :: nat))"

definition b64_val :: "char \<Rightarrow> nat option" where
  "b64_val c = (let v = byte_val c in
     if 65 \<le> v \<and> v \<le> 90 then Some (v - 65)
     else if 97 \<le> v \<and> v \<le> 122 then Some (v - 71)
     else if 48 \<le> v \<and> v \<le> 57 then Some (v + 4)
     else if v = 43 then Some 62 else if v = 47 then Some 63 else None)"

fun EncodeToString :: "bytes \<Rightarrow> string" where
  "EncodeToString [] = []"
| "EncodeToString [a] = [b64_char (byte_val a div 4), b64_char (byte_val a mod 4 * 16), CHR ''='', CHR ''='']"
| "EncodeToString [a, b] =
     [b64_char (byte_val a div 4), b64_char (byte_val a mod 4 * 16 + byte_val b div 16), b64_char (byte_val b mod 16 * 4), CHR ''='']"
| "EncodeToString (a # b # c # rest) =
     b64_char (byte_val a div 4) # b64_char (byte_val a mod 4 * 16 + byte_val b div 16) #
     b64_char (byte_val b mod 16 * 4 + byte_val c div 64) # b64_char (byte_val c mod 64) # EncodeToString rest"

text \<open>
  \<open>StdEncoding.Strict().DecodeString\<close>: line breaks are skipped wherever they are, padding is required and
  only at the end, and the bits it leaves unused must be zero.
\<close>

fun b64_quanta :: "string \<Rightarrow> bytes option" where
  "b64_quanta [] = Some []"
| "b64_quanta (w # x # y # z # rest) =
     (case (b64_val w, b64_val x) of
        (Some a, Some b) \<Rightarrow>
          if y = CHR ''='' then
            (if z = CHR ''='' \<and> rest = [] \<and> b mod 16 = 0 then Some [char_of (a * 4 + b div 16)] else None)
          else
            (case b64_val y of
               None \<Rightarrow> None
             | Some c \<Rightarrow>
                 if z = CHR ''='' then
                   (if rest = [] \<and> c mod 4 = 0 then Some [char_of (a * 4 + b div 16), char_of (b mod 16 * 16 + c div 4)] else None)
                 else
                   (case (b64_val z, b64_quanta rest) of
                      (Some d, Some out) \<Rightarrow>
                        Some (char_of (a * 4 + b div 16) # char_of (b mod 16 * 16 + c div 4) # char_of (c mod 4 * 64 + d) # out)
                    | _ \<Rightarrow> None))
      | _ \<Rightarrow> None)"
| "b64_quanta _ = None"

definition DecodeString :: "string \<Rightarrow> bytes option" where
  "DecodeString s = b64_quanta (filter (\<lambda>c. c \<noteq> CHR 0x0A \<and> c \<noteq> CHR 0x0D) s)"

lemma b64_char_val: "n < 64 \<Longrightarrow> byte_val (b64_char n) =
    (if n < 26 then n + 65 else if n < 52 then n + 71 else if n < 62 then n - 4 else if n = 62 then 43 else 47)"
  by (auto simp: b64_char_def)

lemma b64_val_char [simp]: "n < 64 \<Longrightarrow> b64_val (b64_char n) = Some n"
  by (auto simp: b64_val_def b64_char_val Let_def)

lemma b64_char_plain:
  assumes "n < 64"
  shows "b64_char n \<noteq> CHR ''=''" "b64_char n \<noteq> CHR 0x0A" "b64_char n \<noteq> CHR 0x0D"
  using b64_char_val [OF assms] by (auto simp: byte_class split: if_splits)

lemma b64_fields:
  "byte_val a div 4 < 64" "byte_val a mod 4 * 16 < 64" "byte_val a mod 4 * 16 + byte_val b div 16 < 64"
  "byte_val a mod 16 * 4 < 64" "byte_val a mod 16 * 4 + byte_val b div 64 < 64" "byte_val a mod 64 < 64"
proof -
  have "byte_val a mod 4 < 4" "byte_val a mod 16 < 16" "byte_val b div 16 < 16" "byte_val b div 64 < 4" "byte_val a div 4 < 64"
    by (simp_all add: less_mult_imp_div_less)
  then show "byte_val a div 4 < 64" "byte_val a mod 4 * 16 < 64" "byte_val a mod 4 * 16 + byte_val b div 16 < 64"
    "byte_val a mod 16 * 4 < 64" "byte_val a mod 16 * 4 + byte_val b div 64 < 64" "byte_val a mod 64 < 64"
    by linarith+
qed

lemma b64_top: "byte_val c div 64 div 4 = 0" "byte_val c div 64 mod 4 = byte_val c div 64"
proof -
  have "byte_val c div 64 < 4" by (simp add: less_mult_imp_div_less)
  then show "byte_val c div 64 div 4 = 0" "byte_val c div 64 mod 4 = byte_val c div 64" by simp_all
qed

lemma decode_encode_quanta: "b64_quanta (EncodeToString d) = Some d"
  by (induction d rule: EncodeToString.induct) (simp_all add: b64_fields b64_char_plain b64_top)

lemma encode_no_breaks: "filter (\<lambda>c. c \<noteq> CHR 0x0A \<and> c \<noteq> CHR 0x0D) (EncodeToString d) = EncodeToString d"
  by (induction d rule: EncodeToString.induct) (simp_all add: b64_fields b64_char_plain)

lemma DecodeString_EncodeToString: "DecodeString (EncodeToString d) = Some d"
  by (simp add: DecodeString_def encode_no_breaks decode_encode_quanta)

lemma length_EncodeToString: "length (EncodeToString d) = (length d + 2) div 3 * 4"
proof (induction d rule: EncodeToString.induct)
  case (4 a b c rest)
  have "(length (a # b # c # rest) + 2) div 3 = Suc ((length rest + 2) div 3)" by simp
  with 4 show ?case by simp
qed simp_all

end
