(* ===== verification/Media_Chunks.thy ===== *)
theory Media_Chunks
  imports Client_Decode Go_Base64
begin

text \<open>
  Media chunks: \<open>internal/client/transport/media.go\<close> and \<open>internal/client/common/media_types.go\<close>. The
  tokenizer (\<open>jsontext.Decoder\<close>) and the decoding of single JSON values are arguments. The lemmas say
  exactly which requests are sent and which answers are accepted, that an honest answer is accepted,
  and that the strict object decoder ends for every tokenizer and reads every field once.
\<close>

section \<open>Data\<close>

record MediaChunkRequest =
  mq_MessageID :: string
  mq_SourceGenerationID :: int
  mq_RawSourceLogID :: int
  mq_SourceLogID :: int
  mq_ChatID :: string
  mq_ChatLogID :: string
  mq_Type :: string
  mq_MediaIndex :: int
  mq_Offset :: int
  mq_Length :: int

record MediaChunkResponse =
  mr_ChunkBase64 :: string
  mr_TotalLength :: int
  mr_MIMEType :: string
  mr_SHA256 :: string
  mr_EOF :: bool
  mr_MediaCount :: int

definition PathMediaChunk :: string where "PathMediaChunk = ''/media/chunk''"
definition mediaTypeImage :: string where "mediaTypeImage = ''2''"
definition mediaTypeMultiImage :: string where "mediaTypeMultiImage = ''27''"
definition mediaTypeFile :: string where "mediaTypeFile = ''18''"
definition mediaMaxIndex :: int where "mediaMaxIndex = 9"
definition mediaMaxCount :: int where "mediaMaxCount = mediaMaxIndex + 1"
definition mediaMaxChunkBytes :: int where "mediaMaxChunkBytes = 512 * 1024"
definition mediaMaxTotalBytes :: int where "mediaMaxTotalBytes = 30 * 1024 * 1024"
definition mediaMaxMIMEBytes :: nat where "mediaMaxMIMEBytes = 128"

lemmas media_limits = mediaMaxIndex_def mediaMaxCount_def mediaMaxChunkBytes_def mediaMaxTotalBytes_def mediaMaxMIMEBytes_def

datatype media_error =
    BlankIdentity string | NotPositive string int | NotCanonicalDecimal string | NegativeGeneration int
  | BadMediaType | MediaIndexRange int | NegativeOffset int | ChunkLengthRange int | OffsetOverflow int int
  | TotalLengthRange int | MediaCountRange int | MediaIndexOutside int int | BadMIMEType | BadSHA256
  | ChunkTooLong | NotCanonicalBase64 | DecodedLengthRange nat | RangeOverflow | ChunkBeyondTotal int | EOFMismatch | ShortChunk nat

section \<open>Requests\<close>

definition validatePositiveMediaIdentity :: "string \<Rightarrow> int \<Rightarrow> media_error option" where
  "validatePositiveMediaIdentity label v = (if v \<le> 0 then Some (NotPositive label v) else None)"

definition normalizeMediaStringIdentity :: "string \<Rightarrow> string \<Rightarrow> (media_error, string) result" where
  "normalizeMediaStringIdentity label v = (let trimmed = trim_space v in if trimmed = [] then Inl (BlankIdentity label) else Inr trimmed)"

text \<open>\<open>value[0]\<close> is read only when the value is not blank.\<close>

definition normalizePositiveDecimalMediaIdentity :: "string \<Rightarrow> string \<Rightarrow> (media_error, string) result" where
  "normalizePositiveDecimalMediaIdentity label v =
     (if trim_space v = [] then Inl (BlankIdentity label)
      else if hd v = CHR ''0'' then Inl (NotCanonicalDecimal label)
      else if \<not> list_all (\<lambda>rw. 48 \<le> fst rw \<and> fst rw \<le> 57) (runes v) then Inl (NotCanonicalDecimal label)
      else case parse_int64 v of
        None \<Rightarrow> Inl (NotCanonicalDecimal label)
      | Some parsed \<Rightarrow> if parsed \<le> 0 then Inl (NotCanonicalDecimal label) else Inr v)"

text \<open>The checks behind the identifiers.\<close>

definition media_range_error :: "MediaChunkRequest \<Rightarrow> media_error option" where
  "media_range_error req =
     (if mq_Type req \<notin> set [mediaTypeImage, mediaTypeMultiImage, mediaTypeFile] then Some BadMediaType
      else if mq_MediaIndex req < 0 \<or> mediaMaxIndex < mq_MediaIndex req then Some (MediaIndexRange (mq_MediaIndex req))
      else if mq_Offset req < 0 then Some (NegativeOffset (mq_Offset req))
      else if mq_Length req < 1 \<or> mediaMaxChunkBytes < mq_Length req then Some (ChunkLengthRange (mq_Length req))
      else if max_int64 - mq_Length req < mq_Offset req then Some (OffsetOverflow (mq_Offset req) (mq_Length req))
      else None)"

definition normalizeMediaChunkRequest :: "MediaChunkRequest \<Rightarrow> (media_error, MediaChunkRequest) result" where
  "normalizeMediaChunkRequest req0 =
     and_then (normalizeMediaStringIdentity ''messageId'' (mq_MessageID req0)) (\<lambda>messageID.
       let req1 = req0\<lparr>mq_MessageID := messageID\<rparr> in
       if mq_SourceGenerationID req1 < 0 then Inl (NegativeGeneration (mq_SourceGenerationID req1))
       else case validatePositiveMediaIdentity ''rawSourceLogId'' (mq_RawSourceLogID req1) of
         Some err \<Rightarrow> Inl err
       | None \<Rightarrow>
       case validatePositiveMediaIdentity ''sourceLogId'' (mq_SourceLogID req1) of
         Some err \<Rightarrow> Inl err
       | None \<Rightarrow>
         and_then (normalizePositiveDecimalMediaIdentity ''chatId'' (mq_ChatID req1)) (\<lambda>chatID.
           let req2 = req1\<lparr>mq_ChatID := chatID\<rparr> in
           and_then (normalizePositiveDecimalMediaIdentity ''chatLogId'' (mq_ChatLogID req2)) (\<lambda>chatLogID.
             let req3 = req2\<lparr>mq_ChatLogID := chatLogID\<rparr> in
             case media_range_error req3 of Some err \<Rightarrow> Inl err | None \<Rightarrow> Inr req3)))"

section \<open>Responses\<close>

definition isMediaMIMEToken :: "string \<Rightarrow> bool" where
  "isMediaMIMEToken v \<longleftrightarrow> list_all (\<lambda>c. is_lower c \<or> is_upper c \<or> is_digit c \<or> c \<in> set ''!#$&^_.+-'') v"

definition isASCII :: "string \<Rightarrow> bool" where
  "isASCII v \<longleftrightarrow> list_all (\<lambda>c. \<not> 128 \<le> byte_val c) v"

definition isValidMediaMIMEType :: "string \<Rightarrow> bool" where
  "isValidMediaMIMEType v \<longleftrightarrow>
     \<not> (v = [] \<or> mediaMaxMIMEBytes < length v \<or> \<not> isASCII v) \<and>
     (case cut_at CHR ''/'' v of (major, minor, found) \<Rightarrow>
        \<not> (\<not> found \<or> major = [] \<or> minor = []) \<and> isMediaMIMEToken major \<and> isMediaMIMEToken minor)"

definition isLowerSHA256Hex :: "string \<Rightarrow> bool" where
  "isLowerSHA256Hex v \<longleftrightarrow> length v = 64 \<and> list_all is_lower_hex v"

definition validateMediaChunkMetadata :: "MediaChunkResponse \<Rightarrow> int \<Rightarrow> media_error option" where
  "validateMediaChunkMetadata response mediaIndex =
     (if mr_TotalLength response < 1 \<or> mediaMaxTotalBytes < mr_TotalLength response then Some (TotalLengthRange (mr_TotalLength response))
      else if mr_MediaCount response < 1 \<or> mediaMaxCount < mr_MediaCount response then Some (MediaCountRange (mr_MediaCount response))
      else if mediaIndex < 0 \<or> mr_MediaCount response \<le> mediaIndex then Some (MediaIndexOutside mediaIndex (mr_MediaCount response))
      else if \<not> isValidMediaMIMEType (mr_MIMEType response) then Some BadMIMEType
      else if \<not> isLowerSHA256Hex (mr_SHA256 response) then Some BadSHA256
      else None)"

text \<open>Lengths are positive here, so that Go's division is \<open>div\<close>.\<close>

definition decodeMediaChunk :: "string \<Rightarrow> int \<Rightarrow> (media_error, bytes) result" where
  "decodeMediaChunk chunkBase64 requestedLength =
     (let maxEncodedLength = (requestedLength + 2) div 3 * 4 in
      if maxEncodedLength < int (length chunkBase64) then Inl ChunkTooLong
      else case DecodeString chunkBase64 of
        None \<Rightarrow> Inl NotCanonicalBase64
      | Some decoded \<Rightarrow>
          if EncodeToString decoded \<noteq> chunkBase64 then Inl NotCanonicalBase64
          else if length decoded < 1 \<or> requestedLength < int (length decoded) then Inl (DecodedLengthRange (length decoded))
          else Inr decoded)"

definition validateMediaChunkRange :: "MediaChunkResponse \<Rightarrow> MediaChunkRequest \<Rightarrow> nat \<Rightarrow> media_error option" where
  "validateMediaChunkRange response request decodedLength =
     (let chunkLength = int decodedLength in
      if mq_Offset request < 0 \<or> max_int64 - chunkLength < mq_Offset request then Some RangeOverflow
      else let end' = mq_Offset request + chunkLength in
        if mr_TotalLength response < end' then Some (ChunkBeyondTotal end')
        else if mr_EOF response \<noteq> (end' = mr_TotalLength response) then Some EOFMismatch
        else if \<not> mr_EOF response \<and> int decodedLength \<noteq> mq_Length request then Some (ShortChunk decodedLength)
        else None)"

definition validateMediaChunkResponse :: "MediaChunkResponse \<Rightarrow> MediaChunkRequest \<Rightarrow> media_error option" where
  "validateMediaChunkResponse response request =
     (case validateMediaChunkMetadata response (mq_MediaIndex request) of
        Some err \<Rightarrow> Some err
      | None \<Rightarrow>
          (case decodeMediaChunk (mr_ChunkBase64 response) (mq_Length request) of
             Inl err \<Rightarrow> Some err
           | Inr decoded \<Rightarrow> validateMediaChunkRange response request (length decoded)))"

section \<open>Strict decoding\<close>

datatype json_kind = KindEndObject | KindOther
datatype json_token = BeginObject | EndObject | StringToken string | OtherToken
datatype json_read_error = JsonEOF | JsonError string

text \<open>A tokenizer over its own state: \<open>ReadToken\<close>, \<open>PeekKind\<close> and \<open>ReadValue\<close> of \<open>jsontext.Decoder\<close>.\<close>

record 's json_decoder =
  jd_open :: "bytes \<Rightarrow> 's"
  ReadToken :: "'s \<Rightarrow> (json_read_error, json_token) result \<times> 's"
  PeekKind :: "'s \<Rightarrow> json_kind"
  ReadValue :: "'s \<Rightarrow> (json_read_error, bytes) result \<times> 's"

datatype strict_error =
    NotAnObject | BadFieldName | FieldNameNotString | UnknownField string | DuplicateField string
  | FieldValue string json_read_error | FieldDecode string go_error | FieldNull string
  | UnclosedObject | TrailingData | RequiredFieldMissing

text \<open>The loop over the fields; \<open>w\<close> is what the assignments of the callback built so far.\<close>

lemma unseen_decreases:
  "field \<in> set known \<Longrightarrow> field \<notin> set seen \<Longrightarrow> card (set known - insert field (set seen)) < card (set known - set seen)"
  by (rule psubset_card_mono) auto

function object_fields ::
  "'s json_decoder \<Rightarrow> string list \<Rightarrow> (string \<Rightarrow> bytes \<Rightarrow> 'w \<Rightarrow> (strict_error, 'w) result) \<Rightarrow> string list \<Rightarrow> 'w \<Rightarrow> 's
     \<Rightarrow> (strict_error, 'w \<times> 's) result" where
  "object_fields d known assign seen w s =
     (if PeekKind d s = KindEndObject then Inr (w, s)
      else case ReadToken d s of
        (Inl _, _) \<Rightarrow> Inl BadFieldName
      | (Inr (StringToken field), s1) \<Rightarrow>
          if field \<notin> set known then Inl (UnknownField field)
          else if field \<in> set seen then Inl (DuplicateField field)
          else (case ReadValue d s1 of
              (Inl err, _) \<Rightarrow> Inl (FieldValue field err)
            | (Inr v, s2) \<Rightarrow>
                (case assign field v w of
                   Inl err \<Rightarrow> Inl err
                 | Inr w' \<Rightarrow> object_fields d known assign (field # seen) w' s2))
      | (Inr _, _) \<Rightarrow> Inl FieldNameNotString)"
  by pat_completeness auto
termination
  by (relation "measure (\<lambda>(d, known, assign, seen, w, s). card (set known - set seen))") (auto simp: unseen_decreases simp del: card_Diff_insert)

declare object_fields.simps [simp del]

definition decodeStrictJSONObject ::
  "'s json_decoder \<Rightarrow> bytes \<Rightarrow> string list \<Rightarrow> (string \<Rightarrow> bytes \<Rightarrow> 'w \<Rightarrow> (strict_error, 'w) result) \<Rightarrow> 'w \<Rightarrow> (strict_error, 'w) result" where
  "decodeStrictJSONObject d data knownFields assign w0 =
     (case ReadToken d (jd_open d data) of
        (Inl _, _) \<Rightarrow> Inl NotAnObject
      | (Inr tok, s0) \<Rightarrow>
          if tok \<noteq> BeginObject then Inl NotAnObject
          else and_then (object_fields d knownFields assign [] w0 s0) (\<lambda>(w, s1).
            case ReadToken d s1 of
              (Inl _, _) \<Rightarrow> Inl UnclosedObject
            | (Inr tok', s2) \<Rightarrow>
                if tok' \<noteq> EndObject then Inl UnclosedObject
                else if fst (ReadValue d s2) \<noteq> Inl JsonEOF then Inl TrailingData
                else Inr w))"

text \<open>\<open>jsonv2.Unmarshal\<close> of one value into a pointer: \<open>None\<close> is null.\<close>

definition decodeRequiredJSONValue :: "(bytes \<Rightarrow> (go_error, 'v option) result) \<Rightarrow> string \<Rightarrow> bytes \<Rightarrow> (strict_error, 'v) result" where
  "decodeRequiredJSONValue unmarshal field v =
     (case unmarshal v of
        Inl err \<Rightarrow> Inl (FieldDecode field err)
      | Inr None \<Rightarrow> Inl (FieldNull field)
      | Inr (Some decoded) \<Rightarrow> Inr decoded)"

record json_values =
  jv_string :: "bytes \<Rightarrow> (go_error, string option) result"
  jv_int64 :: "bytes \<Rightarrow> (go_error, int option) result"
  jv_bool :: "bytes \<Rightarrow> (go_error, bool option) result"
  jv_int :: "bytes \<Rightarrow> (go_error, int option) result"

record media_wire =
  w_ChunkBase64 :: "string option"
  w_TotalLength :: "int option"
  w_MIMEType :: "string option"
  w_SHA256 :: "string option"
  w_EOF :: "bool option"
  w_MediaCount :: "int option"

definition mediaChunkResponseFields :: "string list" where
  "mediaChunkResponseFields = [''chunkBase64'', ''totalLength'', ''mimeType'', ''sha256'', ''eof'', ''mediaCount'']"

definition assign_media :: "json_values \<Rightarrow> string \<Rightarrow> bytes \<Rightarrow> media_wire \<Rightarrow> (strict_error, media_wire) result" where
  "assign_media jv field v w =
     (if field = ''chunkBase64'' then and_then (decodeRequiredJSONValue (jv_string jv) field v) (\<lambda>x. Inr (w\<lparr>w_ChunkBase64 := Some x\<rparr>))
      else if field = ''totalLength'' then and_then (decodeRequiredJSONValue (jv_int64 jv) field v) (\<lambda>x. Inr (w\<lparr>w_TotalLength := Some x\<rparr>))
      else if field = ''mimeType'' then and_then (decodeRequiredJSONValue (jv_string jv) field v) (\<lambda>x. Inr (w\<lparr>w_MIMEType := Some x\<rparr>))
      else if field = ''sha256'' then and_then (decodeRequiredJSONValue (jv_string jv) field v) (\<lambda>x. Inr (w\<lparr>w_SHA256 := Some x\<rparr>))
      else if field = ''eof'' then and_then (decodeRequiredJSONValue (jv_bool jv) field v) (\<lambda>x. Inr (w\<lparr>w_EOF := Some x\<rparr>))
      else if field = ''mediaCount'' then and_then (decodeRequiredJSONValue (jv_int jv) field v) (\<lambda>x. Inr (w\<lparr>w_MediaCount := Some x\<rparr>))
      else Inl (UnknownField field))"

definition empty_wire :: media_wire where
  "empty_wire = \<lparr>w_ChunkBase64 = None, w_TotalLength = None, w_MIMEType = None, w_SHA256 = None, w_EOF = None, w_MediaCount = None\<rparr>"

definition UnmarshalJSON_media :: "'s json_decoder \<Rightarrow> json_values \<Rightarrow> bytes \<Rightarrow> (strict_error, MediaChunkResponse) result" where
  "UnmarshalJSON_media d jv data =
     and_then (decodeStrictJSONObject d data mediaChunkResponseFields (assign_media jv) empty_wire) (\<lambda>w.
       case (w_ChunkBase64 w, w_TotalLength w, w_MIMEType w, w_SHA256 w, w_EOF w, w_MediaCount w) of
         (Some chunk, Some total_, Some mime, Some sha, Some eof, Some count_) \<Rightarrow>
           Inr \<lparr>mr_ChunkBase64 = chunk, mr_TotalLength = total_, mr_MIMEType = mime, mr_SHA256 = sha, mr_EOF = eof, mr_MediaCount = count_\<rparr>
       | _ \<Rightarrow> Inl RequiredFieldMissing)"

section \<open>Fetching\<close>

datatype fetch_error = InvalidMediaRequest media_error | FetchFailed go_error | InvalidMediaResponse media_error

text \<open>\<open>enc\<close> encodes the request; \<open>decode\<close> is the decoding of the response body.\<close>

definition FetchMediaChunk ::
  "client_io \<Rightarrow> (MediaChunkRequest \<Rightarrow> (go_error, bytes) result) \<Rightarrow> (bytes \<Rightarrow> (go_error, MediaChunkResponse) result) \<Rightarrow> APIClient
     \<Rightarrow> MediaChunkRequest \<Rightarrow> (fetch_error, MediaChunkResponse) result option \<times> APIClient" where
  "FetchMediaChunk io enc decode c req =
     (case normalizeMediaChunkRequest req of
        Inl err \<Rightarrow> (Some (Inl (InvalidMediaRequest err)), c)
      | Inr normalized \<Rightarrow>
          (case postStrictJSON io decode c PathMediaChunk (enc normalized) of
             (None, c') \<Rightarrow> (None, c')
           | (Some (Inl err), c') \<Rightarrow> (Some (Inl (FetchFailed err)), c')
           | (Some (Inr response), c') \<Rightarrow>
               (case validateMediaChunkResponse response normalized of
                  Some err \<Rightarrow> (Some (Inl (InvalidMediaResponse err)), c')
                | None \<Rightarrow> (Some (Inr response), c'))))"

section \<open>Laws of strict decoding\<close>

text \<open>The fields a tokenizer delivers between two states, and assigning them one after the other.\<close>

fun reads_fields :: "'s json_decoder \<Rightarrow> 's \<Rightarrow> (string \<times> bytes) list \<Rightarrow> 's \<Rightarrow> bool" where
  "reads_fields d s [] s' \<longleftrightarrow> PeekKind d s = KindEndObject \<and> s' = s"
| "reads_fields d s ((f, v) # fvs) s' \<longleftrightarrow> PeekKind d s \<noteq> KindEndObject \<and>
     (\<exists>s1 s2. ReadToken d s = (Inr (StringToken f), s1) \<and> ReadValue d s1 = (Inr v, s2) \<and> reads_fields d s2 fvs s')"

fun assign_all :: "(string \<Rightarrow> bytes \<Rightarrow> 'w \<Rightarrow> ('e, 'w) result) \<Rightarrow> (string \<times> bytes) list \<Rightarrow> 'w \<Rightarrow> ('e, 'w) result" where
  "assign_all assign [] w = Inr w"
| "assign_all assign ((f, v) # fvs) w = and_then (assign f v w) (assign_all assign fvs)"

lemma object_fields_reads:
  "object_fields d known assign seen w s = Inr (w', s') \<Longrightarrow>
   \<exists>fvs. reads_fields d s fvs s' \<and> distinct (map fst fvs) \<and> set (map fst fvs) \<subseteq> set known - set seen \<and> assign_all assign fvs w = Inr w'"
proof (induction d known assign seen w s rule: object_fields.induct)
  case (1 d known assign seen w s)
  show ?case
  proof (cases "PeekKind d s = KindEndObject")
    case True
    with "1.prems" show ?thesis by (intro exI [of _ "[]"]) (simp add: object_fields.simps [of d])
  next
    case False
    with "1.prems" obtain field s1 v s2 w1 where step: "ReadToken d s = (Inr (StringToken field), s1)" "field \<in> set known" "field \<notin> set seen"
      "ReadValue d s1 = (Inr v, s2)" "assign field v w = Inr w1"
      and rest: "object_fields d known assign (field # seen) w1 s2 = Inr (w', s')"
      by (subst (asm) object_fields.simps) (auto split: prod.splits sum.splits json_token.splits if_splits)
    have "\<exists>fvs. reads_fields d s2 fvs s' \<and> distinct (map fst fvs) \<and> set (map fst fvs) \<subseteq> set known - set (field # seen) \<and>
        assign_all assign fvs w1 = Inr w'"
      by (rule "1.IH") (use False step rest in auto)
    then obtain fvs where "reads_fields d s2 fvs s'" "distinct (map fst fvs)" "set (map fst fvs) \<subseteq> set known - set (field # seen)"
      "assign_all assign fvs w1 = Inr w'" by blast
    with step False show ?thesis by (intro exI [of _ "(field, v) # fvs"]) auto
  qed
qed

lemma reads_object_fields:
  "reads_fields d s fvs s' \<Longrightarrow> distinct (map fst fvs) \<Longrightarrow> set (map fst fvs) \<subseteq> set known - set seen \<Longrightarrow> assign_all assign fvs w = Inr w' \<Longrightarrow>
   object_fields d known assign seen w s = Inr (w', s')"
proof (induction fvs arbitrary: s seen w)
  case Nil
  then show ?case by (simp add: object_fields.simps [of d])
next
  case (Cons fv fvs)
  obtain f v where fv: "fv = (f, v)" by fastforce
  with Cons.prems obtain s1 s2 w1 where step: "PeekKind d s \<noteq> KindEndObject" "ReadToken d s = (Inr (StringToken f), s1)"
    "ReadValue d s1 = (Inr v, s2)" "reads_fields d s2 fvs s'" "assign f v w = Inr w1" "assign_all assign fvs w1 = Inr w'" by auto
  have "object_fields d known assign (f # seen) w1 s2 = Inr (w', s')"
    using Cons.prems fv step by (intro Cons.IH) auto
  with step Cons.prems(3) fv show ?case by (simp add: object_fields.simps [of d known assign seen])
qed

lemma object_fields_exact:
  "object_fields d known assign [] w s = Inr (w', s') \<longleftrightarrow>
   (\<exists>fvs. reads_fields d s fvs s' \<and> distinct (map fst fvs) \<and> set (map fst fvs) \<subseteq> set known \<and> assign_all assign fvs w = Inr w')"
proof
  assume "object_fields d known assign [] w s = Inr (w', s')"
  from object_fields_reads [OF this] show "\<exists>fvs. reads_fields d s fvs s' \<and> distinct (map fst fvs) \<and> set (map fst fvs) \<subseteq> set known \<and>
      assign_all assign fvs w = Inr w'" by simp
next
  assume "\<exists>fvs. reads_fields d s fvs s' \<and> distinct (map fst fvs) \<and> set (map fst fvs) \<subseteq> set known \<and> assign_all assign fvs w = Inr w'"
  then obtain fvs where r: "reads_fields d s fvs s'" "distinct (map fst fvs)" "set (map fst fvs) \<subseteq> set known" "assign_all assign fvs w = Inr w'"
    by blast
  from r(3) have "set (map fst fvs) \<subseteq> set known - set []" by simp
  from reads_object_fields [OF r(1,2) this r(4)] show "object_fields d known assign [] w s = Inr (w', s')" .
qed

definition slot :: "(bytes \<Rightarrow> (go_error, 'v option) result) \<Rightarrow> string \<Rightarrow> (string \<times> bytes) list \<Rightarrow> 'v option \<Rightarrow> 'v option \<Rightarrow> bool" where
  "slot dec name fvs old new \<longleftrightarrow> (case map_of fvs name of None \<Rightarrow> new = old | Some v \<Rightarrow> \<exists>x. dec v = Inr (Some x) \<and> new = Some x)"

lemma decodeRequired_Inr [simp]: "decodeRequiredJSONValue dec field v = Inr x \<longleftrightarrow> dec v = Inr (Some x)"
  by (auto simp: decodeRequiredJSONValue_def split: sum.splits option.splits)

lemma slot_Cons:
  "slot dec n ((f, v) # fvs) old new \<longleftrightarrow> (if n = f then \<exists>x. dec v = Inr (Some x) \<and> new = Some x else slot dec n fvs old new)"
  by (simp add: slot_def)

lemma slot_None: "map_of fvs n = None \<Longrightarrow> slot dec n fvs old new \<longleftrightarrow> new = old"
  by (simp add: slot_def)

lemma assign_all_slots:
  fixes assign :: "string \<Rightarrow> bytes \<Rightarrow> media_wire \<Rightarrow> (strict_error, media_wire) result"
  assumes names: "distinct [n1, n2, n3, n4, n5, n6]"
    and assign: "\<And>v w. assign n1 v w = and_then (decodeRequiredJSONValue d1 n1 v) (\<lambda>x. Inr (w\<lparr>w_ChunkBase64 := Some x\<rparr>))"
      "\<And>v w. assign n2 v w = and_then (decodeRequiredJSONValue d2 n2 v) (\<lambda>x. Inr (w\<lparr>w_TotalLength := Some x\<rparr>))"
      "\<And>v w. assign n3 v w = and_then (decodeRequiredJSONValue d3 n3 v) (\<lambda>x. Inr (w\<lparr>w_MIMEType := Some x\<rparr>))"
      "\<And>v w. assign n4 v w = and_then (decodeRequiredJSONValue d4 n4 v) (\<lambda>x. Inr (w\<lparr>w_SHA256 := Some x\<rparr>))"
      "\<And>v w. assign n5 v w = and_then (decodeRequiredJSONValue d5 n5 v) (\<lambda>x. Inr (w\<lparr>w_EOF := Some x\<rparr>))"
      "\<And>v w. assign n6 v w = and_then (decodeRequiredJSONValue d6 n6 v) (\<lambda>x. Inr (w\<lparr>w_MediaCount := Some x\<rparr>))"
  shows "distinct (map fst fvs) \<Longrightarrow> set (map fst fvs) \<subseteq> {n1, n2, n3, n4, n5, n6} \<Longrightarrow>
   assign_all assign fvs w = Inr w' \<longleftrightarrow>
     slot d1 n1 fvs (w_ChunkBase64 w) (w_ChunkBase64 w') \<and> slot d2 n2 fvs (w_TotalLength w) (w_TotalLength w') \<and>
     slot d3 n3 fvs (w_MIMEType w) (w_MIMEType w') \<and> slot d4 n4 fvs (w_SHA256 w) (w_SHA256 w') \<and>
     slot d5 n5 fvs (w_EOF w) (w_EOF w') \<and> slot d6 n6 fvs (w_MediaCount w) (w_MediaCount w')"
proof (induction fvs arbitrary: w)
  case Nil
  show ?case by (cases w; cases w') (auto simp: slot_None)
next
  case (Cons fv fvs)
  obtain f v where fv: "fv = (f, v)" by fastforce
  have distinct: "distinct (map fst fvs)" and sub: "set (map fst fvs) \<subseteq> {n1, n2, n3, n4, n5, n6}" using Cons.prems by auto
  have none: "map_of fvs f = None" using Cons.prems(1) fv by (simp add: map_of_eq_None_iff)
  note IH = Cons.IH [OF distinct, OF sub]
  from Cons.prems(2) fv consider "f = n1" | "f = n2" | "f = n3" | "f = n4" | "f = n5" | "f = n6" by auto
  then show ?case
    using none names by cases (auto simp: fv assign IH slot_Cons slot_None)
qed

lemma assign_all_media:
  assumes "distinct (map fst fvs)" and "set (map fst fvs) \<subseteq> set mediaChunkResponseFields"
  shows "assign_all (assign_media jv) fvs w = Inr w' \<longleftrightarrow>
     slot (jv_string jv) ''chunkBase64'' fvs (w_ChunkBase64 w) (w_ChunkBase64 w') \<and>
     slot (jv_int64 jv) ''totalLength'' fvs (w_TotalLength w) (w_TotalLength w') \<and>
     slot (jv_string jv) ''mimeType'' fvs (w_MIMEType w) (w_MIMEType w') \<and>
     slot (jv_string jv) ''sha256'' fvs (w_SHA256 w) (w_SHA256 w') \<and>
     slot (jv_bool jv) ''eof'' fvs (w_EOF w) (w_EOF w') \<and>
     slot (jv_int jv) ''mediaCount'' fvs (w_MediaCount w) (w_MediaCount w')"
  by (rule assign_all_slots) (use assms in \<open>simp_all add: assign_media_def mediaChunkResponseFields_def\<close>)

text \<open>A slot that was empty is filled exactly when the name was read and its value decoded.\<close>

lemma slot_filled:
  assumes "distinct (map fst fvs)"
  shows "slot dec n fvs None (Some x) \<longleftrightarrow> (\<exists>v. (n, v) \<in> set fvs \<and> dec v = Inr (Some x))"
proof -
  have "(n, v) \<in> set fvs \<longleftrightarrow> map_of fvs n = Some v" for v using map_of_eq_Some_iff [OF assms, of n v] by simp
  then show ?thesis by (cases "map_of fvs n") (simp_all add: slot_def)
qed

text \<open>The values read for a response.\<close>

definition media_fields :: "json_values \<Rightarrow> (string \<times> bytes) list \<Rightarrow> MediaChunkResponse \<Rightarrow> bool" where
  "media_fields jv fvs r \<longleftrightarrow>
     (\<exists>v. (''chunkBase64'', v) \<in> set fvs \<and> jv_string jv v = Inr (Some (mr_ChunkBase64 r))) \<and>
     (\<exists>v. (''totalLength'', v) \<in> set fvs \<and> jv_int64 jv v = Inr (Some (mr_TotalLength r))) \<and>
     (\<exists>v. (''mimeType'', v) \<in> set fvs \<and> jv_string jv v = Inr (Some (mr_MIMEType r))) \<and>
     (\<exists>v. (''sha256'', v) \<in> set fvs \<and> jv_string jv v = Inr (Some (mr_SHA256 r))) \<and>
     (\<exists>v. (''eof'', v) \<in> set fvs \<and> jv_bool jv v = Inr (Some (mr_EOF r))) \<and>
     (\<exists>v. (''mediaCount'', v) \<in> set fvs \<and> jv_int jv v = Inr (Some (mr_MediaCount r)))"

definition wire_of :: "MediaChunkResponse \<Rightarrow> media_wire" where
  "wire_of r = \<lparr>w_ChunkBase64 = Some (mr_ChunkBase64 r), w_TotalLength = Some (mr_TotalLength r), w_MIMEType = Some (mr_MIMEType r),
     w_SHA256 = Some (mr_SHA256 r), w_EOF = Some (mr_EOF r), w_MediaCount = Some (mr_MediaCount r)\<rparr>"

lemma unmarshal_wire:
  "UnmarshalJSON_media d jv data = Inr r \<longleftrightarrow>
   decodeStrictJSONObject d data mediaChunkResponseFields (assign_media jv) empty_wire = Inr (wire_of r)"
proof -
  have "(case (w_ChunkBase64 w, w_TotalLength w, w_MIMEType w, w_SHA256 w, w_EOF w, w_MediaCount w) of
         (Some chunk, Some total_, Some mime, Some sha, Some eof, Some count_) \<Rightarrow>
           Inr \<lparr>mr_ChunkBase64 = chunk, mr_TotalLength = total_, mr_MIMEType = mime, mr_SHA256 = sha, mr_EOF = eof, mr_MediaCount = count_\<rparr>
       | _ \<Rightarrow> Inl RequiredFieldMissing) = Inr r \<longleftrightarrow> w = wire_of r" for w
    by (cases w; cases r) (auto simp: wire_of_def split: option.split)
  then show ?thesis by (simp add: UnmarshalJSON_media_def)
qed

lemma media_fields_all:
  assumes "distinct (map fst fvs)" and "set (map fst fvs) \<subseteq> set mediaChunkResponseFields"
  shows "assign_all (assign_media jv) fvs empty_wire = Inr (wire_of r) \<longleftrightarrow> media_fields jv fvs r"
  by (simp add: assign_all_media [OF assms] media_fields_def slot_filled [OF assms(1)] wire_of_def empty_wire_def)

lemma media_fields_complete:
  assumes "media_fields jv fvs r" and "set (map fst fvs) \<subseteq> set mediaChunkResponseFields"
  shows "set (map fst fvs) = set mediaChunkResponseFields"
proof -
  have "n \<in> set (map fst fvs)" if "(n, v) \<in> set fvs" for n v using that by force
  then have "set mediaChunkResponseFields \<subseteq> set (map fst fvs)"
    using assms(1) unfolding media_fields_def mediaChunkResponseFields_def list.set insert_subset by blast
  with assms(2) show ?thesis by (rule subset_antisym)
qed

lemma strict_object_exact:
  "decodeStrictJSONObject d data known assign w0 = Inr w \<longleftrightarrow>
   (\<exists>s0 fvs s1 s2. ReadToken d (jd_open d data) = (Inr BeginObject, s0) \<and> reads_fields d s0 fvs s1 \<and>
      ReadToken d s1 = (Inr EndObject, s2) \<and> fst (ReadValue d s2) = Inl JsonEOF \<and>
      distinct (map fst fvs) \<and> set (map fst fvs) \<subseteq> set known \<and> assign_all assign fvs w0 = Inr w)"
proof -
  have closing: "(case ReadToken d s1 of (Inl _, _) \<Rightarrow> Inl UnclosedObject
      | (Inr tok', s2) \<Rightarrow> if tok' \<noteq> EndObject then Inl UnclosedObject
          else if fst (ReadValue d s2) \<noteq> Inl JsonEOF then Inl TrailingData else Inr w') = Inr w \<longleftrightarrow>
      w' = w \<and> (\<exists>s2. ReadToken d s1 = (Inr EndObject, s2) \<and> fst (ReadValue d s2) = Inl JsonEOF)" for s1 w'
    by (cases "ReadToken d s1") (auto split: sum.split)
  obtain tok s0 where first: "ReadToken d (jd_open d data) = (tok, s0)" by fastforce
  have "decodeStrictJSONObject d data known assign w0 = Inr w \<longleftrightarrow>
     tok = Inr BeginObject \<and> (\<exists>s1 s2. object_fields d known assign [] w0 s0 = Inr (w, s1) \<and>
        ReadToken d s1 = (Inr EndObject, s2) \<and> fst (ReadValue d s2) = Inl JsonEOF)"
    by (cases tok) (auto simp: decodeStrictJSONObject_def first closing)
  then show ?thesis unfolding object_fields_exact first by blast
qed

section \<open>Claims\<close>

text \<open>
  Whatever the tokenizer delivers, strict decoding ends, and it accepts exactly a single object,
  with nothing behind it, that has each of the six fields of a media response once, in any order and
  none of them null; every field of the response is the decoded value of its name.
\<close>

theorem media_response_fields_exact:
  "UnmarshalJSON_media d jv data = Inr r \<longleftrightarrow>
   (\<exists>s0 fvs s1 s2. ReadToken d (jd_open d data) = (Inr BeginObject, s0) \<and> reads_fields d s0 fvs s1 \<and>
      ReadToken d s1 = (Inr EndObject, s2) \<and> fst (ReadValue d s2) = Inl JsonEOF \<and>
      distinct (map fst fvs) \<and> set (map fst fvs) = set mediaChunkResponseFields \<and> media_fields jv fvs r)"
  unfolding unmarshal_wire strict_object_exact
  using media_fields_all media_fields_complete by (metis order_refl)

lemma format_nat_lead: "0 < n \<Longrightarrow> hd (format_nat n) \<noteq> CHR ''0''"
proof (induction n rule: format_nat.induct)
  case (1 n)
  show ?case
  proof (cases "n < 10")
    case True
    with "1.prems" show ?thesis by (simp add: format_nat.simps [of n] char_of_nat_eq)
  next
    case False
    with 1 format_nat_digits [of "n div 10"] show ?thesis by (simp add: format_nat.simps [of n])
  qed
qed

lemma digit_runes: "list_all (\<lambda>rw. 48 \<le> fst rw \<and> fst rw \<le> 57) (runes v) \<longleftrightarrow> list_all is_digit v"
  by (subst ascii_runes_iff [where P = "\<lambda>r. 48 \<le> r \<and> r \<le> 57"]) (auto simp: is_digit_val list_all_iff)

text \<open>Decimal identifiers are exactly the printed positive numbers of 64 bits.\<close>

lemma media_decimal_exact:
  "normalizePositiveDecimalMediaIdentity label v = Inr v' \<longleftrightarrow> v' = v \<and> (\<exists>i. 0 < i \<and> i \<le> max_int64 \<and> v = format_int i)"
proof
  assume ok: "normalizePositiveDecimalMediaIdentity label v = Inr v'"
  have digits: "list_all is_digit v" and ne: "v \<noteq> []" and lead: "hd v \<noteq> CHR ''0''" and same: "v' = v"
    using ok by (auto simp: normalizePositiveDecimalMediaIdentity_def digit_runes split: if_splits option.splits)
  from ok obtain i where i: "parse_int64 v = Some i" "0 < i"
    by (auto simp: normalizePositiveDecimalMediaIdentity_def split: if_splits option.splits)
  from i(1) parse_int64_digits [OF digits ne] have "i = int (digits_val v)" "i \<le> max_int64"
    by (auto simp: max_int64_def split: if_splits)
  moreover have "v = format_int (int (digits_val v))" using format_digits_val [OF digits ne lead] by (simp add: format_int_def)
  ultimately have "v = format_int i" "i \<le> max_int64" by simp_all
  with i(2) same show "v' = v \<and> (\<exists>i. 0 < i \<and> i \<le> max_int64 \<and> v = format_int i)" by blast
next
  assume "v' = v \<and> (\<exists>i. 0 < i \<and> i \<le> max_int64 \<and> v = format_int i)"
  then obtain i where i: "v' = v" "0 < i" "i \<le> max_int64" "v = format_int i" by blast
  then have fmt: "v = format_nat (nat i)" by (simp add: format_int_def)
  with format_nat_digits have digits: "list_all is_digit v" "v \<noteq> []" by auto
  have "hd v \<noteq> CHR ''0''" using format_nat_lead [of "nat i"] i(2) fmt by simp
  moreover have "trim_space v = v"
    by (rule trim_space_all_visible) (use digits in \<open>auto simp: list_all_iff is_digit_visible\<close>)
  ultimately show "normalizePositiveDecimalMediaIdentity label v = Inr v'"
    using i digits parse_format_int64 [of i] by (simp add: normalizePositiveDecimalMediaIdentity_def digit_runes min_int64_def)
qed

lemma decodeMediaChunk_exact:
  assumes "0 \<le> n"
  shows "decodeMediaChunk chunk n = Inr d \<longleftrightarrow> chunk = EncodeToString d \<and> 1 \<le> length d \<and> int (length d) \<le> n"
proof
  assume "decodeMediaChunk chunk n = Inr d"
  then show "chunk = EncodeToString d \<and> 1 \<le> length d \<and> int (length d) \<le> n"
    by (auto simp: decodeMediaChunk_def Let_def Suc_le_eq split: if_splits option.splits)
next
  assume ok: "chunk = EncodeToString d \<and> 1 \<le> length d \<and> int (length d) \<le> n"
  then have "int ((length d + 2) div 3 * 4) \<le> (n + 2) div 3 * 4" by (simp add: zdiv_int zdiv_mono1)
  with ok show "decodeMediaChunk chunk n = Inr d"
    by (auto simp: decodeMediaChunk_def Let_def DecodeString_EncodeToString length_EncodeToString)
qed

section \<open>Requests and answers\<close>

lemma media_range_exact:
  "media_range_error req = None \<longleftrightarrow> mq_Type req \<in> {''2'', ''27'', ''18''} \<and> 0 \<le> mq_MediaIndex req \<and> mq_MediaIndex req \<le> 9 \<and>
     0 \<le> mq_Offset req \<and> 1 \<le> mq_Length req \<and> mq_Length req \<le> 524288 \<and> mq_Offset req + mq_Length req \<le> max_int64"
  by (auto simp: media_range_error_def media_limits mediaTypeImage_def mediaTypeMultiImage_def mediaTypeFile_def)

lemma media_string_exact: "normalizeMediaStringIdentity label v = Inr v' \<longleftrightarrow> v' = trim_space v \<and> v' \<noteq> []"
  by (auto simp: normalizeMediaStringIdentity_def Let_def)

lemma media_positive_exact: "validatePositiveMediaIdentity label v = None \<longleftrightarrow> 0 < v"
  by (auto simp: validatePositiveMediaIdentity_def)

lemma case_error_Inr [simp]: "(case e of Some err \<Rightarrow> Inl err | None \<Rightarrow> r) = Inr x \<longleftrightarrow> e = None \<and> r = Inr x"
  by (cases e) auto

lemma normalizeMediaChunkRequest_iff:
  "normalizeMediaChunkRequest req = Inr req' \<longleftrightarrow>
     trim_space (mq_MessageID req) \<noteq> [] \<and> 0 \<le> mq_SourceGenerationID req \<and> 0 < mq_RawSourceLogID req \<and> 0 < mq_SourceLogID req \<and>
     (\<exists>i. 0 < i \<and> i \<le> max_int64 \<and> mq_ChatID req = format_int i) \<and>
     (\<exists>i. 0 < i \<and> i \<le> max_int64 \<and> mq_ChatLogID req = format_int i) \<and>
     media_range_error (req\<lparr>mq_MessageID := trim_space (mq_MessageID req)\<rparr>) = None \<and>
     req\<lparr>mq_MessageID := trim_space (mq_MessageID req)\<rparr> = req'"
  by (cases req) (auto simp: normalizeMediaChunkRequest_def Let_def media_string_exact media_decimal_exact media_positive_exact)

lemma normalized_range:
  "normalizeMediaChunkRequest req0 = Inr req \<Longrightarrow> 0 \<le> mq_Offset req \<and> 1 \<le> mq_Length req \<and> mq_Offset req + mq_Length req \<le> max_int64"
  by (auto simp: normalizeMediaChunkRequest_iff media_range_exact)

text \<open>
  Exactly the requests are sent whose message identifier is not blank, whose chat identifiers are
  printed positive numbers of 64 bits and whose range lies within 64 bits, with 1 to 512 KiB asked
  for; what is sent is the request with its message identifier trimmed, and normalising it again
  changes nothing.
\<close>

theorem media_request_exact:
  "normalizeMediaChunkRequest req = Inr req' \<longleftrightarrow>
     req' = req\<lparr>mq_MessageID := trim_space (mq_MessageID req)\<rparr> \<and> trim_space (mq_MessageID req) \<noteq> [] \<and>
     0 \<le> mq_SourceGenerationID req \<and> 0 < mq_RawSourceLogID req \<and> 0 < mq_SourceLogID req \<and>
     (\<exists>i. 0 < i \<and> i \<le> max_int64 \<and> mq_ChatID req = format_int i) \<and>
     (\<exists>i. 0 < i \<and> i \<le> max_int64 \<and> mq_ChatLogID req = format_int i) \<and>
     mq_Type req \<in> {''2'', ''27'', ''18''} \<and> 0 \<le> mq_MediaIndex req \<and> mq_MediaIndex req \<le> 9 \<and>
     0 \<le> mq_Offset req \<and> 1 \<le> mq_Length req \<and> mq_Length req \<le> 524288 \<and> mq_Offset req + mq_Length req \<le> max_int64"
  unfolding normalizeMediaChunkRequest_iff media_range_exact by auto

definition chunk_metadata_ok :: "MediaChunkResponse \<Rightarrow> int \<Rightarrow> bool" where
  "chunk_metadata_ok r index \<longleftrightarrow> 1 \<le> mr_TotalLength r \<and> mr_TotalLength r \<le> 31457280 \<and> 0 \<le> index \<and> index < mr_MediaCount r \<and>
     mr_MediaCount r \<le> 10 \<and> isValidMediaMIMEType (mr_MIMEType r) \<and> isLowerSHA256Hex (mr_SHA256 r)"

lemma metadata_exact: "validateMediaChunkMetadata r index = None \<longleftrightarrow> chunk_metadata_ok r index"
  by (auto simp: validateMediaChunkMetadata_def chunk_metadata_ok_def media_limits split: if_splits)

lemma range_exact:
  assumes "0 \<le> mq_Offset req" and "mq_Offset req + mq_Length req \<le> max_int64" and "int n \<le> mq_Length req"
  shows "validateMediaChunkRange r req n = None \<longleftrightarrow>
    mq_Offset req + int n \<le> mr_TotalLength r \<and> (mr_EOF r \<longleftrightarrow> mq_Offset req + int n = mr_TotalLength r) \<and>
    (mr_EOF r \<or> int n = mq_Length req)"
  using assms by (auto simp: validateMediaChunkRange_def Let_def split: if_splits)

text \<open>
  C40: for a request that is sent, exactly the answers are accepted whose chunk is the canonical base64
  of 1 to the requested number of bytes within the announced length, which marks the end exactly when
  it reaches it and is otherwise as long as requested; so the answer that carries the requested slice
  of a file is accepted, and no chunk leaves a gap or runs over the end. Nothing else is returned to the
  caller.
\<close>

theorem media_answer_exact:
  assumes "normalizeMediaChunkRequest req0 = Inr req"
  shows "(validateMediaChunkResponse r req = None \<longleftrightarrow>
      (\<exists>d. mr_ChunkBase64 r = EncodeToString d \<and> 1 \<le> length d \<and> int (length d) \<le> mq_Length req \<and>
        chunk_metadata_ok r (mq_MediaIndex req) \<and> mq_Offset req + int (length d) \<le> mr_TotalLength r \<and>
        (mr_EOF r \<longleftrightarrow> mq_Offset req + int (length d) = mr_TotalLength r) \<and> (mr_EOF r \<or> int (length d) = mq_Length req))) \<and>
    (\<forall>content. let chunk = take (nat (mq_Length req)) (drop (nat (mq_Offset req)) content) in
       mq_Offset req < int (length content) \<and> mr_TotalLength r = int (length content) \<and> chunk_metadata_ok r (mq_MediaIndex req) \<and>
       mr_ChunkBase64 r = EncodeToString chunk \<and> (mr_EOF r \<longleftrightarrow> int (length content) \<le> mq_Offset req + mq_Length req) \<longrightarrow>
       validateMediaChunkResponse r req = None) \<and>
    (FetchMediaChunk io enc decode c req0 = (Some (Inr r), c') \<longrightarrow> validateMediaChunkResponse r req = None)"
proof -
  from assms have b: "0 \<le> mq_Offset req" "1 \<le> mq_Length req" "mq_Offset req + mq_Length req \<le> max_int64"
    by (auto simp: normalized_range)
  have exact: "validateMediaChunkResponse r req = None \<longleftrightarrow>
      (\<exists>d. mr_ChunkBase64 r = EncodeToString d \<and> 1 \<le> length d \<and> int (length d) \<le> mq_Length req \<and>
        chunk_metadata_ok r (mq_MediaIndex req) \<and> mq_Offset req + int (length d) \<le> mr_TotalLength r \<and>
        (mr_EOF r \<longleftrightarrow> mq_Offset req + int (length d) = mr_TotalLength r) \<and> (mr_EOF r \<or> int (length d) = mq_Length req))"
  proof -
    have "validateMediaChunkResponse r req = None \<longleftrightarrow> chunk_metadata_ok r (mq_MediaIndex req) \<and>
        (\<exists>d. decodeMediaChunk (mr_ChunkBase64 r) (mq_Length req) = Inr d \<and> validateMediaChunkRange r req (length d) = None)"
      by (auto simp: validateMediaChunkResponse_def metadata_exact [symmetric] split: option.splits sum.splits)
    moreover have "0 \<le> mq_Length req" using b by simp
    ultimately show ?thesis
      using range_exact [OF b(1,3)] by (auto simp: decodeMediaChunk_exact)
  qed
  show ?thesis
  proof (intro conjI allI impI, fact exact)
    assume "FetchMediaChunk io enc decode c req0 = (Some (Inr r), c')"
    then show "validateMediaChunkResponse r req = None"
      by (auto simp: FetchMediaChunk_def assms split: prod.splits option.splits sum.splits)
  next
    fix content
    show "let chunk = take (nat (mq_Length req)) (drop (nat (mq_Offset req)) content) in
       mq_Offset req < int (length content) \<and> mr_TotalLength r = int (length content) \<and> chunk_metadata_ok r (mq_MediaIndex req) \<and>
       mr_ChunkBase64 r = EncodeToString chunk \<and> (mr_EOF r \<longleftrightarrow> int (length content) \<le> mq_Offset req + mq_Length req) \<longrightarrow>
       validateMediaChunkResponse r req = None"
      unfolding exact Let_def
      by (intro impI exI [of _ "take (nat (mq_Length req)) (drop (nat (mq_Offset req)) content)"]) (use b in auto)
  qed
qed

definition sample_media_request :: MediaChunkRequest where
  "sample_media_request = \<lparr>mq_MessageID = ''m'', mq_SourceGenerationID = 0, mq_RawSourceLogID = 1, mq_SourceLogID = 1, mq_ChatID = format_int 7,
     mq_ChatLogID = format_int 8, mq_Type = ''2'', mq_MediaIndex = 0, mq_Offset = 3, mq_Length = 4\<rparr>"

definition sample_media_response :: MediaChunkResponse where
  "sample_media_response = \<lparr>mr_ChunkBase64 = EncodeToString ''def'', mr_TotalLength = 6, mr_MIMEType = ''image/png'',
     mr_SHA256 = replicate 64 CHR ''a'', mr_EOF = True, mr_MediaCount = 1\<rparr>"

lemma sample_media_request_ok: "normalizeMediaChunkRequest sample_media_request = Inr sample_media_request"
proof -
  have "trim_space ''m'' = ''m''" by (rule trim_space_all_visible) (simp add: is_visible_def)
  moreover have "\<exists>i. 0 < i \<and> i \<le> max_int64 \<and> format_int n = format_int i" if "0 < n" "n < 10" for n
    using that by (intro exI [of _ n]) (simp add: max_int64_def)
  ultimately show ?thesis
    by (simp add: normalizeMediaChunkRequest_iff media_range_exact sample_media_request_def max_int64_def)
qed

theorem media_answer_exact_witness: "validateMediaChunkResponse sample_media_response sample_media_request = None"
proof -
  have "isLowerSHA256Hex (replicate 64 CHR ''a'')" by (simp add: isLowerSHA256Hex_def list_all_iff is_lower_hex_val)
  moreover have "isValidMediaMIMEType ''image/png''"
    by (simp add: isValidMediaMIMEType_def mediaMaxMIMEBytes_def isASCII_def isMediaMIMEToken_def is_lower_val)
  ultimately have "chunk_metadata_ok sample_media_response (mq_MediaIndex sample_media_request)"
    by (simp add: chunk_metadata_ok_def sample_media_response_def sample_media_request_def)
  then have "\<exists>d. mr_ChunkBase64 sample_media_response = EncodeToString d \<and> 1 \<le> length d \<and>
      int (length d) \<le> mq_Length sample_media_request \<and>
      chunk_metadata_ok sample_media_response (mq_MediaIndex sample_media_request) \<and>
      mq_Offset sample_media_request + int (length d) \<le> mr_TotalLength sample_media_response \<and>
      (mr_EOF sample_media_response \<longleftrightarrow> mq_Offset sample_media_request + int (length d) = mr_TotalLength sample_media_response) \<and>
      (mr_EOF sample_media_response \<or> int (length d) = mq_Length sample_media_request)"
    by (intro exI [of _ "''def''"]) (simp add: sample_media_response_def sample_media_request_def)
  with media_answer_exact [OF sample_media_request_ok] show ?thesis by blast
qed

end
