(* ===== verification/Go_Net.thy ===== *)
theory Go_Net
  imports Go_Netip
begin

text \<open>
  What the program uses of \<open>net.IP\<close>: an address is its bytes, \<open>nil\<close> is the empty list. The lemmas say
  that the two forms of an IPv4 address are one address.
\<close>

type_synonym ip = bytes

definition v4_in_v6_prefix :: bytes where
  "v4_in_v6_prefix = replicate 10 (CHR 0x00) @ replicate 2 (CHR 0xFF)"

text \<open>\<open>IP.To4\<close> and \<open>IP.To16\<close>; \<open>None\<close> is \<open>nil\<close>.\<close>

definition To4 :: "ip \<Rightarrow> bytes option" where
  "To4 a =
     (if length a = 4 then Some a
      else if length a = 16 \<and> take 12 a = v4_in_v6_prefix then Some (drop 12 a)
      else None)"

definition To16 :: "ip \<Rightarrow> bytes option" where
  "To16 a = (if length a = 4 then Some (v4_in_v6_prefix @ a) else if length a = 16 then Some a else None)"

definition IsLoopback :: "ip \<Rightarrow> bool" where
  "IsLoopback a =
     (case To4 a of
        Some v4 \<Rightarrow> hd v4 = CHR 0x7F
      | None \<Rightarrow> a = replicate 15 (CHR 0x00) @ [CHR 0x01])"

text \<open>\<open>net.ParseIP\<close>: the sixteen bytes of an address without a zone, or \<open>nil\<close>.\<close>

fun addr_As16 :: "addr \<Rightarrow> ip" where
  "addr_As16 (Addr4 fs) = v4_in_v6_prefix @ map char_of fs"
| "addr_As16 (Addr6 bs _) = map char_of bs"

definition ParseIP :: "string \<Rightarrow> ip" where
  "ParseIP s = (case ParseAddr s of None \<Rightarrow> [] | Some a \<Rightarrow> if Zone a \<noteq> [] then [] else addr_As16 a)"

lemma length_v4_prefix [simp]: "length v4_in_v6_prefix = 12"
  by (simp add: v4_in_v6_prefix_def)

lemma To4_forms: "length a = 4 \<Longrightarrow> To4 a = Some a" "length a = 4 \<Longrightarrow> To4 (v4_in_v6_prefix @ a) = Some a"
  by (simp_all add: To4_def)

lemma To4_length: "To4 a = Some b \<Longrightarrow> length b = 4"
  by (auto simp: To4_def split: if_splits)

lemma To16_length: "To16 a = Some b \<Longrightarrow> length b = 16"
  by (auto simp: To16_def split: if_splits)

text \<open>Both forms together: \<open>To16\<close> and back.\<close>

lemma To4_To16: "To4 a = Some b \<Longrightarrow> To16 a = Some (v4_in_v6_prefix @ b)"
  by (auto simp: To4_def To16_def split: if_splits) (metis append_take_drop_id)

lemma v6_finish_length: "length ip \<le> 16 \<Longrightarrow> v6_finish s ip ell = Some r \<Longrightarrow> length r = 16"
  by (auto simp: v6_finish_def split: if_splits option.splits)

lemma v6_loop_next:
  assumes "v6_loop s ip ell = Some r" and "length ip < 16"
  shows "(\<exists>s' ip' ell'. v6_finish s' ip' ell' = Some r \<and> (length ip' = length ip + 2 \<or> length ip' = length ip + 4 \<and> length ip \<le> 12)) \<or>
    (\<exists>s' ip' ell'. length ip' = length ip + 2 \<and> v6_loop s' ip' ell' = Some r)"
proof -
  let ?ds = "takeWhile is_hex s" and ?rest = "dropWhile is_hex s"
  let ?ip = "ip @ [hex_group_val ?ds div 256, hex_group_val ?ds mod 256]"
  have len: "length ?ip = length ip + 2" by simp
  note run = assms(1) [unfolded v6_loop.simps [of s ip ell] Let_def]
  show ?thesis
  proof (cases "?rest \<noteq> [] \<and> hd ?rest = CHR ''.''")
    case True
    with run assms(2) obtain fs where "parse_v4_fields s = Some fs" "v6_finish [] (ip @ fs) ell = Some r" "length ip \<le> 12"
      by (simp split: if_splits option.splits)
    with parse_v4_bounds show ?thesis by (intro disjI1 exI [of _ "[]"] exI [of _ "ip @ fs"] exI [of _ ell]) auto
  next
    case False
    have "(\<exists>ell'. v6_finish [] ?ip ell' = Some r) \<or> (\<exists>s' ell'. v6_loop s' ?ip ell' = Some r)"
      using run assms(2) False by (simp split: if_splits) blast+
    with len show ?thesis by blast
  qed
qed

lemma v6_loop_length: "v6_loop s ip ell = Some r \<Longrightarrow> even (length ip) \<Longrightarrow> length ip \<le> 16 \<Longrightarrow> length r = 16"
proof (induction "16 - length ip" arbitrary: s ip ell rule: less_induct)
  case less
  show ?case
  proof (cases "length ip < 16")
    case False
    with less.prems have "v6_finish s ip ell = Some r" by (simp add: v6_loop.simps [of s])
    with less.prems(3) show ?thesis by (rule v6_finish_length)
  next
    case True
    with less.prems(2) have l: "length ip \<le> 14" by presburger
    from v6_loop_next [OF less.prems(1) True] show ?thesis
    proof (elim disjE exE conjE)
      fix s' ip' ell'
      assume "v6_finish s' ip' ell' = Some r" "length ip' = length ip + 2"
      with l show ?thesis by (intro v6_finish_length [of ip']) auto
    next
      fix s' ip' ell'
      assume "v6_finish s' ip' ell' = Some r" "length ip' = length ip + 4" "length ip \<le> 12"
      then show ?thesis by (intro v6_finish_length [of ip']) auto
    next
      fix s' ip' ell'
      assume "length ip' = length ip + 2" "v6_loop s' ip' ell' = Some r"
      with l less.prems show ?thesis by (intro less.hyps [of ip' s' ell']) auto
    qed
  qed
qed

lemma ParseIP_length: "ParseIP s \<noteq> [] \<Longrightarrow> length (ParseIP s) = 16"
proof -
  have "Addr4 fs = a \<Longrightarrow> length fs = 4" "Addr6 bs z = a \<Longrightarrow> length bs = 16" if "parse_addr_from cs s = Some a" for cs a fs bs z
    using that
    by (induction cs s rule: parse_addr_from.induct)
      (auto simp: parse_v6_def dest: parse_v4_bounds v6_loop_length split: if_splits prod.splits)
  note len = this
  assume "ParseIP s \<noteq> []"
  then obtain a where "ParseAddr s = Some a" "ParseIP s = addr_As16 a" by (auto simp: ParseIP_def split: option.splits if_splits)
  with len [of s a] show ?thesis by (cases a) (auto simp: ParseAddr_def)
qed

end
