(* ===== verification/Client_Setup.thy ===== *)
theory Client_Setup
  imports Client_Call Go_Net
begin

text \<open>
  Construction of a client: \<open>internal/baseendpoint\<close>, the client options, the choice of a transport with
  the redirect policy (\<open>transport.go\<close>, \<open>http3_transport.go\<close>) and \<open>NewClient\<close> (\<open>sdk.go\<close>, \<open>client.go\<close>). The URL
  parser of \<open>net/url\<close>, the file system, the certificate parser, the resolver and the QUIC dialer are
  arguments. The lemmas say that a client sends nothing in the clear but loopback probes, that a signed
  request is never redirected, and that nothing is dialled the guard did not accept.
\<close>

section \<open>Base endpoint\<close>

record net_url =
  u_Scheme :: string
  u_Opaque :: string
  u_Host :: string
  u_Hostname :: string
  u_User :: bool
  u_RawQuery :: string
  u_ForceQuery :: bool
  u_Fragment :: string
  u_String :: string

datatype endpoint_error =
    EndpointEmpty | EndpointPort | EndpointMalformed | EndpointNotAbsolute | EndpointScheme string | EndpointNoHost
  | EndpointUserinfo | EndpointQuery | EndpointFragment | NormalizedMalformed

definition IsAbs :: "net_url \<Rightarrow> bool" where
  "IsAbs u \<longleftrightarrow> u_Scheme u \<noteq> []"

definition trim_right_slashes :: "string \<Rightarrow> string" where
  "trim_right_slashes s = rev (dropWhile (\<lambda>c. c = CHR ''/'') (rev s))"

text \<open>\<open>parse_uri\<close> is \<open>url.ParseRequestURI\<close>; its error is the text of the error.\<close>

definition Parse :: "(string \<Rightarrow> (string, net_url) result) \<Rightarrow> string \<Rightarrow> (endpoint_error, net_url) result" where
  "Parse parse_uri raw =
     (let trimmed = trim_space raw in
      if trimmed = [] then Inl EndpointEmpty
      else case parse_uri trimmed of
        Inl err \<Rightarrow> if sublist ''invalid port'' err then Inl EndpointPort else Inl EndpointMalformed
      | Inr parsed \<Rightarrow>
          if \<not> IsAbs parsed \<or> u_Opaque parsed \<noteq> [] then Inl EndpointNotAbsolute
          else if u_Scheme parsed \<noteq> ''http'' \<and> u_Scheme parsed \<noteq> ''https'' then Inl (EndpointScheme (u_Scheme parsed))
          else if u_Host parsed = [] \<or> u_Hostname parsed = [] then Inl EndpointNoHost
          else if u_User parsed then Inl EndpointUserinfo
          else if u_RawQuery parsed \<noteq> [] \<or> u_ForceQuery parsed then Inl EndpointQuery
          else if u_Fragment parsed \<noteq> [] then Inl EndpointFragment
          else let normalized = trim_right_slashes trimmed in
            case parse_uri normalized of
              Inl _ \<Rightarrow> Inl NormalizedMalformed
            | Inr parsed' \<Rightarrow> Inr parsed')"

section \<open>Redirects\<close>

record redirect =
  rd_Scheme :: string
  rd_Host :: string
  rd_Path :: string
  rd_Header :: header

type_synonym redirect_policy = "redirect \<Rightarrow> redirect list \<Rightarrow> go_error option"

definition hasIrisSigningHeaders :: "header \<Rightarrow> bool" where
  "hasIrisSigningHeaders h \<longleftrightarrow>
     list_ex (\<lambda>name. header_Get h name \<noteq> []) [HeaderIrisTimestamp, HeaderIrisNonce, HeaderIrisSignature, HeaderIrisBodySHA256]"

text \<open>\<open>via\<close> are the requests made already, the original one first.\<close>

definition check_redirect :: "redirect_policy option \<Rightarrow> redirect_policy" where
  "check_redirect callerPolicy req via =
     (if via \<noteq> [] \<and> (hasIrisSigningHeaders (rd_Header (hd via)) \<or> suffix authEpochPath (rd_Path (hd via))) then
        Some (Opaque (''iris: refusing redirect of signed request from '' @ rd_Scheme (hd via) @ ''://'' @ rd_Host (hd via) @
          '' to '' @ rd_Scheme req @ ''://'' @ rd_Host req))
      else case callerPolicy of
        Some policy \<Rightarrow> policy req via
      | None \<Rightarrow> if 10 \<le> length via then Some (Opaque ''iris: stopped after redirects'') else None)"

section \<open>HTTP/3\<close>

type_synonym dial_guard = "ip \<Rightarrow> go_error option"

record http3_transport =
  h3_MinVersion :: nat
  h3_RootCAs :: bytes
  h3_ServerName :: string
  h3_InitialPacketSize :: nat
  h3_HandshakeIdleTimeout :: duration
  h3_KeepAlivePeriod :: duration
  h3_MaxIdleTimeout :: duration
  h3_Dial :: "dial_guard option"

text \<open>The fields \<open>newHTTP1Transport\<close> sets; HTTP/1 is the only protocol it offers.\<close>

record http1_transport =
  h1_MaxIdleConns :: int
  h1_MaxIdleConnsPerHost :: int
  h1_MaxConnsPerHost :: int
  h1_IdleConnTimeout :: duration
  h1_TLSHandshakeTimeout :: duration
  h1_ResponseHeaderTimeout :: duration
  h1_DialTimeout :: duration
  h1_DialKeepAlive :: duration

definition defaultTLSHandshakeTimeout :: duration where "defaultTLSHandshakeTimeout = 5 * Second"
definition defaultMaxConnsPerHost :: int where "defaultMaxConnsPerHost = 32"
definition defaultHTTP1DialTimeout :: duration where "defaultHTTP1DialTimeout = 3 * Second"
definition defaultHTTP1HeaderTimeout :: duration where "defaultHTTP1HeaderTimeout = 5 * Second"
definition defaultHTTP1IdleConnTimeout :: duration where "defaultHTTP1IdleConnTimeout = 90 * Second"
definition defaultHTTP1MaxIdleConns :: int where "defaultHTTP1MaxIdleConns = 10"
definition defaultHTTP1MaxIdleConnsPerHost :: int where "defaultHTTP1MaxIdleConnsPerHost = 10"

definition newHTTP1Transport :: http1_transport where
  "newHTTP1Transport =
     \<lparr>h1_MaxIdleConns = defaultHTTP1MaxIdleConns, h1_MaxIdleConnsPerHost = defaultHTTP1MaxIdleConnsPerHost,
      h1_MaxConnsPerHost = defaultMaxConnsPerHost, h1_IdleConnTimeout = defaultHTTP1IdleConnTimeout,
      h1_TLSHandshakeTimeout = defaultTLSHandshakeTimeout, h1_ResponseHeaderTimeout = defaultHTTP1HeaderTimeout,
      h1_DialTimeout = defaultHTTP1DialTimeout, h1_DialKeepAlive = 30 * Second\<rparr>"

datatype transport = CallerTransport nat | HTTP1Transport http1_transport | HTTP3Transport http3_transport

record http_client =
  hc_Timeout :: duration
  hc_Transport :: transport
  hc_CheckRedirect :: "redirect_policy option"

definition cloneHTTPClientWithRedirectPolicy :: "http_client \<Rightarrow> http_client" where
  "cloneHTTPClientWithRedirectPolicy source = source\<lparr>hc_CheckRedirect := Some (check_redirect (hc_CheckRedirect source))\<rparr>"

section \<open>Options\<close>

datatype metrics = NilMetrics | NoopTransportMetrics | CallerMetrics nat

record clientOptions =
  co_Transport :: string
  co_Timeout :: duration
  co_HTTPClient :: "http_client option"
  co_TransportMetrics :: metrics
  co_ReplyRetryMax :: int
  co_h3ServerName :: string
  co_h3CACertFile :: string
  co_h3DialGuard :: "dial_guard option"
  co_baseURL :: string
  co_botToken :: string

datatype ClientOption =
    WithTransport string | WithTimeout duration | WithHTTPClient "http_client option" | WithTransportMetrics metrics
  | WithH3ServerName string | WithH3CACertFile string | WithH3DialGuard "dial_guard option" | WithReplyRetry int
  | WithBaseURL string | WithBotToken string

fun apply_client_option :: "ClientOption \<Rightarrow> clientOptions \<Rightarrow> clientOptions" where
  "apply_client_option (WithTransport t) o' = o'\<lparr>co_Transport := t\<rparr>"
| "apply_client_option (WithTimeout d) o' = o'\<lparr>co_Timeout := d\<rparr>"
| "apply_client_option (WithHTTPClient c) o' = (if c \<noteq> None then o'\<lparr>co_HTTPClient := c\<rparr> else o')"
| "apply_client_option (WithTransportMetrics m) o' = (if m \<noteq> NilMetrics then o'\<lparr>co_TransportMetrics := m\<rparr> else o')"
| "apply_client_option (WithH3ServerName n) o' = o'\<lparr>co_h3ServerName := trim_space n\<rparr>"
| "apply_client_option (WithH3CACertFile p) o' = o'\<lparr>co_h3CACertFile := trim_space p\<rparr>"
| "apply_client_option (WithH3DialGuard g) o' = o'\<lparr>co_h3DialGuard := g\<rparr>"
| "apply_client_option (WithReplyRetry n) o' = o'\<lparr>co_ReplyRetryMax := n\<rparr>"
| "apply_client_option (WithBaseURL u) o' = o'\<lparr>co_baseURL := u\<rparr>"
| "apply_client_option (WithBotToken t) o' = o'\<lparr>co_botToken := t\<rparr>"

definition defaultPositiveDuration :: "duration \<Rightarrow> duration \<Rightarrow> duration" where
  "defaultPositiveDuration v fallback = (if 0 < v then v else fallback)"

definition zero_clientOptions :: clientOptions where
  "zero_clientOptions = \<lparr>co_Transport = [], co_Timeout = 0, co_HTTPClient = None, co_TransportMetrics = NilMetrics, co_ReplyRetryMax = 0,
     co_h3ServerName = [], co_h3CACertFile = [], co_h3DialGuard = None, co_baseURL = [], co_botToken = []\<rparr>"

definition applyClientOptions :: "ClientOption option list \<Rightarrow> clientOptions" where
  "applyClientOptions opts =
     (let out = fold (\<lambda>opt o'. case opt of None \<Rightarrow> o' | Some x \<Rightarrow> apply_client_option x o') opts zero_clientOptions;
          out1 = out\<lparr>co_Timeout := defaultPositiveDuration (co_Timeout out) (10 * Second)\<rparr>;
          out2 = (if co_TransportMetrics out1 = NilMetrics then out1\<lparr>co_TransportMetrics := NoopTransportMetrics\<rparr> else out1)
      in if co_ReplyRetryMax out2 < 0 then out2\<lparr>co_ReplyRetryMax := 0\<rparr> else out2)"

section \<open>Transports\<close>

datatype setup_error =
    InvalidEndpoint endpoint_error | UnsupportedTransport string | HTTP1ProbeOnly | H3RequiresHTTPS string
  | MissingH3CACertFile | ReadH3CACertFile go_error | EmptyH3CACertFile | NoPEMCertificate
  | BaseURLRequired | BotTokenRequired

definition TransportH3 :: string where "TransportH3 = ''h3''"
definition TransportHTTP1 :: string where "TransportHTTP1 = ''http1''"

definition ParseTransport :: "ucase \<Rightarrow> string \<Rightarrow> (setup_error, string) result" where
  "ParseTransport uc v =
     (let t = to_lower uc (trim_space v) in
      if t = TransportH3 \<or> t = TransportHTTP1 then Inr t else Inl (UnsupportedTransport v))"

definition resolveTransport :: "ucase \<Rightarrow> string \<Rightarrow> (setup_error, string) result" where
  "resolveTransport uc explicit = (if trim_space explicit = [] then Inr TransportH3 else ParseTransport uc explicit)"

definition isLoopbackHost :: "string \<Rightarrow> bool" where
  "isLoopbackHost host \<longleftrightarrow> equal_fold_ascii host ''localhost'' \<or> (let a = ParseIP host in a \<noteq> [] \<and> IsLoopback a)"

definition h3InitialPacketSize :: nat where "h3InitialPacketSize = 1200"
definition h3KeepAlivePeriod :: duration where "h3KeepAlivePeriod = 10 * Second"
definition h3MaxIdleTimeout :: duration where "h3MaxIdleTimeout = 60 * Second"
definition h3HandshakeIdleTimeout :: duration where "h3HandshakeIdleTimeout = 10 * Second"

text \<open>\<open>pem_ok\<close> says that a certificate was found; \<open>0x0304\<close> is TLS 1.3.\<close>

definition newHTTP3TransportFromCA :: "(bytes \<Rightarrow> bool) \<Rightarrow> clientOptions \<Rightarrow> bytes \<Rightarrow> (setup_error, http3_transport) result" where
  "newHTTP3TransportFromCA pem_ok opts pemBytes =
     (if pemBytes = [] then Inl EmptyH3CACertFile
      else if \<not> pem_ok pemBytes then Inl NoPEMCertificate
      else Inr \<lparr>h3_MinVersion = 0x0304, h3_RootCAs = pemBytes,
        h3_ServerName = (if co_h3ServerName opts \<noteq> [] then co_h3ServerName opts else []),
        h3_InitialPacketSize = h3InitialPacketSize, h3_HandshakeIdleTimeout = h3HandshakeIdleTimeout,
        h3_KeepAlivePeriod = h3KeepAlivePeriod, h3_MaxIdleTimeout = h3MaxIdleTimeout, h3_Dial = co_h3DialGuard opts\<rparr>)"

definition newHTTP3Transport ::
  "(string \<Rightarrow> (go_error, bytes) result) \<Rightarrow> (bytes \<Rightarrow> bool) \<Rightarrow> clientOptions \<Rightarrow> (setup_error, http3_transport) result" where
  "newHTTP3Transport read_file pem_ok opts =
     (if co_h3CACertFile opts = [] then Inl MissingH3CACertFile
      else case read_file (co_h3CACertFile opts) of
        Inl err \<Rightarrow> Inl (ReadH3CACertFile err)
      | Inr pemBytes \<Rightarrow> newHTTP3TransportFromCA pem_ok opts pemBytes)"

text \<open>The second component says that there is something to close.\<close>

definition selectTransport ::
  "(string \<Rightarrow> (go_error, bytes) result) \<Rightarrow> (bytes \<Rightarrow> bool) \<Rightarrow> net_url \<Rightarrow> string \<Rightarrow> clientOptions \<Rightarrow> (setup_error, transport \<times> bool) result" where
  "selectTransport read_file pem_ok baseURL transport opts =
     (if transport = TransportHTTP1 then
        (if \<not> isLoopbackHost (u_Hostname baseURL) then Inl HTTP1ProbeOnly else Inr (HTTP1Transport newHTTP1Transport, False))
      else if transport = TransportH3 then
        (if u_Scheme baseURL \<noteq> ''https'' then Inl (H3RequiresHTTPS (u_Scheme baseURL))
         else and_then (newHTTP3Transport read_file pem_ok opts) (\<lambda>rt. Inr (HTTP3Transport rt, True)))
      else Inl (UnsupportedTransport transport))"

definition newHTTPClientWithCloser ::
  "(string \<Rightarrow> (go_error, bytes) result) \<Rightarrow> (bytes \<Rightarrow> bool) \<Rightarrow> net_url \<Rightarrow> string \<Rightarrow> clientOptions \<Rightarrow> (setup_error, http_client \<times> bool) result" where
  "newHTTPClientWithCloser read_file pem_ok baseURL transport opts =
     and_then (selectTransport read_file pem_ok baseURL transport opts) (\<lambda>(rt, closer).
       Inr (cloneHTTPClientWithRedirectPolicy \<lparr>hc_Timeout = co_Timeout opts, hc_Transport = rt, hc_CheckRedirect = None\<rparr>, closer))"

section \<open>Dialling\<close>

record ip_addr =
  ia_IP :: ip
  ia_Zone :: string

record udp_addr =
  ua_IP :: ip
  ua_Port :: int
  ua_Zone :: string

fun first_family :: "bool \<Rightarrow> ip_addr list \<Rightarrow> ip_addr option" where
  "first_family wantIPv6 [] = None"
| "first_family wantIPv6 (a # as) = (if (To4 (ia_IP a) = None) = wantIPv6 then Some a else first_family wantIPv6 as)"

definition selectH3DialIPAddr :: "ip_addr list \<Rightarrow> string \<Rightarrow> ip_addr" where
  "selectH3DialIPAddr ipAddrs addr =
     (case first_family (CHR ''['' \<in> set addr) ipAddrs of Some a \<Rightarrow> a | None \<Rightarrow> hd ipAddrs)"

text \<open>The splitting of an address and the resolver, as the dialler uses them.\<close>

record resolver =
  rs_split :: "string \<Rightarrow> (go_error, string \<times> string) result"
  rs_port :: "string \<Rightarrow> (go_error, int) result"
  rs_ips :: "string \<Rightarrow> (go_error, ip_addr list) result"

definition resolveH3DialUDPAddr :: "resolver \<Rightarrow> string \<Rightarrow> (go_error, udp_addr) result" where
  "resolveH3DialUDPAddr rs addr =
     (case rs_split rs addr of
        Inl err \<Rightarrow> Inl (WrapErr ''split host port'' [err])
      | Inr (host, portString) \<Rightarrow>
          (case rs_port rs portString of
             Inl err \<Rightarrow> Inl (WrapErr ''lookup port'' [err])
           | Inr port \<Rightarrow>
               (case rs_ips rs host of
                  Inl err \<Rightarrow> Inl (WrapErr ''lookup IP address'' [err])
                | Inr ipAddrs \<Rightarrow>
                    if ipAddrs = [] then Inl (Opaque (''no addresses for '' @ host))
                    else let a = selectH3DialIPAddr ipAddrs addr in
                      Inr \<lparr>ua_IP = ia_IP a, ua_Port = port, ua_Zone = ia_Zone a\<rparr>)))"

text \<open>\<open>ctx0\<close> and \<open>ctx1\<close> are the readings of the context before and after resolving; \<open>dial\<close> is \<open>quic.DialAddrEarly\<close>.\<close>

definition guardedH3DialContext ::
  "dial_guard \<Rightarrow> resolver \<Rightarrow> go_error option \<Rightarrow> go_error option \<Rightarrow> (udp_addr \<Rightarrow> (go_error, 'conn) result) \<Rightarrow> string \<Rightarrow> (go_error, 'conn) result" where
  "guardedH3DialContext guard rs ctx0 ctx1 dial addr =
     (case ctx0 of
        Some ctxErr \<Rightarrow> Inl (WrapErr ''check h3 dial context before resolve'' [Sentinel ErrNotSent, ctxErr])
      | None \<Rightarrow>
      case resolveH3DialUDPAddr rs addr of
        Inl err \<Rightarrow> Inl (WrapErr ''resolve h3 dial addr'' [Sentinel ErrNotSent, err])
      | Inr udpAddr \<Rightarrow>
      case ctx1 of
        Some ctxErr \<Rightarrow> Inl (WrapErr ''check h3 dial context after resolve'' [Sentinel ErrNotSent, ctxErr])
      | None \<Rightarrow>
      case guard (ua_IP udpAddr) of
        Some guardErr \<Rightarrow> Inl (WrapErr [] [Sentinel ErrNotSent, Sentinel ErrH3EgressDenied, guardErr])
      | None \<Rightarrow> dial udpAddr)"

section \<open>Clients\<close>

definition newBotControlSigner :: "string \<Rightarrow> Signer option" where
  "newBotControlSigner botToken = (let secret = trim_space botToken in if secret = [] then None else Some (NewSigner secret))"

text \<open>A client with its HTTP client, its options and its closer, if it has one.\<close>

record api_client =
  as_client :: APIClient
  as_http :: http_client
  as_opts :: clientOptions
  as_closer :: bool

definition newAPIClient ::
  "ucase \<Rightarrow> (string \<Rightarrow> (string, net_url) result) \<Rightarrow> (string \<Rightarrow> (go_error, bytes) result) \<Rightarrow> (bytes \<Rightarrow> bool) \<Rightarrow> string \<Rightarrow> string \<Rightarrow> clientOptions
     \<Rightarrow> (setup_error, api_client) result" where
  "newAPIClient uc parse_uri read_file pem_ok baseURL botToken o' =
     (case Parse parse_uri baseURL of
        Inl err \<Rightarrow> Inl (InvalidEndpoint err)
      | Inr endpoint \<Rightarrow>
          and_then (resolveTransport uc (co_Transport o')) (\<lambda>transport.
            let c = \<lparr>ac_baseURL = u_String endpoint, ac_signer = newBotControlSigner botToken, ac_epoch = [],
                 ac_http1ProbeOnly = False, ac_sent = []\<rparr> in
            case co_HTTPClient o' of
              Some hc \<Rightarrow> Inr \<lparr>as_client = c, as_http = cloneHTTPClientWithRedirectPolicy hc, as_opts = o', as_closer = False\<rparr>
            | None \<Rightarrow>
                and_then (newHTTPClientWithCloser read_file pem_ok endpoint transport o') (\<lambda>(httpClient, closer).
                  Inr \<lparr>as_client = c\<lparr>ac_http1ProbeOnly := (transport = TransportHTTP1)\<rparr>, as_http = httpClient, as_opts = o',
                    as_closer = closer\<rparr>)))"

definition NewClient ::
  "ucase \<Rightarrow> (string \<Rightarrow> (string, net_url) result) \<Rightarrow> (string \<Rightarrow> (go_error, bytes) result) \<Rightarrow> (bytes \<Rightarrow> bool) \<Rightarrow> ClientOption option list
     \<Rightarrow> (setup_error, api_client) result" where
  "NewClient uc parse_uri read_file pem_ok opts =
     (let o' = applyClientOptions opts; baseURL = trim_space (co_baseURL o') in
      if baseURL = [] then Inl BaseURLRequired
      else let botToken = trim_space (co_botToken o') in
        if botToken = [] then Inl BotTokenRequired
        else newAPIClient uc parse_uri read_file pem_ok baseURL botToken o')"

text \<open>\<open>Close\<close>; \<open>closeErr\<close> is what closing the transport returns.\<close>

definition Close :: "go_error option \<Rightarrow> api_client \<Rightarrow> go_error option \<times> api_client" where
  "Close closeErr c =
     (if \<not> as_closer c then (None, c)
      else (map_option (\<lambda>err. WrapErr ''close transport'' [err]) closeErr, c\<lparr>as_closer := False\<rparr>))"

section \<open>Laws\<close>

lemma probe_only_refuses:
  assumes "ac_http1ProbeOnly c" and "\<not> isHTTP1ProbeRoute method path"
  shows "newSignedStreamRequest io c method path body sha = (Inl (WrapErr [] [Sentinel ErrNotSent, Sentinel errHTTP1ProbeOnly]), c)"
  using assms by (simp add: newSignedStreamRequest_def newRequest_def)

lemma post_not_probe: "\<not> isHTTP1ProbeRoute ''POST'' path"
  by (simp add: isHTTP1ProbeRoute_def)

lemma probe_only_post:
  assumes "ac_http1ProbeOnly c" and "postJSON ci retryMax c path (Inr payload) idem = (r, c')"
  shows "c' = c \<and> (\<exists>err. r = Some (Inl err) \<and> errors_Is err ErrNotSent)"
proof -
  have "newSignedJSONRequest (ci_io ci) path payload c = (Inl (WrapErr ''post'' [WrapErr [] [Sentinel ErrNotSent, Sentinel errHTTP1ProbeOnly]]), c)"
    by (simp add: newSignedJSONRequest_def probe_only_refuses [OF assms(1) post_not_probe])
  with assms(2) show ?thesis
    by (auto simp: postJSON_def retryPostJSON_def retryPost_def retry_loop.simps post_attempts_def keepUnknownOutcome_def)
qed

lemma newAPIClient_cases:
  assumes "newAPIClient uc parse_uri read_file pem_ok baseURL botToken o' = Inr s"
  obtains (own) endpoint rt closer transport where "co_HTTPClient o' = None" "Parse parse_uri baseURL = Inr endpoint"
      "selectTransport read_file pem_ok endpoint transport o' = Inr (rt, closer)"
      "as_http s = cloneHTTPClientWithRedirectPolicy \<lparr>hc_Timeout = co_Timeout o', hc_Transport = rt, hc_CheckRedirect = None\<rparr>"
      "ac_http1ProbeOnly (as_client s) = (transport = TransportHTTP1)" "ac_signer (as_client s) = newBotControlSigner botToken"
      "ac_baseURL (as_client s) = u_String endpoint" "as_closer s = closer"
    | (given) hc where "co_HTTPClient o' = Some hc" "as_http s = cloneHTTPClientWithRedirectPolicy hc" "\<not> as_closer s"
      "ac_signer (as_client s) = newBotControlSigner botToken"
proof (cases "co_HTTPClient o'")
  case None
  with assms obtain endpoint transport rt closer where "Parse parse_uri baseURL = Inr endpoint"
    "selectTransport read_file pem_ok endpoint transport o' = Inr (rt, closer)"
    "s = \<lparr>as_client = \<lparr>ac_baseURL = u_String endpoint, ac_signer = newBotControlSigner botToken, ac_epoch = [],
          ac_http1ProbeOnly = (transport = TransportHTTP1), ac_sent = []\<rparr>,
        as_http = cloneHTTPClientWithRedirectPolicy \<lparr>hc_Timeout = co_Timeout o', hc_Transport = rt, hc_CheckRedirect = None\<rparr>,
        as_opts = o', as_closer = closer\<rparr>"
    by (auto simp: newAPIClient_def newHTTPClientWithCloser_def Let_def split: sum.splits)
  with None show thesis by (intro own [of endpoint transport rt closer]) simp_all
next
  case (Some hc)
  with assms show thesis by (intro given) (auto simp: newAPIClient_def Let_def split: sum.splits)
qed

lemma NewClient_newAPI:
  "NewClient uc parse_uri read_file pem_ok opts = Inr s \<Longrightarrow>
   \<exists>baseURL botToken. newAPIClient uc parse_uri read_file pem_ok baseURL botToken (applyClientOptions opts) = Inr s \<and>
     trim_space botToken \<noteq> []"
  by (rule exI [of _ "trim_space (co_baseURL (applyClientOptions opts))"], rule exI [of _ "trim_space (co_botToken (applyClientOptions opts))"])
    (auto simp: NewClient_def Let_def trim_space_idem split: if_splits)

lemma NewClient_signs: "NewClient uc parse_uri read_file pem_ok opts = Inr s \<Longrightarrow> ac_signer (as_client s) \<noteq> None"
  using NewClient_newAPI [of uc parse_uri read_file pem_ok opts s]
  by (auto elim!: newAPIClient_cases simp: newBotControlSigner_def Let_def)

lemma format_int_nonempty: "format_int i \<noteq> []"
  using format_nat_digits by (auto simp: format_int_def)

lemma signed_has_headers:
  assumes "signRequest io c req method path sha = (Inr q, c')" and "ac_signer c \<noteq> None"
  shows "hasIrisSigningHeaders (cr_header q)"
proof -
  from assms obtain choice nowMs random signer epoch signer' where
    "SetIrisHMACHeaders (io_case io) choice nowMs random (cr_header req) signer method path sha epoch = Inr (cr_header q, signer')"
    by (auto simp: signRequest_def Let_def split: option.splits prod.splits sum.splits)
  then obtain sig where "cr_header q = header_Set (header_Set (header_Set (header_Set (cr_header req) HeaderIrisTimestamp (format_int nowMs))
      HeaderIrisNonce (GenerateNonce random epoch)) HeaderIrisSignature sig) HeaderIrisBodySHA256 sha"
    by (auto simp: SetIrisHMACHeaders_def Let_def eq_commute [of _ "cr_header q"] split: prod.splits)
  then have "header_Get (cr_header q) HeaderIrisTimestamp = format_int nowMs" by (simp add: header_Get_Set)
  then show ?thesis by (simp add: hasIrisSigningHeaders_def format_int_nonempty)
qed

lemma own_transport:
  assumes "selectTransport read_file pem_ok endpoint transport o' = Inr (rt, closer)"
  shows "transport = TransportHTTP1 \<and> isLoopbackHost (u_Hostname endpoint) \<and> rt = HTTP1Transport newHTTP1Transport \<or>
    transport \<noteq> TransportHTTP1 \<and> u_Scheme endpoint = ''https'' \<and> (\<exists>t. rt = HTTP3Transport t \<and> pem_ok (h3_RootCAs t) \<and>
       read_file (co_h3CACertFile o') = Inr (h3_RootCAs t) \<and> h3_MinVersion t = 0x0304 \<and> h3_Dial t = co_h3DialGuard o')"
  using assms
  by (auto simp: selectTransport_def newHTTP3Transport_def newHTTP3TransportFromCA_def split: if_splits sum.splits)

section \<open>Claims\<close>


text \<open>
  C39: whatever redirect policy the caller brought, a client refuses to follow a redirect of a request
  it signed, and of the discovery of the epoch, at every hop.
\<close>

theorem signed_never_redirected:
  assumes "newAPIClient uc parse_uri read_file pem_ok baseURL botToken o' = Inr s"
    and "signRequest io c req method path sha = (Inr q, c')" and "ac_signer c \<noteq> None"
  shows "\<exists>policy. hc_CheckRedirect (as_http s) = Some policy \<and>
    (\<forall>next origin later. rd_Header origin = cr_header q \<or> suffix authEpochPath (rd_Path origin) \<longrightarrow>
       policy next (origin # later) \<noteq> None)"
proof -
  have "\<exists>p. hc_CheckRedirect (as_http s) = Some (check_redirect p)"
    using assms(1) by (cases rule: newAPIClient_cases) (auto simp: cloneHTTPClientWithRedirectPolicy_def)
  with signed_has_headers [OF assms(2,3)] show ?thesis by (auto simp: check_redirect_def)
qed

text \<open>
  A guarded dial reaches the QUIC dialler only with an address that was resolved for the target and
  whose IP the guard accepted; every other end of it is an error that says that nothing was sent, and
  when the guard refused the address the error is an egress denial, which no call retries.
\<close>

theorem h3_dial_guarded:
  "(\<exists>a. resolveH3DialUDPAddr rs addr = Inr a \<and> guard (ua_IP a) = None \<and>
      guardedH3DialContext guard rs ctx0 ctx1 dial addr = dial a) \<or>
   (\<exists>err. guardedH3DialContext guard rs ctx0 ctx1 dial addr = Inl err \<and> errors_Is err ErrNotSent \<and>
      (\<forall>a e. ctx0 = None \<and> ctx1 = None \<and> resolveH3DialUDPAddr rs addr = Inr a \<and> guard (ua_IP a) = Some e \<longrightarrow>
         errors_Is err ErrH3EgressDenied \<and> \<not> isRetryableTransportError (TransportError op u err idem)))"
  by (auto simp: guardedH3DialContext_def isRetryableTransportError_def split: option.split sum.split)

definition sample_url :: net_url where
  "sample_url = \<lparr>u_Scheme = ''https'', u_Opaque = [], u_Host = ''iris'', u_Hostname = ''iris'', u_User = False, u_RawQuery = [],
     u_ForceQuery = False, u_Fragment = [], u_String = ''https://iris''\<rparr>"

definition sample_opts :: "ClientOption option list" where
  "sample_opts = [Some (WithBaseURL ''https://iris/''), None, Some (WithBotToken ''t''), Some (WithH3CACertFile ''ca'')]"

lemma sample_new_api:
  "\<exists>s. newAPIClient uc (\<lambda>_. Inr sample_url) (\<lambda>_. Inr ''pem'') (\<lambda>_. True) ''https://iris/'' ''t'' (applyClientOptions sample_opts) = Inr s"
  and sample_new_client:
  "\<exists>s. NewClient uc (\<lambda>_. Inr sample_url) (\<lambda>_. Inr ''pem'') (\<lambda>_. True) sample_opts = Inr s \<and> co_HTTPClient (applyClientOptions sample_opts) = None"
proof -
  have vis: "trim_space ''https://iris/'' = ''https://iris/''" "trim_space ''t'' = ''t''" "trim_space ''ca'' = ''ca''"
    by (rule trim_space_all_visible, simp add: is_visible_def)+
  have o': "applyClientOptions sample_opts = zero_clientOptions\<lparr>co_baseURL := ''https://iris/'', co_botToken := ''t'', co_h3CACertFile := ''ca'',
      co_Timeout := 10 * Second, co_TransportMetrics := NoopTransportMetrics\<rparr>"
    by (simp add: applyClientOptions_def sample_opts_def zero_clientOptions_def vis defaultPositiveDuration_def)
  show http: "\<exists>s. newAPIClient uc (\<lambda>_. Inr sample_url) (\<lambda>_. Inr ''pem'') (\<lambda>_. True) ''https://iris/'' ''t'' (applyClientOptions sample_opts) = Inr s"
    by (simp add: newAPIClient_def Parse_def Let_def vis IsAbs_def sample_url_def o' zero_clientOptions_def resolveTransport_def
        newHTTPClientWithCloser_def selectTransport_def TransportH3_def TransportHTTP1_def newHTTP3Transport_def newHTTP3TransportFromCA_def)
  then show "\<exists>s. NewClient uc (\<lambda>_. Inr sample_url) (\<lambda>_. Inr ''pem'') (\<lambda>_. True) sample_opts = Inr s \<and> co_HTTPClient (applyClientOptions sample_opts) = None"
    by (simp add: NewClient_def Let_def o' vis) (simp add: zero_clientOptions_def)
qed


definition sample_resolver :: resolver where
  "sample_resolver = \<lparr>rs_split = \<lambda>_. Inr (''iris'', ''443''), rs_port = \<lambda>_. Inr 443,
     rs_ips = \<lambda>_. Inr [\<lparr>ia_IP = replicate 4 (CHR 0x0A), ia_Zone = []\<rparr>]\<rparr>"


definition sample_signing_client :: APIClient where
  "sample_signing_client = sample_client\<lparr>ac_signer := Some (NewSigner ''t''), ac_epoch := ''e''\<rparr>"

lemma sample_signs:
  "\<exists>q c'. signRequest offline_io sample_signing_client sample_creq ''POST'' ''/reply'' ''d'' = (Inr q, c')"
proof -
  have target: "CanonicalRequestTarget ''/reply'' = Inr ''/reply''" by (simp add: CanonicalRequestTarget_def canonicalTarget_path)
  have "signer_ok ''t'' (NewSigner ''t'') []" by (rule signer_reach_ok) (rule sr_new)
  from SetIrisHMACHeaders_result [OF this target, of ascii_case None 0 "replicate 32 (CHR ''r'')" "[]" "''POST''" "''d''" "''e''"]
  obtain h signer' where "SetIrisHMACHeaders ascii_case None 0 (replicate 32 (CHR ''r'')) [] (NewSigner ''t'') ''POST'' ''/reply'' ''d'' ''e'' =
      Inr (h, signer')" by blast
  then show ?thesis
    by (simp add: signRequest_def authEpoch_def sample_signing_client_def sample_client_def sample_creq_def offline_io_def Let_def)
qed

theorem signed_never_redirected_witness:
  "\<exists>s policy. newAPIClient ascii_case (\<lambda>_. Inr sample_url) (\<lambda>_. Inr ''pem'') (\<lambda>_. True) ''https://iris/'' ''t''
       (applyClientOptions sample_opts) = Inr s \<and> hc_CheckRedirect (as_http s) = Some policy \<and>
     policy \<lparr>rd_Scheme = ''http'', rd_Host = ''evil'', rd_Path = [], rd_Header = []\<rparr>
       [\<lparr>rd_Scheme = ''https'', rd_Host = ''iris'', rd_Path = authEpochPath, rd_Header = []\<rparr>] \<noteq> None"
proof -
  obtain s where new: "newAPIClient ascii_case (\<lambda>_. Inr sample_url) (\<lambda>_. Inr ''pem'') (\<lambda>_. True) ''https://iris/'' ''t''
       (applyClientOptions sample_opts) = Inr s"
    using sample_new_api by blast
  obtain q c' where sign: "signRequest offline_io sample_signing_client sample_creq ''POST'' ''/reply'' ''d'' = (Inr q, c')"
    using sample_signs by blast
  have "ac_signer sample_signing_client \<noteq> None" by (simp add: sample_signing_client_def)
  from signed_never_redirected [OF new sign this] new show ?thesis by auto
qed

end
