(* ===== verification/H3_Dial_Guard.thy ===== *)
theory H3_Dial_Guard
  imports Client_Setup Single_Flight
begin

text \<open>
  The guard of HTTP/3 dials: \<open>internal/client/transport/h3_dial_guard.go\<close>. The guard keeps the addresses
  its host last resolved to; a dial checks its address and, when the addresses are out of date, starts
  or joins one refresh and waits for it only if it would be refused. Dials and the refresh run
  concurrently: their steps between two holds of the lock are the steps of a relation. Logging is left
  out. The lemmas say that a dial passes only to an address the host resolved to, that refreshes are
  single-flight, that a failed refresh keeps the addresses, and that no waiting dial is forgotten.
\<close>

section \<open>Addresses\<close>

definition canonicalIP :: "ip \<Rightarrow> string" where
  "canonicalIP a =
     (if a = [] then []
      else case To4 a of
        Some v4 \<Rightarrow> v4
      | None \<Rightarrow> (case To16 a of Some v6 \<Rightarrow> v6 | None \<Rightarrow> []))"

definition ipAllowset :: "ip list \<Rightarrow> string set" where
  "ipAllowset ips = fold (\<lambda>a allowed. let k = canonicalIP a in if k \<noteq> [] then insert k allowed else allowed) ips {}"

section \<open>The guard\<close>

definition defaultH3DialGuardTTL :: duration where "defaultH3DialGuardTTL = Minute"
definition defaultH3DialGuardResolveTimeout :: duration where "defaultH3DialGuardResolveTimeout = 5 * Second"

record h3DialGuardOptions =
  gopt_ttl :: duration
  gopt_resolveTimeout :: duration

datatype H3DialGuardOption = WithH3DialGuardTTL duration | WithH3DialGuardResolveTimeout duration | WithH3DialGuardLogger

fun apply_guard_option :: "H3DialGuardOption \<Rightarrow> h3DialGuardOptions \<Rightarrow> h3DialGuardOptions" where
  "apply_guard_option (WithH3DialGuardTTL ttl) o' = (if 0 < ttl then o'\<lparr>gopt_ttl := ttl\<rparr> else o')"
| "apply_guard_option (WithH3DialGuardResolveTimeout t) o' = (if 0 < t then o'\<lparr>gopt_resolveTimeout := t\<rparr> else o')"
| "apply_guard_option WithH3DialGuardLogger o' = o'"

definition applyH3DialGuardOptions :: "H3DialGuardOption option list \<Rightarrow> h3DialGuardOptions" where
  "applyH3DialGuardOptions opts =
     fold (\<lambda>opt o'. case opt of None \<Rightarrow> o' | Some x \<Rightarrow> apply_guard_option x o') opts
       \<lparr>gopt_ttl = defaultH3DialGuardTTL, gopt_resolveTimeout = defaultH3DialGuardResolveTimeout\<rparr>"

text \<open>\<open>g_expiresAt\<close> is \<open>None\<close> for the zero time; a channel is a number.\<close>

record h3DialGuard =
  g_host :: string
  g_allowed :: "string set"
  g_expiresAt :: "instant option"
  g_refreshDone :: "nat option"
  g_ttl :: duration
  g_resolveTimeout :: duration

datatype guard_error = GuardEndpoint endpoint_error | GuardNotHTTPS | GuardResolve go_error

definition parseH3DialGuardHost :: "(string \<Rightarrow> (string, net_url) result) \<Rightarrow> string \<Rightarrow> (guard_error, string) result" where
  "parseH3DialGuardHost parse_uri baseURL =
     (case Parse parse_uri baseURL of
        Inl err \<Rightarrow> Inl (GuardEndpoint err)
      | Inr parsed \<Rightarrow> if u_Scheme parsed \<noteq> ''https'' then Inl GuardNotHTTPS else Inr (u_Hostname parsed))"

text \<open>\<open>lookup\<close> is one look-up of the host's addresses within a timeout.\<close>

definition guard_resolve :: "(duration \<Rightarrow> string \<Rightarrow> (go_error, ip list) result) \<Rightarrow> h3DialGuard \<Rightarrow> (go_error, string set) result" where
  "guard_resolve lookup g =
     (case lookup (g_resolveTimeout g) (g_host g) of
        Inl err \<Rightarrow> Inl (WrapErr ''resolve host'' [err])
      | Inr ips \<Rightarrow>
          let allowed = ipAllowset ips in
          if allowed = {} then Inl (Opaque ''DNS returned no IP addresses'') else Inr allowed)"

definition initialize ::
  "(duration \<Rightarrow> string \<Rightarrow> (go_error, ip list) result) \<Rightarrow> instant \<Rightarrow> h3DialGuard \<Rightarrow> (guard_error, h3DialGuard) result" where
  "initialize lookup now g =
     (case guard_resolve lookup g of
        Inl err \<Rightarrow> Inl (GuardResolve err)
      | Inr allowed \<Rightarrow> Inr (g\<lparr>g_allowed := allowed, g_expiresAt := Some (now + g_ttl g)\<rparr>))"

definition newH3DialGuardForBaseURL ::
  "(string \<Rightarrow> (string, net_url) result) \<Rightarrow> (duration \<Rightarrow> string \<Rightarrow> (go_error, ip list) result) \<Rightarrow> instant \<Rightarrow> string
     \<Rightarrow> H3DialGuardOption option list \<Rightarrow> (guard_error, h3DialGuard) result" where
  "newH3DialGuardForBaseURL parse_uri lookup now baseURL opts =
     and_then (parseH3DialGuardHost parse_uri baseURL) (\<lambda>host.
       let cfg = applyH3DialGuardOptions opts;
           guard = \<lparr>g_host = host, g_allowed = {}, g_expiresAt = None, g_refreshDone = None, g_ttl = gopt_ttl cfg,
             g_resolveTimeout = gopt_resolveTimeout cfg\<rparr>;
           literalIP = ParseIP host
       in if literalIP \<noteq> [] then Inr (guard\<lparr>g_allowed := ipAllowset [literalIP]\<rparr>) else initialize lookup now guard)"

definition permits :: "string \<Rightarrow> h3DialGuard \<Rightarrow> bool" where
  "permits k g \<longleftrightarrow> (if k = [] then False else k \<in> g_allowed g)"

text \<open>\<open>beginRefresh\<close> with the channel it would open: what it returns, the guard, and whether it starts a refresh.\<close>

definition beginRefresh :: "nat \<Rightarrow> instant \<Rightarrow> h3DialGuard \<Rightarrow> nat option \<times> h3DialGuard \<times> bool" where
  "beginRefresh ch now g =
     (case g_expiresAt g of
        None \<Rightarrow> (None, g, False)
      | Some t \<Rightarrow>
          if now < t then (None, g, False)
          else (case g_refreshDone g of
              Some d \<Rightarrow> (Some d, g, False)
            | None \<Rightarrow> (Some ch, g\<lparr>g_refreshDone := Some ch\<rparr>, True)))"

definition refresh_store :: "(go_error, string set) result \<Rightarrow> h3DialGuard \<Rightarrow> h3DialGuard" where
  "refresh_store r g = (case r of Inr allowed \<Rightarrow> g\<lparr>g_allowed := allowed\<rparr> | Inl _ \<Rightarrow> g)"

text \<open>The deferred end of \<open>refresh\<close>: the channel to close, and the guard.\<close>

definition refresh_end :: "instant \<Rightarrow> h3DialGuard \<Rightarrow> nat option \<times> h3DialGuard" where
  "refresh_end now g = (g_refreshDone g, g\<lparr>g_expiresAt := Some (now + g_ttl g), g_refreshDone := None\<rparr>)"

section \<open>Dials and refreshes\<close>

text \<open>
  Where a call of \<open>allow\<close> is: at its start, with what \<open>beginRefresh\<close> returned, waiting for a refresh, woken
  by its end, or decided. \<open>Denied\<close> says whether the context ended the wait.
\<close>

datatype dial = Dialing string | Begun string "nat option" | WaitingOn string nat | Woken string | Allowed string | Denied string bool

definition allow_check :: "string \<Rightarrow> nat option \<Rightarrow> h3DialGuard \<Rightarrow> dial" where
  "allow_check k refreshDone g =
     (if permits k g then Allowed k
      else case refreshDone of None \<Rightarrow> Denied k False | Some ch \<Rightarrow> WaitingOn k ch)"

definition allow_recheck :: "string \<Rightarrow> h3DialGuard \<Rightarrow> dial" where
  "allow_recheck k g = (if permits k g then Allowed k else Denied k False)"

text \<open>A refresh is resolving or has stored its result; both carry the channel its starter opened.\<close>

datatype refresher = Resolving nat | Stored nat

record guard_state =
  gs_guard :: h3DialGuard
  gs_now :: instant
  gs_closed :: "nat set"
  gs_next :: nat
  gs_dials :: "dial list"
  gs_refreshers :: "refresher list"
  gs_resolved :: "string set list"

text \<open>
  \<open>gs_resolved\<close> records what the guard stored, in order: it is not part of the program's state. A look-up
  that panics ends its refresh without a result, as a failed one does.
\<close>

inductive guard_step :: "guard_state \<Rightarrow> guard_state \<Rightarrow> bool" where
  gs_tick: "gs_now s \<le> t \<Longrightarrow> guard_step s (s\<lparr>gs_now := t\<rparr>)"
| gs_dial: "guard_step s (s\<lparr>gs_dials := Dialing (canonicalIP a) # gs_dials s\<rparr>)"
| gs_begin: "gs_dials s = xs @ Dialing k # ys \<Longrightarrow> beginRefresh (gs_next s) (gs_now s) (gs_guard s) = (refreshDone, g, spawned) \<Longrightarrow>
    guard_step s (s\<lparr>gs_guard := g, gs_next := (if spawned then Suc (gs_next s) else gs_next s),
      gs_refreshers := (if spawned then Resolving (gs_next s) # gs_refreshers s else gs_refreshers s),
      gs_dials := xs @ Begun k refreshDone # ys\<rparr>)"
| gs_check: "gs_dials s = xs @ Begun k refreshDone # ys \<Longrightarrow>
    guard_step s (s\<lparr>gs_dials := xs @ allow_check k refreshDone (gs_guard s) # ys\<rparr>)"
| gs_wake: "gs_dials s = xs @ WaitingOn k ch # ys \<Longrightarrow> ch \<in> gs_closed s \<Longrightarrow> guard_step s (s\<lparr>gs_dials := xs @ Woken k # ys\<rparr>)"
| gs_recheck: "gs_dials s = xs @ Woken k # ys \<Longrightarrow> guard_step s (s\<lparr>gs_dials := xs @ allow_recheck k (gs_guard s) # ys\<rparr>)"
| gs_cancel: "gs_dials s = xs @ WaitingOn k ch # ys \<Longrightarrow> guard_step s (s\<lparr>gs_dials := xs @ Denied k True # ys\<rparr>)"
| gs_store: "gs_refreshers s = xs @ Resolving ch # ys \<Longrightarrow>
    guard_step s (s\<lparr>gs_guard := refresh_store (guard_resolve lookup (gs_guard s)) (gs_guard s), gs_refreshers := xs @ Stored ch # ys,
      gs_resolved := gs_resolved s @ (case guard_resolve lookup (gs_guard s) of Inr allowed \<Rightarrow> [allowed] | Inl _ \<Rightarrow> [])\<rparr>)"
| gs_end: "gs_refreshers s = xs @ r # ys \<Longrightarrow> refresh_end (gs_now s) (gs_guard s) = (done', g) \<Longrightarrow>
    guard_step s (s\<lparr>gs_guard := g, gs_closed := gs_closed s \<union> set_option done', gs_refreshers := xs @ ys\<rparr>)"

definition guard_start :: "h3DialGuard \<Rightarrow> guard_state \<Rightarrow> bool" where
  "guard_start g s \<longleftrightarrow> gs_guard s = g \<and> gs_closed s = {} \<and> gs_next s = 0 \<and> gs_dials s = [] \<and> gs_refreshers s = [] \<and>
     gs_resolved s = [g_allowed g]"

section \<open>Laws of addresses\<close>

lemma canonicalIP_forms: "length a = 4 \<Longrightarrow> canonicalIP (v4_in_v6_prefix @ a) = a \<and> canonicalIP a = a"
  by (auto simp: canonicalIP_def To4_forms)

lemma canonicalIP_valid: "canonicalIP a \<noteq> [] \<longleftrightarrow> length a = 4 \<or> length a = 16"
proof -
  have "To4 a = Some [] \<Longrightarrow> False" "To16 a = Some [] \<Longrightarrow> False" using To4_length [of a "[]"] To16_length [of a "[]"] by auto
  then show ?thesis by (auto simp: canonicalIP_def To4_def To16_def split: option.splits if_splits)
qed

lemma ipAllowset_exact: "ipAllowset ips = canonicalIP ` set ips - {[]}"
proof -
  have "fold (\<lambda>a allowed. let k = canonicalIP a in if k \<noteq> [] then insert k allowed else allowed) ips A = A \<union> (canonicalIP ` set ips - {[]})" for A
    by (induction ips arbitrary: A) (auto simp: Let_def)
  then show ?thesis by (simp add: ipAllowset_def)
qed

section \<open>Refreshing is shared work\<close>

fun ref_chan :: "refresher \<Rightarrow> nat" where
  "ref_chan (Resolving ch) = ch"
| "ref_chan (Stored ch) = ch"

definition dial_waits :: "dial list \<Rightarrow> nat set" where
  "dial_waits ds = {ch. \<exists>k. WaitingOn k ch \<in> set ds \<or> Begun k (Some ch) \<in> set ds}"

lemmas guard_defs = beginRefresh_def refresh_end_def refresh_store_def allow_check_def allow_recheck_def

lemma beginRefresh_cases:
  assumes "beginRefresh ch now g = (refreshDone, g', spawned)"
  shows "g' = g \<and> \<not> spawned \<and> (refreshDone = None \<or> refreshDone = g_refreshDone g) \<or>
    g' = g\<lparr>g_refreshDone := Some ch\<rparr> \<and> spawned \<and> g_refreshDone g = None \<and> refreshDone = Some ch"
  using assms unfolding beginRefresh_def by (cases "g_expiresAt g"; cases "g_refreshDone g") (auto split: if_splits)

interpretation guard: single_flight guard_step "\<lambda>s. guard_start g s \<and> g_refreshDone g = None" "\<lambda>s. g_refreshDone (gs_guard s)" gs_closed
    "\<lambda>s. map ref_chan (gs_refreshers s)" "\<lambda>s. dial_waits (gs_dials s)"
  for g
proof
  fix s s' ch
  assume step: "guard_step s s'"
  show "gs_closed s \<subseteq> gs_closed s'" using step by cases auto
  show "dial_waits (gs_dials s') \<subseteq> dial_waits (gs_dials s) \<union> set_option (g_refreshDone (gs_guard s'))"
    using step by cases (auto simp: dial_waits_def guard_defs split: option.splits if_splits)
  assume one: "map ref_chan (gs_refreshers s) = sole (g_refreshDone (gs_guard s))"
  have both: "map ref_chan (gs_refreshers s') = sole (g_refreshDone (gs_guard s')) \<and>
      (g_refreshDone (gs_guard s) = Some ch \<longrightarrow> g_refreshDone (gs_guard s') = Some ch \<or> ch \<in> gs_closed s')"
    using step
  proof cases
    case (gs_end xs r ys done' g)
    with one show ?thesis by (auto simp: refresh_end_def append_eq_Cons_conv split: option.splits)
  next
    case (gs_store xs ch' ys lookup)
    with one show ?thesis by (auto simp: refresh_store_def split: option.splits sum.splits)
  next
    case (gs_begin xs k ys refreshDone g spawned)
    from beginRefresh_cases [OF gs_begin(3)] show ?thesis
      using gs_begin(1) one by auto
  qed (use one in \<open>auto simp: guard_defs split: option.splits if_splits\<close>)
  then show "map ref_chan (gs_refreshers s') = sole (g_refreshDone (gs_guard s'))" by blast
  assume "g_refreshDone (gs_guard s) = Some ch"
  with both show "g_refreshDone (gs_guard s') = Some ch \<or> ch \<in> gs_closed s'" by blast
qed (auto simp: guard_start_def dial_waits_def)

section \<open>The addresses\<close>

text \<open>What every state keeps: the addresses are the newest resolution, and decisions were made by one.\<close>

definition guard_ok :: "guard_state \<Rightarrow> bool" where
  "guard_ok s \<longleftrightarrow> gs_resolved s \<noteq> [] \<and> g_allowed (gs_guard s) = last (gs_resolved s) \<and>
     (\<forall>A \<in> set (gs_resolved s). A \<noteq> {} \<and> [] \<notin> A) \<and>
     (\<forall>k. Allowed k \<in> set (gs_dials s) \<longrightarrow> (\<exists>A \<in> set (gs_resolved s). k \<in> A)) \<and>
     (\<forall>k. Denied k False \<in> set (gs_dials s) \<longrightarrow> (\<exists>A \<in> set (gs_resolved s). k \<notin> A))"

lemma guard_resolve_Inr: "guard_resolve lookup g = Inr A \<Longrightarrow> A \<noteq> {} \<and> [] \<notin> A"
  by (auto simp: guard_resolve_def Let_def ipAllowset_exact split: sum.splits if_splits)

lemma permits_iff: "guard_ok s \<Longrightarrow> permits k (gs_guard s) \<longleftrightarrow> k \<in> last (gs_resolved s)"
  by (auto simp: permits_def guard_ok_def)

lemma guard_step_ok: "guard_step s s' \<Longrightarrow> guard_ok s \<Longrightarrow> guard_ok s'"
proof (induction rule: guard_step.induct)
  case (gs_store s xs ch ys lookup)
  then show ?case
    using guard_resolve_Inr [of lookup "gs_guard s"] by (auto simp: guard_ok_def refresh_store_def split: sum.splits)
next
  case (gs_check s xs k refreshDone ys)
  have "last (gs_resolved s) \<in> set (gs_resolved s)" using gs_check.prems by (simp add: guard_ok_def)
  with gs_check permits_iff [OF gs_check.prems, of k] show ?case
    by (auto simp: guard_ok_def allow_check_def split: option.splits if_splits)
next
  case (gs_recheck s xs k ys)
  have "last (gs_resolved s) \<in> set (gs_resolved s)" using gs_recheck.prems by (simp add: guard_ok_def)
  with gs_recheck permits_iff [OF gs_recheck.prems, of k] show ?case
    by (auto simp: guard_ok_def allow_recheck_def split: if_splits)
qed (auto simp: guard_ok_def beginRefresh_def refresh_end_def split: option.splits if_splits)

lemma new_guard:
  assumes "newH3DialGuardForBaseURL parse_uri lookup now baseURL opts = Inr g"
  shows "g_refreshDone g = None" and "g_allowed g \<noteq> {}" and "[] \<notin> g_allowed g"
    and "ParseIP (g_host g) \<noteq> [] \<Longrightarrow> g_expiresAt g = None \<and> g_allowed g = {canonicalIP (ParseIP (g_host g))}"
proof -
  let ?cfg = "applyH3DialGuardOptions opts"
  from assms obtain host where run: "(let guard = \<lparr>g_host = host, g_allowed = {}, g_expiresAt = None, g_refreshDone = None, g_ttl = gopt_ttl ?cfg,
      g_resolveTimeout = gopt_resolveTimeout ?cfg\<rparr> in
      if ParseIP host \<noteq> [] then Inr (guard\<lparr>g_allowed := ipAllowset [ParseIP host]\<rparr>) else initialize lookup now guard) = Inr g"
    by (auto simp: newH3DialGuardForBaseURL_def Let_def)
  define g0 where "g0 = \<lparr>g_host = host, g_allowed = {}, g_expiresAt = None, g_refreshDone = None, g_ttl = gopt_ttl ?cfg,
      g_resolveTimeout = gopt_resolveTimeout ?cfg\<rparr>"
  have host: "g_host g0 = host" "g_refreshDone g0 = None" "g_expiresAt g0 = None" by (simp_all add: g0_def)
  have g: "(if ParseIP host \<noteq> [] then Inr (g0\<lparr>g_allowed := ipAllowset [ParseIP host]\<rparr>) else initialize lookup now g0) = Inr g"
    using run by (simp only: g0_def Let_def)
  have "g_refreshDone g = None \<and> g_allowed g \<noteq> {} \<and> [] \<notin> g_allowed g \<and> g_host g = host \<and>
      (ParseIP host \<noteq> [] \<longrightarrow> g_expiresAt g = None \<and> g_allowed g = {canonicalIP (ParseIP host)})"
  proof (cases "ParseIP host = []")
    case True
    with g obtain A where A: "guard_resolve lookup g0 = Inr A" and "g = g0\<lparr>g_allowed := A, g_expiresAt := Some (now + g_ttl g0)\<rparr>"
      by (auto simp: initialize_def split: sum.splits)
    with True host guard_resolve_Inr [OF A] show ?thesis by simp
  next
    case False
    then have "canonicalIP (ParseIP host) \<noteq> []" using ParseIP_length canonicalIP_valid by auto
    with False g host show ?thesis by (auto simp: ipAllowset_exact)
  qed
  with host show "g_refreshDone g = None" and "g_allowed g \<noteq> {}" and "[] \<notin> g_allowed g"
    and "ParseIP (g_host g) \<noteq> [] \<Longrightarrow> g_expiresAt g = None \<and> g_allowed g = {canonicalIP (ParseIP (g_host g))}" by auto
qed

lemma guard_reach_ok:
  assumes "newH3DialGuardForBaseURL parse_uri lookup now baseURL opts = Inr g"
    and "reachable guard_step (guard_start g) s"
  shows "guard_ok s"
  using assms(2)
proof (induction rule: reachable.induct)
  case (reach_init s)
  then show ?case using new_guard [OF assms(1)] by (auto simp: guard_start_def guard_ok_def)
qed (rule guard_step_ok)

lemma literal_guard_fixed:
  assumes "g_expiresAt g = None" and "reachable guard_step (guard_start g) s"
  shows "g_expiresAt (gs_guard s) = None \<and> gs_refreshers s = [] \<and> gs_resolved s = [g_allowed g]"
  using assms(2)
proof (induction rule: reachable.induct)
  case (reach_init s)
  with assms(1) show ?case by (simp add: guard_start_def)
next
  case (reach_step s s')
  from reach_step.hyps(2) reach_step.IH show ?case by cases (auto simp: beginRefresh_def)
qed

lemma guard_shared:
  assumes "g_refreshDone g = None" and "reachable guard_step (guard_start g) s"
  shows "reachable guard_step (\<lambda>s. guard_start g s \<and> g_refreshDone g = None) s"
  using assms(2) by (induction rule: reachable.induct) (auto intro: reachable.intros assms(1))

lemma woken_dial:
  assumes "gs_dials s = xs @ WaitingOn k ch # ys" and "ch \<in> gs_closed s"
  shows "\<exists>s'. rtranclp guard_step s s' \<and> gs_guard s' = gs_guard s \<and> gs_resolved s' = gs_resolved s \<and>
    gs_dials s' = xs @ allow_recheck k (gs_guard s) # ys"
proof -
  let ?s1 = "s\<lparr>gs_dials := xs @ Woken k # ys\<rparr>"
  have "guard_step s ?s1" by (rule gs_wake [OF assms])
  moreover have "guard_step ?s1 (?s1\<lparr>gs_dials := xs @ allow_recheck k (gs_guard ?s1) # ys\<rparr>)" by (rule gs_recheck) simp
  ultimately show ?thesis by (intro exI [of _ "?s1\<lparr>gs_dials := xs @ allow_recheck k (gs_guard ?s1) # ys\<rparr>"]) auto
qed

lemma refresh_ends:
  assumes "gs_refreshers s = [r]" and "g_refreshDone (gs_guard s) = Some ch"
  shows "\<exists>s'. guard_step s s' \<and> ch \<in> gs_closed s' \<and> gs_dials s' = gs_dials s \<and> gs_resolved s' = gs_resolved s \<and>
    g_allowed (gs_guard s') = g_allowed (gs_guard s)"
proof -
  obtain done' g where e: "refresh_end (gs_now s) (gs_guard s) = (done', g)" by fastforce
  from gs_end [of s "[]" r "[]", OF _ e] assms e show ?thesis by (auto simp: refresh_end_def)
qed

text \<open>Ending the refresh, waking and checking again.\<close>

lemma refresh_then_recheck:
  assumes "gs_dials s = xs @ WaitingOn k ch # ys" and "gs_refreshers s = [r]" and "g_refreshDone (gs_guard s) = Some ch"
  shows "\<exists>s'. rtranclp guard_step s s' \<and> gs_resolved s' = gs_resolved s \<and> g_allowed (gs_guard s') = g_allowed (gs_guard s) \<and>
    gs_dials s' = xs @ allow_recheck k (gs_guard s') # ys"
proof -
  from refresh_ends [OF assms(2,3)] obtain s1 where s1: "guard_step s s1" "ch \<in> gs_closed s1" "gs_dials s1 = gs_dials s"
    "gs_resolved s1 = gs_resolved s" "g_allowed (gs_guard s1) = g_allowed (gs_guard s)" by blast
  from woken_dial [of s1 xs k ch ys] s1 assms(1) obtain s2 where "rtranclp guard_step s1 s2" "gs_guard s2 = gs_guard s1"
    "gs_resolved s2 = gs_resolved s1" "gs_dials s2 = xs @ allow_recheck k (gs_guard s1) # ys" by auto
  with s1 show ?thesis by (intro exI [of _ s2]) (auto intro: converse_rtranclp_into_rtranclp)
qed

section \<open>Claims\<close>


text \<open>
  C37: a dial that waits for a refresh can always be decided, also when every look-up fails or panics,
  and no other dial need move for it; and if the refresh under way resolves to its address, it can pass:
  a change of addresses at the end of their lifetime costs no request.
\<close>

theorem waiting_dial_decided:
  assumes "newH3DialGuardForBaseURL parse_uri lookup now baseURL opts = Inr g"
    and "reachable guard_step (guard_start g) s" and "gs_dials s = xs @ WaitingOn k ch # ys"
  shows "(\<exists>s'. rtranclp guard_step s s' \<and> gs_resolved s' = gs_resolved s \<and> gs_dials s' = xs @ allow_recheck k (gs_guard s') # ys) \<and>
    (\<forall>lookup' A. gs_refreshers s = [Resolving ch] \<and> guard_resolve lookup' (gs_guard s) = Inr A \<and> k \<in> A \<longrightarrow>
       (\<exists>s'. rtranclp guard_step s s' \<and> gs_resolved s' = gs_resolved s @ [A] \<and> gs_dials s' = xs @ Allowed k # ys))"
proof (intro conjI allI impI)
  note reach = guard_shared [OF new_guard(1) [OF assms(1)] assms(2)]
  have waits: "ch \<in> dial_waits (gs_dials s)" using assms(3) by (auto simp: dial_waits_def)
  from guard.no_lost_waiter [OF reach waits]
  show "\<exists>s'. rtranclp guard_step s s' \<and> gs_resolved s' = gs_resolved s \<and> gs_dials s' = xs @ allow_recheck k (gs_guard s') # ys"
  proof
    assume "ch \<in> gs_closed s"
    from woken_dial [OF assms(3) this] show ?thesis by auto
  next
    assume one: "map ref_chan (gs_refreshers s) = [ch]"
    then obtain r where "gs_refreshers s = [r]" by auto
    moreover have "g_refreshDone (gs_guard s) = Some ch" using guard.shared [OF reach] one by (auto split: option.splits)
    ultimately show ?thesis using refresh_then_recheck [OF assms(3)] by blast
  qed
  fix lookup' A
  assume new: "gs_refreshers s = [Resolving ch] \<and> guard_resolve lookup' (gs_guard s) = Inr A \<and> k \<in> A"
  let ?s1 = "s\<lparr>gs_guard := refresh_store (Inr A) (gs_guard s), gs_refreshers := [Stored ch], gs_resolved := gs_resolved s @ [A]\<rparr>"
  from gs_store [of s "[]" ch "[]" lookup'] new have step: "guard_step s ?s1" by simp
  have "g_refreshDone (gs_guard ?s1) = Some ch"
    using guard.shared [OF reach] new by (auto simp: refresh_store_def split: option.splits)
  with refresh_then_recheck [of ?s1 xs k ch ys "Stored ch"] assms(3) obtain s2 where s2: "rtranclp guard_step ?s1 s2"
    "gs_resolved s2 = gs_resolved s @ [A]" "g_allowed (gs_guard s2) = A" "gs_dials s2 = xs @ allow_recheck k (gs_guard s2) # ys"
    by (auto simp: refresh_store_def)
  have "[] \<notin> A" using guard_resolve_Inr new by blast
  with s2 new have "gs_dials s2 = xs @ Allowed k # ys" by (auto simp: allow_recheck_def permits_def)
  with s2 step show "\<exists>s'. rtranclp guard_step s s' \<and> gs_resolved s' = gs_resolved s @ [A] \<and> gs_dials s' = xs @ Allowed k # ys"
    by (intro exI [of _ s2]) (auto intro: converse_rtranclp_into_rtranclp)
qed

definition sample_lookup :: "duration \<Rightarrow> string \<Rightarrow> (go_error, ip list) result" where
  "sample_lookup = (\<lambda>_ _. Inr [replicate 4 (CHR 0x0A)])"

definition sample_guard :: h3DialGuard where
  "sample_guard = \<lparr>g_host = ''iris'', g_allowed = {replicate 4 (CHR 0x0A)}, g_expiresAt = Some Minute, g_refreshDone = None, g_ttl = Minute,
     g_resolveTimeout = 5 * Second\<rparr>"

lemma sample_guard_new: "newH3DialGuardForBaseURL (\<lambda>_. Inr sample_url) sample_lookup 0 ''https://iris'' [] = Inr sample_guard"
proof -
  have vis: "trim_space ''https://iris'' = ''https://iris''" by (rule trim_space_all_visible) (simp add: is_visible_def)
  have "ParseIP ''iris'' = []" by (simp add: ParseIP_def ParseAddr_def)
  moreover have "ipAllowset [replicate 4 (CHR 0x0A)] = {replicate 4 (CHR 0x0A)}"
    by (simp add: ipAllowset_exact canonicalIP_forms)
  ultimately show ?thesis
    by (simp add: newH3DialGuardForBaseURL_def parseH3DialGuardHost_def Parse_def Let_def vis IsAbs_def sample_url_def
        applyH3DialGuardOptions_def initialize_def guard_resolve_def sample_lookup_def sample_guard_def
        defaultH3DialGuardTTL_def defaultH3DialGuardResolveTimeout_def)
qed

text \<open>A dial to an address that is not allowed, after the addresses ran out.\<close>

definition sample_waiting :: guard_state where
  "sample_waiting = \<lparr>gs_guard = sample_guard\<lparr>g_refreshDone := Some 0\<rparr>, gs_now = Minute, gs_closed = {}, gs_next = 1,
     gs_dials = [WaitingOn (replicate 4 (CHR 0x0B)) 0], gs_refreshers = [Resolving 0], gs_resolved = [{replicate 4 (CHR 0x0A)}]\<rparr>"

lemma sample_waiting_reach: "reachable guard_step (guard_start sample_guard) sample_waiting"
proof -
  let ?k = "replicate 4 (CHR 0x0B)"
  let ?s0 = "\<lparr>gs_guard = sample_guard, gs_now = 0, gs_closed = {}, gs_next = 0, gs_dials = [], gs_refreshers = [], gs_resolved = [{replicate 4 (CHR 0x0A)}]\<rparr>"
  let ?s1 = "?s0\<lparr>gs_now := Minute\<rparr>"
  let ?s2 = "?s1\<lparr>gs_dials := [Dialing ?k]\<rparr>"
  let ?s3 = "?s2\<lparr>gs_guard := sample_guard\<lparr>g_refreshDone := Some 0\<rparr>, gs_next := 1, gs_refreshers := [Resolving 0], gs_dials := [Begun ?k (Some 0)]\<rparr>"
  have "reachable guard_step (guard_start sample_guard) ?s0" by (rule reach_init) (simp add: guard_start_def sample_guard_def)
  from reach_step [OF this gs_tick [of _ Minute]] have "reachable guard_step (guard_start sample_guard) ?s1" by (simp add: Minute_def)
  from reach_step [OF this gs_dial [of _ ?k]] have s2: "reachable guard_step (guard_start sample_guard) ?s2" by (simp add: canonicalIP_forms)
  have "beginRefresh 0 Minute sample_guard = (Some 0, sample_guard\<lparr>g_refreshDone := Some 0\<rparr>, True)"
    by (simp add: beginRefresh_def sample_guard_def)
  with reach_step [OF s2 gs_begin [of _ "[]" ?k "[]" "Some 0" "sample_guard\<lparr>g_refreshDone := Some 0\<rparr>" True]]
  have "reachable guard_step (guard_start sample_guard) ?s3" by simp
  from reach_step [OF this gs_check [of _ "[]" ?k "Some 0" "[]"]] show ?thesis
    by (simp add: sample_waiting_def allow_check_def permits_def sample_guard_def)
qed


theorem waiting_dial_decided_witness:
  "\<exists>s'. rtranclp guard_step sample_waiting s' \<and> gs_dials s' = [Allowed (replicate 4 (CHR 0x0B))]"
proof -
  let ?A = "{replicate 4 (CHR 0x0B)}"
  have w: "gs_dials sample_waiting = [] @ WaitingOn (replicate 4 (CHR 0x0B)) 0 # []" by (simp add: sample_waiting_def)
  have "guard_resolve (\<lambda>_ _. Inr [replicate 4 (CHR 0x0B)]) (gs_guard sample_waiting) = Inr ?A"
    by (simp add: guard_resolve_def ipAllowset_exact canonicalIP_forms)
  moreover have "gs_refreshers sample_waiting = [Resolving 0]" by (simp add: sample_waiting_def)
  ultimately show ?thesis
    using waiting_dial_decided [OF sample_guard_new sample_waiting_reach w] by fastforce
qed

end
