(* ===== verification/Spec2Isabelle.thy ===== *)
theory Spec2Isabelle
  imports Cluster_Refinement Client_Rooms Client_Resend Media_Chunks H3_Dial_Guard
begin

text \<open>
  A verification development of \<open>iris-client-go\<close>, the Go client of the Iris messaging server and the
  receiver of its webhooks.

  \<^bold>\<open>The program.\<close> A bot talks to Iris in two directions.
  \<^item> Outgoing: \<open>iris.NewClient\<close> builds a client with a transport. A call (a reply, a query, a media
    request) is validated, encoded, built as an HTTP request, given a current authentication epoch,
    signed with HMAC-SHA-256 over a canonical form of method, target, time, nonce and body digest,
    sent, replayed once when the server refuses its epoch, decoded under size limits and, on the
    reply path, retried; its error says whether the outcome is known.
  \<^item> Incoming: \<open>webhook.Handler\<close> authenticates a signed delivery, burns its nonce in a store shared by
    the replicas of the receiver, decodes and validates the message, hands it to an admitter and
    answers; it can be closed while requests are under way. \<open>webhooksign\<close> is the signing side of this.

  \<^bold>\<open>Theories.\<close> Each theory names the source files it models in its first block.
  \<^item> Go's library, as far as the program uses it: \<open>Iris_Prelude\<close> (types, results, shared lemmas),
    \<open>Go_Strings\<close> (strings, UTF-8, numbers, hex), \<open>Go_Crypto\<close> (SHA-256 and HMAC, executable), \<open>Go_Base64\<close>,
    \<open>Go_Netip\<close> and \<open>Go_Net\<close> (addresses), \<open>Go_Http\<close> (headers, bodies), \<open>Go_Mime\<close> (media types).
  \<^item> Authentication: \<open>Canonical_Query\<close> and \<open>Irishmac\<close> (\<open>src/internal/irishmac\<close>), \<open>Signing\<close>
    (\<open>src/internal/client/signing\<close>, \<open>randomhex\<close>), \<open>Webhook_Sign\<close> (\<open>src/webhooksign\<close>).
  \<^item> Webhooks: \<open>Webhook_Message\<close>, \<open>Webhook_Handler\<close> and \<open>Webhook_Admission\<close> (\<open>src/webhook\<close>), \<open>Nonce_Store\<close>
    (\<open>src/valkeydedup\<close>), \<open>Webhook_Security\<close> (what the parts guarantee together), \<open>Webhook_Cluster\<close> (replicas
    that serve requests concurrently over one store) and \<open>Cluster_Refinement\<close> (how the cluster relates
    to the sequential handler and to the admission machine, and what it guarantees).
  \<^item> Client (\<open>src/internal/client/transport\<close> unless said otherwise): \<open>Client_Errors\<close> (\<open>errors.go\<close>),
    \<open>Client_Retry\<close> (\<open>retry.go\<close>, \<open>retry_after.go\<close>), \<open>Single_Flight\<close> and \<open>Auth_Epoch\<close> (\<open>auth_epoch.go\<close>),
    \<open>Client_Execute\<close> and \<open>Client_Decode\<close> (\<open>client.go\<close>, \<open>execute.go\<close>, \<open>ping.go\<close>, \<open>strict_json.go\<close>), \<open>Client_Call\<close>
    (whole calls), \<open>Client_Rooms\<close> (\<open>path.go\<close>, \<open>rooms.go\<close>), \<open>Multipart\<close> (\<open>src/internal/client/multipart\<close>),
    \<open>Client_Replies\<close> (\<open>options.go\<close>, \<open>normalize.go\<close>, \<open>file.go\<close>, the reply operations of \<open>client.go\<close>,
    \<open>src/iris/reply_reissue.go\<close>, \<open>reply_status.go\<close>), \<open>Client_Resend\<close> (when a reply is sent again),
    \<open>Media_Chunks\<close> (\<open>media.go\<close>, \<open>src/internal/client/common/media_types.go\<close>), \<open>Api_Types\<close> (the records of
    \<open>src/internal/client/query/types.go\<close> and \<open>common/room_types.go\<close>), \<open>Client_Setup\<close> (\<open>sdk.go\<close>,
    \<open>transport.go\<close>, \<open>http3_transport.go\<close>, \<open>src/internal/baseendpoint\<close>), \<open>H3_Dial_Guard\<close> (\<open>h3_dial_guard.go\<close>).

  \<^bold>\<open>State and operations.\<close> A struct is a record with the fields of the source, an operation takes the
  record and returns it updated: \<open>Signer\<close> with its pool of keyed hashes, \<open>Handler\<close> with its nonce store,
  counters and closing state, \<open>APIClient\<close> with its cached epoch, its signer and the list of requests
  handed to \<open>http.Client.Do\<close>. Errors are values: \<open>go_error\<close> is the tree \<open>errors.Is\<close> and \<open>errors.As\<close> walk,
  and a panic is \<open>None\<close>. Code that runs concurrently is a step relation whose steps are the parts between
  two holds of a lock or two channel operations: \<open>epoch_step\<close>, \<open>guard_step\<close>, \<open>adm_step\<close>. \<open>cluster_step\<close> runs
  any number of requests on any number of handlers: each request is a goroutine at a place of
  \<open>ServeHTTP\<close> (\<open>flight\<close>), its parts are the operations of the sequential model, and the passing of time,
  arrivals, closings and the parts of all requests interleave freely; the nonces granted and the
  admitter calls are recorded beside the state so that theorems can speak about them. Durations and
  times are integers in nanoseconds; where the source can overflow (\<open>Retry-After\<close>, body lengths,
  counters) the bound or the wrap-around is written out.

  \<^bold>\<open>Interfaces.\<close>
  \<^item> \<open>set_once_store\<close> is what the handler relies on of a nonce store; \<open>valkey_server\<close> is the documented
    \<open>SET NX PX\<close>; a sublocale shows that \<open>IsDuplicate\<close> turns the one into the other, and a key space with
    expiry interprets it. \<open>webhook_cluster\<close> extends it to handlers over such a store; its lemmas
    show that one nonce leads to one call of an admitter, and the key space interprets it too.
  \<^item> \<open>single_flight\<close> is shared work behind a channel; the epoch cache and the dial guard interpret it.
  \<^item> \<open>request_builder\<close> is what a retried call relies on of the function that builds its request; the
    JSON and the multipart builder interpret it.
  \<^item> \<open>body_source\<close> is a reader that delivers a fixed rest; the image and the file reader interpret it.

  \<^bold>\<open>What is shown.\<close>
  \<^item> Webhooks: only a delivery signed with the secret is admitted or consumes a nonce; a signed one is
    accepted, and every authentic request has the status the source documents; decoded messages
    are well formed. In every interleaving of requests on any number of replicas an admitter is
    called only for an authentic request, and no delivery is admitted twice within the replay
    window, with the exception that a body read for longer than the window reopens it. A request
    nobody disturbs is served as \<open>ServeHTTP\<close> computes; each replica runs the admission machine, so that
    a closed replica is quiescent; closing completes.
  \<^item> Signing: canonical targets are fixed points, independent of the order of the query, with
    repeated keys found exactly; transcripts are injective; a pooled signer signs like a fresh one.
  \<^item> Calls: every request of a call is the same up to authentication; a request is replayed at most
    once; discovery of the epoch is single-flight, and the discovery of a call alone is a run of it; \<open>ErrNotSent\<close> is truthful; unknown outcomes are reported exactly; retries are bounded in
    number and delay; a reply without an identifier is sent again only after the server turned it
    away; answers are accepted exactly under the stated limits.
  \<^item> Payloads: announced lengths and digests are those of the bytes delivered, however they are read;
    options, identifiers, media requests and media answers are accepted exactly as specified.
  \<^item> Construction: nothing but loopback probes is sent in the clear, signed requests are not
    redirected, and guarded dials reach only addresses the host resolved to.

  \<^bold>\<open>Loops.\<close> Loops are structural recursions or functions with a measure: the retry loop counts the
  attempts left, \<open>client_do\<close> ends because the epoch flag is set once, readers by the bytes left, the
  redaction by the bytes not searched, the strict object decoder by the known fields not yet seen.
  The one loop with fuel is the scan of media type parameters (\<open>media_params\<close>); its fuel is the length
  of the input, and \<open>media_params_fuel\<close> shows that more changes nothing.

  \<^bold>\<open>Arguments of the model.\<close> The JSON codec and tokenizer, \<open>http.ParseTime\<close>, \<open>url.Parse\<close> and
  \<open>url.ParseRequestURI\<close>, the network, the resolver and the QUIC dialler, the file system and the
  certificate parser, contexts (as the errors they report), clocks, random bytes, the choices of a
  \<open>sync.Pool\<close>, OpenTelemetry's header injection, the admitter and Unicode's case tables. What a theorem
  needs of them is a named hypothesis (\<open>decoder_ok\<close>, \<open>io_honest\<close>, \<open>response_errors_ok\<close>,
  \<open>network_errors_ok\<close>, \<open>reads_file\<close>), and its witness instantiates them.

  \<^bold>\<open>Not modelled.\<close> Logging and the recovery of panics in background goroutines (\<open>safeGo\<close>); the
  records of accepted replies and of event payloads, with which the client does not compute; aliases and
  re-exported names (\<open>src/iris/iris_client.go\<close>, \<open>common_aliases.go\<close>, \<open>query_aliases.go\<close>); string constants
  shared with the server (\<open>src/webhook/feed_contract.go\<close> and most of \<open>constants.go\<close>); the pooled copy
  buffer of the file reader, which is cleared before reuse; test support.
\<close>

section \<open>Replies without an identifier\<close>

text \<open>
  C18: a reply without a client request identifier, of any kind, is carried out at most once: however
  retries, replays and discovery interleave, whenever the client sends another request for it, the
  server had turned the earlier one away, with 429 or for its epoch. An unusable answer or a lost
  connection never leads to a second request.
\<close>

theorem unkeyed_reply_carried_out_once:
  assumes "network_errors_ok (ci_io ci) ErrRateLimited" and "answers_ok ci ErrRateLimited"
    and "send_reply ci retryMax encs c room opts rp = (r, c')" and "\<not> has_client_request_id opts"
    and "ac_sent c' = ac_sent c @ before @ q # after" and "\<not> discovery_of c q" and "protected_of c after \<noteq> []"
  shows "turned_away (ci_io ci) PathReply (ac_sent c @ before) q"
proof (cases rule: send_reply_call [OF assms(3)])
  case 1
  with assms(5) show ?thesis by simp
next
  case (2 payload y)
  with assms(4) json.call_resends [OF assms(1,2) _ assms(5-7)] show ?thesis by simp
next
  case (3 b sha len ct y)
  with assms(4) multipart.call_resends [OF assms(1,2) _ assms(5-7)] show ?thesis by simp
qed

theorem unkeyed_reply_carried_out_once_witness:
  "send_reply busy_ci 3 plain_encoders sample_client ''7'' [] (TextReply ''hi'') =
     (Some (Inr ()), sample_client\<lparr>ac_sent := [plain_post, plain_post]\<rparr>) \<and> turned_away busy_io PathReply [] plain_post"
proof -
  have ci: "ci_io busy_ci = busy_io" by (simp add: busy_ci_def)
  have ok: "network_errors_ok (ci_io busy_ci) ErrRateLimited" "answers_ok busy_ci ErrRateLimited"
    by (auto simp: network_errors_ok_def answers_ok_def response_errors_ok_def ci busy_io_def busy_ci_def sample_ci_def sample_dc_def)
  have id: "\<not> has_client_request_id []" by (simp add: has_client_request_id_def applySendOptions_def normalizeClientRequestID_def)
  have post: "\<not> discovery_of sample_client plain_post" by (simp add: discovery_of_def plain_post_def)
  from unkeyed_reply_carried_out_once [OF ok busy_run id, of "[]" plain_post "[plain_post]"] post busy_run ci
  show ?thesis by (simp add: protected_of_def sample_client_def)
qed

end
